(* ===== verification/GoPrelude.thy ===== *)
theory GoPrelude
  imports Complex_Main "HOL-Library.Signed_Division"
begin

text \<open>
  Shared vocabulary of the model of go4sprint: the types that stand for Go's types,
  the collections of lemmas the component theories feed, and the decimal digit
  machinery that \<open>strconv.Atoi\<close>, \<open>time.ParseDuration\<close> and the \<open>fmt\<close> verbs share.
  A Go string is a sequence of bytes; it is modelled as an Isabelle \<open>string\<close>, whose
  \<open>char\<close>s are exactly the 256 byte values, so that non-ASCII text (the Russian labels
  of the source) is its UTF-8 byte sequence. Go's \<open>int\<close> (64 bits on the targets of this
  program) and \<open>time.Duration\<close> (an \<open>int64\<close> count of nanoseconds) are \<open>int\<close>; the
  range checks the library performs are written out against \<open>int64_min\<close> and
  \<open>int64_max\<close>. Go's \<open>float64\<close> is idealised as \<open>real\<close>.
\<close>

type_synonym go_string = "char list"
type_synonym go_int = int
type_synonym duration = int
type_synonym float64 = real

named_theorems go_consts "the package constants of the Go source, unfolded for arithmetic"
named_theorems go_eval "evaluation equations of recursive model functions, for closed inputs"

abbreviation int64_max :: int where
  "int64_max \<equiv> 2 ^ 63 - 1"

abbreviation int64_min :: int where
  "int64_min \<equiv> - (2 ^ 63)"

abbreviation in_int64 :: "int \<Rightarrow> bool" where
  "in_int64 x \<equiv> int64_min \<le> x \<and> x \<le> int64_max"

abbreviation uint64_max :: nat where
  "uint64_max \<equiv> 2 ^ 64 - 1"

subsection \<open>Decimal digits\<close>

text \<open>
  The library tests a byte for a decimal digit with \<open>'0' <= c && c <= '9'\<close> and takes
  its value as \<open>c - '0'\<close>; \<open>of_char\<close> reads a byte as its number.
\<close>

definition is_digit :: "char \<Rightarrow> bool" where
  "is_digit c \<longleftrightarrow> 48 \<le> (of_char c :: nat) \<and> (of_char c :: nat) \<le> 57"

definition digit_val :: "char \<Rightarrow> nat" where
  "digit_val c = of_char c - 48"

text \<open>
  The reference value of a digit string: the loop \<open>n = n*10 + d\<close> run to the end with
  unbounded arithmetic. The library loops are proved against it.
\<close>

definition digits_value :: "nat \<Rightarrow> go_string \<Rightarrow> nat" where
  "digits_value n cs = foldl (\<lambda>acc c. acc * 10 + digit_val c) n cs"

text \<open>Rendering of a natural number in decimal, most significant digit first.\<close>

fun nat_digits :: "nat \<Rightarrow> go_string" where
  "nat_digits n =
     (if n < 10 then [char_of (48 + n)]
      else nat_digits (n div 10) @ [char_of (48 + n mod 10)])"

declare nat_digits.simps [simp del]

declare is_digit_def [go_eval] digit_val_def [go_eval]

lemma digits_value_Nil [simp]: "digits_value n [] = n"
  by (simp add: digits_value_def)

lemma digits_value_Cons [simp]:
  "digits_value n (c # cs) = digits_value (n * 10 + digit_val c) cs"
  by (simp add: digits_value_def)

lemma digits_value_append [simp]:
  "digits_value n (xs @ ys) = digits_value (digits_value n xs) ys"
  by (simp add: digits_value_def)

lemma of_char_digit_char:
  assumes "n < (10::nat)"
  shows "(of_char (char_of (48 + n)) :: nat) = 48 + n"
  using assms by (simp add: of_char_of)

lemma is_digit_digit_char [simp]: "n < (10::nat) \<Longrightarrow> is_digit (char_of (48 + n))"
  by (simp add: is_digit_def of_char_digit_char)

lemma digit_val_digit_char [simp]: "n < (10::nat) \<Longrightarrow> digit_val (char_of (48 + n)) = n"
  by (simp add: digit_val_def of_char_digit_char)

lemma digit_val_less: "is_digit c \<Longrightarrow> digit_val c < 10"
  unfolding is_digit_def digit_val_def by linarith

lemma is_digit_not_sign [simp]:
  "\<not> is_digit (CHR ''-'')" "\<not> is_digit (CHR ''+'')" "\<not> is_digit (CHR ''.'')"
  "\<not> is_digit (CHR '','')"
  by (simp_all add: is_digit_def)

lemma ten_pow_mono: "k \<le> m \<Longrightarrow> (10::nat) ^ k \<le> 10 ^ m"
  by (rule power_increasing) simp_all

lemma mult_le_of_le_div: "x \<le> n div k \<Longrightarrow> x * k \<le> (n::nat)"
  using mult_le_mono1 [of x "n div k" k] div_times_less_eq_dividend [of n k] by linarith

lemma digits_value_zeros: "digits_value n (replicate k CHR ''0'') = n * 10 ^ k"
  by (induction k arbitrary: n) (simp_all add: digit_val_def)

lemma digits_value_ge: "n * 10 ^ length cs \<le> digits_value n cs"
proof (induction cs arbitrary: n)
  case Nil
  then show ?case by simp
next
  case (Cons c cs)
  have "n * 10 ^ length (c # cs) \<le> (n * 10 + digit_val c) * 10 ^ length cs"
    by (simp add: algebra_simps)
  also have "\<dots> \<le> digits_value (n * 10 + digit_val c) cs"
    by (rule Cons.IH)
  finally show ?case by simp
qed

lemma digits_value_ge_self: "n \<le> digits_value n cs"
proof (induction cs arbitrary: n)
  case Nil
  then show ?case by simp
next
  case (Cons c cs)
  have "n \<le> n * 10 + digit_val c" by simp
  also have "\<dots> \<le> digits_value (n * 10 + digit_val c) cs" by (rule Cons.IH)
  finally show ?case by simp
qed

lemma digits_value_less:
  "\<forall>c \<in> set cs. is_digit c \<Longrightarrow> digits_value n cs < (n + 1) * 10 ^ length cs"
proof (induction cs arbitrary: n)
  case Nil
  then show ?case by simp
next
  case (Cons c cs)
  then have d: "digit_val c < 10" by (simp add: digit_val_less)
  from Cons have "digits_value (n * 10 + digit_val c) cs
      < (n * 10 + digit_val c + 1) * 10 ^ length cs" by simp
  also have "\<dots> \<le> (n + 1) * 10 * 10 ^ length cs"
    using d by (intro mult_right_mono) simp_all
  also have "\<dots> = (n + 1) * 10 ^ length (c # cs)"
    by (simp add: algebra_simps)
  finally show ?case by simp
qed

lemma digits_value_mono: "n \<le> m \<Longrightarrow> digits_value n cs \<le> digits_value m cs"
  by (induction cs arbitrary: n m) simp_all

lemma nat_digits_all_digits: "\<forall>c \<in> set (nat_digits n). is_digit c"
  by (induction n rule: nat_digits.induct) (subst nat_digits.simps, simp)

lemma nat_digits_hd_digit: "nat_digits n = c # cs \<Longrightarrow> is_digit c"
  using nat_digits_all_digits [of n] by auto

lemma nat_digits_not_Nil [simp]: "nat_digits n \<noteq> []"
  by (subst nat_digits.simps) simp

lemma nat_digits_value [simp]: "digits_value 0 (nat_digits n) = n"
proof (induction n rule: nat_digits.induct)
  case (1 n)
  show ?case
  proof (cases "n < 10")
    case True
    then show ?thesis by (subst nat_digits.simps) simp
  next
    case False
    with "1.IH" have "digits_value 0 (nat_digits (n div 10)) = n div 10" by simp
    with False show ?thesis by (subst nat_digits.simps) simp
  qed
qed

end
