(* ===== verification/GoErrors.thy ===== *)
theory GoErrors
  imports GoPrelude
begin

text \<open>
  Go's \<open>error\<close> interface as the model sees it. Both packages of the repository
  declare their error values with \<open>errors.New\<close>, which allocates a fresh value; two
  such values are equal only if they are the same variable. A variable is identified
  here by its package and its message (the messages within one package are distinct).
  The library errors that reach the program are \<open>*strconv.NumError\<close> (from
  \<open>strconv.Atoi\<close>) and the \<open>errors.New\<close> values of \<open>time.ParseDuration\<close>, whose
  message names the kind of failure and quotes the input. Every function of the model
  that can fail returns \<open>go_error + 'a\<close>, \<open>Inl\<close> being Go's non-nil \<open>err\<close>.
\<close>

datatype go_pkg = PkgDaysteps | PkgSpentcalories

text \<open>\<open>strconv.ErrSyntax\<close> and \<open>strconv.ErrRange\<close>, the causes a \<open>NumError\<close> wraps.\<close>

datatype num_err = ErrSyntax | ErrRange

text \<open>
  The three messages of \<open>time.ParseDuration\<close>: \<open>time: invalid duration "s"\<close>,
  \<open>time: missing unit in duration "s"\<close> and
  \<open>time: unknown unit "u" in duration "s"\<close>.
\<close>

datatype dur_err = InvalidDuration | MissingUnit | UnknownUnit go_string

datatype go_error =
    ErrorsNew go_pkg go_string
    \<comment> \<open>a package variable \<open>errors.New(msg)\<close>\<close>
  | NumError go_string go_string num_err
    \<comment> \<open>\<open>&strconv.NumError{Func, Num, Err}\<close>\<close>
  | DurationError dur_err go_string
    \<comment> \<open>an error of \<open>time.ParseDuration\<close> on the quoted input\<close>

type_synonym 'a result = "go_error + 'a"

end
