(* ===== verification/GoFloat.thy ===== *)
theory GoFloat
  imports GoPrelude
begin

text \<open>
  The \<open>float64\<close> arithmetic of the one line of \<open>time.ParseDuration\<close> that uses it,
  \<^verbatim>\<open>v += uint64(float64(f) * (float64(unit) / scale))\<close>.
  A finite positive binary64 value is a significand and an exponent, \<open>m * 2^e\<close>; every
  operation rounds its exact result to a 53-bit significand, to nearest with ties to even
  (IEEE 754's default mode, which Go uses). The exponent is left unbounded: this line
  meets no subnormal, and where its scale would overflow to infinity the truncated
  result is 0 in Go and in the model alike (the root theory's Bounds). Rounding is computed in integer arithmetic, so it evaluates
  by \<open>simp\<close>. \<open>f64_round_err\<close> bounds its relative error by \<open>2^-53\<close>, and
  \<open>f64_fraction_close\<close> shows that the whole line is within one nanosecond of the exact
  floor of \<open>f * unit / scale\<close> whenever the scale is exact, which it is for up to 22
  fraction digits (\<open>f64_scale_step\<close>).
\<close>

type_synonym f64 = "nat \<times> int"

text \<open>The number of bits of a natural number, \<open>\<lfloor>log2 n\<rfloor> + 1\<close> for positive \<open>n\<close>.\<close>

fun bit_length :: "nat \<Rightarrow> nat" where
  "bit_length n = (if n = 0 then 0 else Suc (bit_length (n div 2)))"

declare bit_length.simps [simp del]

text \<open>The exact value \<open>a / b * 2^k\<close> as a fraction of natural numbers.\<close>

definition rat_shift :: "nat \<Rightarrow> nat \<Rightarrow> int \<Rightarrow> nat \<times> nat" where
  "rat_shift a b k = (if 0 \<le> k then (a * 2 ^ nat k, b) else (a, b * 2 ^ nat (- k)))"

text \<open>
  \<open>f64_round a b e\<close> is the binary64 value nearest to \<open>a / b * 2^e\<close>, ties to even:
  the exponent \<open>-k\<close> is chosen so that \<open>a / b * 2^(e + k)\<close> lies in
  \<open>[2^52, 2^53)\<close>, and that quotient is rounded to an integer.
\<close>

definition f64_round :: "nat \<Rightarrow> nat \<Rightarrow> int \<Rightarrow> f64" where
  "f64_round a b e =
     (let k0 = 53 - int (bit_length a) + int (bit_length b) - e;
          k = (case rat_shift a b (e + k0) of (p, q) \<Rightarrow> if 2 ^ 53 \<le> p div q then k0 - 1 else k0)
      in case rat_shift a b (e + k) of
           (p, q) \<Rightarrow>
             let m = p div q; r = p mod q
             in (if q < 2 * r \<or> (2 * r = q \<and> odd m) then m + 1 else m, - k))"

text \<open>
  \<open>uint64(float64(f) * (float64(unit) / scale))\<close>: two conversions, a division and a
  product, each rounded, then the conversion to \<open>uint64\<close>, which truncates the
  nonnegative product towards zero. The \<open>scale\<close> is the \<open>float64\<close> that
  \<open>leadingFraction\<close> computes by \<open>scale *= 10\<close>; \<open>float64(unit)\<close> divided by it
  is the quotient of the two significands scaled by the difference of the exponents.
\<close>

definition f64_fraction :: "nat \<Rightarrow> nat \<Rightarrow> f64 \<Rightarrow> nat" where
  "f64_fraction f unit scale =
     (case f64_round f 1 0 of
        (mx, ex) \<Rightarrow>
          case f64_round unit 1 0 of
            (mu, eu) \<Rightarrow>
              case scale of
                (ms, es) \<Rightarrow>
                  case f64_round mu ms (eu - es) of
                    (my, ey) \<Rightarrow>
                      case f64_round (mx * my) 1 (ex + ey) of
                        (mz, ez) \<Rightarrow> case rat_shift mz 1 ez of (p, q) \<Rightarrow> p div q)"

text \<open>The real number a binary64 value stands for, and the exact value a rounding rounds.\<close>

definition f64_val :: "f64 \<Rightarrow> real" where
  "f64_val x = real (fst x) * 2 powr real_of_int (snd x)"

definition f64_exact :: "nat \<Rightarrow> nat \<Rightarrow> int \<Rightarrow> real" where
  "f64_exact a b e = real a / real b * 2 powr real_of_int e"

subsection \<open>Evaluation\<close>

lemma bit_length_numeral [go_eval]: "bit_length (numeral k) = Suc (bit_length (numeral k div 2))"
  by (subst bit_length.simps) simp

lemma bit_length_0 [go_eval]: "bit_length 0 = 0"
  by (simp add: bit_length.simps)

lemma bit_length_1 [go_eval]: "bit_length (Suc 0) = 1"
  by (simp add: bit_length.simps)

lemmas f64_defs [go_eval] = f64_round_def rat_shift_def f64_fraction_def

subsection \<open>Rounding\<close>

lemma bit_length_bounds:
  "0 < n \<Longrightarrow> 2 ^ (bit_length n - 1) \<le> n \<and> n < 2 ^ bit_length n"
proof (induction n rule: bit_length.induct)
  case (1 n)
  have bl: "bit_length n = Suc (bit_length (n div 2))"
    using 1(2) by (subst bit_length.simps) simp
  show ?case
  proof (cases "n div 2 = 0")
    case True
    then have "n = 1" using 1(2) by auto
    then show ?thesis by (simp add: bit_length.simps)
  next
    case False
    with 1 have IH: "2 ^ (bit_length (n div 2) - 1) \<le> n div 2 \<and> n div 2 < 2 ^ bit_length (n div 2)"
      by simp
    then have pos: "0 < bit_length (n div 2)" using False by (cases "bit_length (n div 2)") auto
    have "2 ^ (bit_length n - 1) = 2 * 2 ^ (bit_length (n div 2) - 1)"
      using pos bl by (cases "bit_length (n div 2)") auto
    also have "\<dots> \<le> n" using IH by linarith
    finally have lo: "2 ^ (bit_length n - 1) \<le> n" .
    have "n < 2 * 2 ^ bit_length (n div 2)" using IH by linarith
    then show ?thesis using lo bl by simp
  qed
qed

lemma rat_shift_real:
  assumes "0 < b" and "rat_shift a b k = (p, q)"
  shows "0 < q \<and> real p / real q = real a / real b * 2 powr real_of_int k"
proof (cases "0 \<le> k")
  case True
  then have e: "real (nat k) = real_of_int k" by simp
  have "2 powr real_of_int k = 2 ^ nat k"
    using powr_realpow [of 2 "nat k"] unfolding e by simp
  with True assms show ?thesis by (auto simp: rat_shift_def)
next
  case False
  then have e: "real (nat (- k)) = real_of_int (- k)" by simp
  have "2 powr real_of_int (- k) = 2 ^ nat (- k)"
    using powr_realpow [of 2 "nat (- k)"] unfolding e by simp
  moreover have "2 powr real_of_int k = 1 / 2 powr real_of_int (- k)"
    using powr_minus_divide [of 2 "real_of_int (- k)"] by simp
  ultimately have "2 powr real_of_int k = 1 / 2 ^ nat (- k)" by simp
  with False assms show ?thesis by (auto simp: rat_shift_def)
qed


lemma powr_shift:
  assumes "real_of_int t + real m = real n"
  shows "2 powr real_of_int t * 2 ^ m = (2 ^ n :: real)"
proof -
  have "2 powr real_of_int t * 2 ^ m = 2 powr (real_of_int t + real m)"
    by (simp add: powr_add powr_realpow)
  also have "\<dots> = 2 ^ n" unfolding assms by (simp add: powr_realpow)
  finally show ?thesis .
qed

lemma rat_shift_window:
  assumes a: "0 < a" and b: "0 < b"
    and t: "t = 53 - int (bit_length a) + int (bit_length b)"
    and pq: "rat_shift a b t = (p, q)"
  shows "2 ^ 52 < real p / real q \<and> real p / real q < 2 ^ 54"
proof -
  define la lb where "la = bit_length a" and "lb = bit_length b"
  have ba: "2 ^ (la - 1) \<le> a" "a < 2 ^ la" using bit_length_bounds [OF a] la_def lb_def by auto
  have bb: "2 ^ (lb - 1) \<le> b" "b < 2 ^ lb" using bit_length_bounds [OF b] la_def lb_def by auto
  have la1: "1 \<le> la" using ba(2) a by (cases la) auto
  have lb1: "1 \<le> lb" using bb(2) b by (cases lb) auto
  define P where "P = 2 powr real_of_int t"
  have P: "0 < P" by (simp add: P_def)
  have e1: "P * 2 ^ (la - 1) = 2 ^ (52 + lb)"
    unfolding P_def using la1 by (intro powr_shift) (simp add: t la_def lb_def of_nat_diff)
  have e2: "P * 2 ^ la = 2 ^ (54 + (lb - 1))"
    unfolding P_def using lb1 by (intro powr_shift) (simp add: t la_def lb_def of_nat_diff)
  have x: "real p / real q = real a / real b * P"
    using rat_shift_real [OF b pq] by (simp add: P_def)
  have "real (2 ^ (la - 1)) \<le> real a" "real a < real (2 ^ la :: nat)"
    using ba by (simp_all only: of_nat_le_iff of_nat_less_iff)
  then have ra: "2 ^ (la - 1) \<le> real a" "real a < 2 ^ la" by simp_all
  have "real (2 ^ (lb - 1)) \<le> real b" "real b < real (2 ^ lb :: nat)"
    using bb by (simp_all only: of_nat_le_iff of_nat_less_iff)
  then have rb: "2 ^ (lb - 1) \<le> real b" "real b < 2 ^ lb" by simp_all
  have "2 ^ 52 * real b < 2 ^ 52 * 2 ^ lb" using rb(2) by simp
  also have "\<dots> = P * 2 ^ (la - 1)" using e1 by (simp add: power_add)
  also have "\<dots> \<le> P * real a" using ra(1) P by simp
  finally have lo: "2 ^ 52 * real b < real a * P" by (simp add: mult.commute)
  have "real a * P < 2 ^ la * P" using ra(2) P by simp
  also have "\<dots> = 2 ^ 54 * 2 ^ (lb - 1)" using e2 by (simp add: power_add mult.commute)
  also have "\<dots> \<le> 2 ^ 54 * real b" using rb(1) by simp
  finally have hi: "real a * P < 2 ^ 54 * real b" .
  have rb0: "0 < real b" using b by simp
  show ?thesis using lo hi rb0 unfolding x by (simp add: field_simps)
qed


lemma powr2_Suc: "2 powr real_of_int (k + 1) = 2 * 2 powr real_of_int k"
  by (simp add: powr_add)

lemma f64_round_normal:
  assumes a: "0 < a" and b: "0 < b"
  obtains k p q where "rat_shift a b (e + k) = (p, q)"
    and "2 ^ 52 \<le> real p / real q" and "real p / real q < 2 ^ 53"
    and "f64_round a b e =
           (let m = p div q; r = p mod q
            in (if q < 2 * r \<or> (2 * r = q \<and> odd m) then m + 1 else m, - k))"
proof -
  define k0 where "k0 = 53 - int (bit_length a) + int (bit_length b) - e"
  obtain p0 q0 where pq0: "rat_shift a b (e + k0) = (p0, q0)" by fastforce
  have w: "2 ^ 52 < real p0 / real q0 \<and> real p0 / real q0 < 2 ^ 54"
    using rat_shift_window [OF a b _ pq0] by (simp add: k0_def)
  have x0: "0 < q0 \<and> real p0 / real q0 = real a / real b * 2 powr real_of_int (e + k0)"
    using rat_shift_real [OF b pq0] .
  have def: "f64_round a b e =
      (let k = (if 2 ^ 53 \<le> p0 div q0 then k0 - 1 else k0)
       in case rat_shift a b (e + k) of
           (p, q) \<Rightarrow> let m = p div q; r = p mod q
             in (if q < 2 * r \<or> (2 * r = q \<and> odd m) then m + 1 else m, - k))"
    unfolding f64_round_def k0_def [symmetric] Let_def pq0 by simp
  show ?thesis
  proof (cases "2 ^ 53 \<le> p0 div q0")
    case True
    obtain p q where pq: "rat_shift a b (e + (k0 - 1)) = (p, q)" by fastforce
    have x: "0 < q \<and> real p / real q = real a / real b * 2 powr real_of_int (e + (k0 - 1))"
      using rat_shift_real [OF b pq] .
    have "2 powr real_of_int (e + k0) = 2 * 2 powr real_of_int (e + (k0 - 1))"
      using powr2_Suc [of "e + (k0 - 1)"] by simp
    then have half: "real p / real q = real p0 / real q0 / 2" using x x0 by simp
    have "real (2 ^ 53 :: nat) \<le> real (p0 div q0)" using True by (simp only: of_nat_le_iff)
    also have "\<dots> \<le> real p0 / real q0" by (simp add: of_nat_div_le_of_nat)
    finally have "2 ^ 53 \<le> real p0 / real q0" by simp
    then show ?thesis using that [OF pq] half w True def by (simp add: Let_def pq)
  next
    case False
    have q0: "0 < q0" using x0 by simp
    from False have "p0 div q0 < 2 ^ 53" by simp
    then have "p0 < 2 ^ 53 * q0" using q0 by (simp add: div_less_iff_less_mult)
    then have "real p0 < 2 ^ 53 * real q0" by (metis of_nat_less_iff of_nat_mult of_nat_numeral of_nat_power)
    then have "real p0 / real q0 < 2 ^ 53" using q0 by (simp add: pos_divide_less_eq)
    then show ?thesis using that [OF pq0] w False def by (simp add: Let_def pq0)
  qed
qed


lemma round_nearest_even_err:
  assumes "0 < q"
  shows "\<bar>real (let m = p div q; r = p mod q
                in if q < 2 * r \<or> (2 * r = q \<and> odd m) then m + 1 else m)
          - real p / real q\<bar> \<le> 1 / 2"
proof -
  have p: "real p / real q = real (p div q) + real (p mod q) / real q"
    by (rule of_nat_of_nat_div_aux)
  have r: "p mod q < q" using assms by simp
  have q: "0 < real q" using assms by simp
  show ?thesis
  proof (cases "q < 2 * (p mod q) \<or> (2 * (p mod q) = q \<and> odd (p div q))")
    case True
    then have "real q \<le> 2 * real (p mod q)" by linarith
    then have "1 / 2 \<le> real (p mod q) / real q" using q by (simp add: field_simps)
    moreover have "real (p mod q) / real q < 1" using r q by simp
    moreover have "(let m = p div q; r = p mod q
                    in if q < 2 * r \<or> (2 * r = q \<and> odd m) then m + 1 else m) = p div q + 1"
      using True by (simp add: Let_def)
    ultimately show ?thesis unfolding p by simp
  next
    case False
    then have "2 * real (p mod q) \<le> real q" by linarith
    then have "real (p mod q) / real q \<le> 1 / 2" using q by (simp add: field_simps)
    moreover have "(let m = p div q; r = p mod q
                    in if q < 2 * r \<or> (2 * r = q \<and> odd m) then m + 1 else m) = p div q"
      using False by (simp add: Let_def)
    ultimately show ?thesis unfolding p by simp
  qed
qed

lemma f64_round_err:
  assumes b: "0 < b"
  shows "\<bar>f64_val (f64_round a b e) - f64_exact a b e\<bar> \<le> f64_exact a b e / 2 ^ 53"
proof (cases "a = 0")
  case True
  then show ?thesis
    by (simp add: f64_round_def rat_shift_def f64_val_def f64_exact_def Let_def)
next
  case False
  then obtain k p q where pq: "rat_shift a b (e + k) = (p, q)"
    and lo: "2 ^ 52 \<le> real p / real q" and hi: "real p / real q < 2 ^ 53"
    and r: "f64_round a b e =
           (let m = p div q; r = p mod q
            in (if q < 2 * r \<or> (2 * r = q \<and> odd m) then m + 1 else m, - k))"
    using f64_round_normal [OF _ b, of a e] by blast
  define X where "X = real p / real q"
  define D where "D = 2 powr real_of_int (- k)"
  define m where "m = (let m = p div q; r = p mod q
                       in if q < 2 * r \<or> (2 * r = q \<and> odd m) then m + 1 else m)"
  have x: "0 < q \<and> X = real a / real b * 2 powr real_of_int (e + k)"
    using rat_shift_real [OF b pq] by (simp add: X_def)
  have val: "f64_val (f64_round a b e) = real m * D"
    by (simp add: r f64_val_def m_def D_def Let_def)
  have ex: "f64_exact a b e = X * D"
    using x by (simp add: f64_exact_def D_def powr_add [symmetric])
  have err: "\<bar>real m - X\<bar> \<le> 1 / 2"
    using round_nearest_even_err [of q p] x by (simp add: m_def X_def)
  also have "\<dots> \<le> X / 2 ^ 53" using lo by (simp add: X_def)
  finally have "\<bar>real m - X\<bar> * D \<le> X / 2 ^ 53 * D"
    by (simp add: D_def)
  then show ?thesis
    by (simp add: val ex abs_mult D_def left_diff_distrib [symmetric])
qed


text \<open>A natural number below \<open>2^53\<close> converts to \<open>float64\<close> exactly.\<close>

lemma f64_round_nat_exact:
  assumes n: "n < 2 ^ 53"
  shows "f64_val (f64_round n 1 0) = real n"
proof (cases "n = 0")
  case True
  then show ?thesis by (simp add: f64_round_def rat_shift_def f64_val_def Let_def)
next
  case False
  then have n0: "0 < n" by simp
  obtain k p q where pq: "rat_shift n 1 (0 + k) = (p, q)"
    and lo: "2 ^ 52 \<le> real p / real q" and "real p / real q < 2 ^ 53"
    and r: "f64_round n 1 0 =
           (let m = p div q; r = p mod q
            in (if q < 2 * r \<or> (2 * r = q \<and> odd m) then m + 1 else m, - k))"
    by (rule f64_round_normal [OF n0 zero_less_one])
  have rn: "real n < 2 ^ 53" using n by (metis of_nat_less_iff of_nat_numeral of_nat_power)
  have k: "0 \<le> k"
  proof (rule ccontr)
    assume "\<not> 0 \<le> k"
    then have j: "1 \<le> nat (- k)" and pq': "p = n" "q = 2 ^ nat (- k)"
      using pq by (auto simp: rat_shift_def)
    have "(2::real) ^ 1 \<le> 2 ^ nat (- k)" using j by (intro power_increasing) simp_all
    then have "real n / 2 ^ nat (- k) \<le> real n / 2" by (intro divide_left_mono) simp_all
    then have "real p / real q \<le> real n / 2" using pq' by simp
    with lo rn show False by simp
  qed
  then have "p = n * 2 ^ nat k" "q = 1" using pq by (simp_all add: rat_shift_def)
  then have "f64_round n 1 0 = (n * 2 ^ nat k, - k)" unfolding r by (simp add: Let_def)
  moreover have "2 ^ nat k * 2 powr real_of_int (- k) = (1::real)"
    using k by (simp add: powr_minus powr_realpow [symmetric])
  ultimately show ?thesis by (simp add: f64_val_def)
qed

text \<open>The truncation of a value to a natural number is the floor of the real it stands for.\<close>

lemma rat_shift_floor:
  "rat_shift m 1 e = (p, q) \<Longrightarrow> p div q = nat \<lfloor>f64_val (m, e)\<rfloor>"
proof -
  assume pq: "rat_shift m 1 e = (p, q)"
  have "0 < q \<and> real p / real q = f64_val (m, e)"
    using rat_shift_real [OF _ pq] by (simp add: f64_val_def)
  then have "\<lfloor>f64_val (m, e)\<rfloor> = int (p div q)"
    by (metis floor_divide_of_nat_eq of_int_of_nat_eq)
  then show ?thesis by simp
qed

lemma three_roundings_err:
  fixes x y X Y Z d :: real
  assumes x: "0 \<le> x" and y: "0 \<le> y" and d: "0 \<le> d" "d \<le> 1"
    and eX: "\<bar>X - x\<bar> \<le> x * d" and eY: "\<bar>Y - y\<bar> \<le> y * d"
    and eZ: "\<bar>Z - X * Y\<bar> \<le> X * Y * d"
  shows "\<bar>Z - x * y\<bar> \<le> 7 * (x * y) * d"
proof -
  have xd: "x * d \<le> x" and yd: "y * d \<le> y"
    using x y d by (simp_all add: mult_left_le)
  have X0: "0 \<le> X" and X2: "X \<le> 2 * x" using eX xd by linarith+
  have Y0: "0 \<le> Y" and Y2: "Y \<le> 2 * y" using eY yd by linarith+
  have "X * Y \<le> (2 * x) * (2 * y)" using X0 Y0 X2 Y2 by (intro mult_mono) simp_all
  then have "X * Y * d \<le> 4 * (x * y) * d" using d by (simp add: mult_right_mono)
  with eZ have z: "\<bar>Z - X * Y\<bar> \<le> 4 * (x * y) * d" by linarith
  have "\<bar>X * Y - x * y\<bar> = \<bar>X * (Y - y) + y * (X - x)\<bar>" by (simp add: algebra_simps)
  also have "\<dots> \<le> X * \<bar>Y - y\<bar> + y * \<bar>X - x\<bar>"
    using X0 y by (simp add: abs_mult abs_triangle_ineq [THEN order_trans])
  also have "\<dots> \<le> (2 * x) * (y * d) + y * (x * d)"
    using X0 X2 y eX eY by (intro add_mono mult_mono) simp_all
  finally have "\<bar>X * Y - x * y\<bar> \<le> 3 * (x * y) * d" by (simp add: algebra_simps)
  with z show ?thesis by linarith
qed

lemma f64_val_nonneg: "0 \<le> f64_val x"
  by (simp add: f64_val_def)

lemma f64_fraction_close:
  assumes s: "f64_val sv = real scale" and sc: "0 < scale" and f: "f < scale"
    and u: "unit \<le> 2 ^ 42"
  shows "\<bar>int (f64_fraction f unit sv) - \<lfloor>real f * real unit / real scale\<rfloor>\<bar> \<le> 1"
proof -
  define x' where "x' = f64_round f 1 0"
  define u' where "u' = f64_round unit 1 0"
  define y' where "y' = f64_round (fst u') (fst sv) (snd u' - snd sv)"
  define z' where "z' = f64_round (fst x' * fst y') 1 (snd x' + snd y')"
  define d :: real where "d = 1 / 2 ^ 53"
  have ru: "real unit \<le> 2 ^ 42" using u by (metis of_nat_le_iff of_nat_numeral of_nat_power)
  have "unit < 2 ^ 53" using u by simp
  then have uv: "f64_val u' = real unit" unfolding u'_def by (rule f64_round_nat_exact)
  have eX: "\<bar>f64_val x' - real f\<bar> \<le> real f * d"
    using f64_round_err [of 1 f 0] by (simp add: x'_def f64_exact_def d_def)
  have ms: "0 < fst sv" using s sc by (cases "fst sv") (auto simp: f64_val_def)
  have "f64_exact (fst u') (fst sv) (snd u' - snd sv) = f64_val u' / f64_val sv"
    by (simp add: f64_exact_def f64_val_def powr_diff)
  then have ue: "f64_exact (fst u') (fst sv) (snd u' - snd sv) = real unit / real scale"
    using uv s by simp
  have eY: "\<bar>f64_val y' - real unit / real scale\<bar> \<le> real unit / real scale * d"
    using f64_round_err [OF ms, of "fst u'" "snd u' - snd sv"] by (simp add: y'_def ue d_def)
  have xy: "f64_exact (fst x' * fst y') 1 (snd x' + snd y') = f64_val x' * f64_val y'"
    by (simp add: f64_exact_def f64_val_def powr_add)
  have "\<bar>f64_val z' - f64_exact (fst x' * fst y') 1 (snd x' + snd y')\<bar>
        \<le> f64_exact (fst x' * fst y') 1 (snd x' + snd y') / 2 ^ 53"
    unfolding z'_def by (rule f64_round_err) simp
  then have eZ: "\<bar>f64_val z' - f64_val x' * f64_val y'\<bar> \<le> f64_val x' * f64_val y' * d"
    unfolding xy by (simp add: d_def)
  have e: "\<bar>f64_val z' - real f * (real unit / real scale)\<bar>
           \<le> 7 * (real f * (real unit / real scale)) * d"
    by (rule three_roundings_err [OF _ _ _ _ eX eY eZ]) (simp_all add: d_def)
  have "real f * (real unit / real scale) \<le> real unit"
    using f sc by (simp add: field_simps mult_right_mono)
  also have "\<dots> \<le> 2 ^ 42" by (rule ru)
  finally have "7 * (real f * (real unit / real scale)) * d < 1"
    by (simp add: d_def)
  with e have close: "\<bar>f64_val z' - real f * real unit / real scale\<bar> < 1" by simp
  obtain p q where pq: "rat_shift (fst z') 1 (snd z') = (p, q)" by fastforce
  have "f64_fraction f unit sv = (case rat_shift (fst z') 1 (snd z') of (p, q) \<Rightarrow> p div q)"
    by (simp only: f64_fraction_def prod.case_eq_if x'_def u'_def y'_def z'_def)
  then have "f64_fraction f unit sv = p div q" using pq by simp
  then have fr: "int (f64_fraction f unit sv) = \<lfloor>f64_val z'\<rfloor>"
    using rat_shift_floor [of "fst z'" "snd z'"] pq f64_val_nonneg [of z'] by simp
  show ?thesis unfolding fr using close by linarith
qed

text \<open>A zero fraction contributes nothing, and a fraction below one contributes at most
  one unit.\<close>

lemma f64_round_zero: "fst (f64_round 0 b e) = 0"
  by (simp add: f64_round_def rat_shift_def Let_def)

lemma f64_fraction_zero: "f64_fraction 0 unit sv = 0"
  using f64_round_zero [of 1 0]
  by (simp add: f64_fraction_def prod.case_eq_if f64_round_zero rat_shift_def)

lemma f64_fraction_le:
  assumes "f64_val sv = real scale" and "0 < scale" and "f < scale" and "unit \<le> 2 ^ 42"
    and "0 < unit"
  shows "f64_fraction f unit sv \<le> unit"
proof -
  have sc: "0 < real scale" using assms(2) by simp
  have "real f * real unit < real scale * real unit"
    using assms(3,5) by (simp add: mult_strict_right_mono)
  then have "real f * real unit / real scale < real unit"
    using sc by (simp add: pos_divide_less_eq mult.commute)
  then have "\<lfloor>real f * real unit / real scale\<rfloor> < int unit"
    by (simp add: floor_less_iff)
  then show ?thesis using f64_fraction_close [OF assms(1-4)] by linarith
qed

text \<open>
  A value equal to \<open>n * 2^j\<close> with \<open>n < 2^53\<close> is representable, and rounding it
  gives it back. Powers of ten up to \<open>10^22 = 5^22 * 2^22\<close> are such values, so the
  \<open>scale *= 10\<close> of \<open>leadingFraction\<close> is exact for the first 22 digits.
\<close>

lemma f64_round_representable:
  assumes b: "0 < b" and ex: "f64_exact a b e = real n * 2 powr real_of_int j"
    and n: "n < 2 ^ 53"
  shows "f64_val (f64_round a b e) = f64_exact a b e"
proof (cases "a = 0")
  case True
  then show ?thesis by (simp add: f64_round_def rat_shift_def f64_val_def f64_exact_def Let_def)
next
  case False
  then have a0: "0 < a" by simp
  obtain k p q where pq: "rat_shift a b (e + k) = (p, q)"
    and lo: "2 ^ 52 \<le> real p / real q" and "real p / real q < 2 ^ 53"
    and r: "f64_round a b e =
           (let m = p div q; r = p mod q
            in (if q < 2 * r \<or> (2 * r = q \<and> odd m) then m + 1 else m, - k))"
    by (rule f64_round_normal [OF a0 b])
  have x: "0 < q \<and> real p / real q = real a / real b * 2 powr real_of_int (e + k)"
    using rat_shift_real [OF b pq] .
  have "real p / real q = real a / real b * 2 powr real_of_int e * 2 powr real_of_int k"
    using x by (simp add: powr_add)
  also have "\<dots> = real n * 2 powr real_of_int j * 2 powr real_of_int k"
    using ex by (simp add: f64_exact_def)
  also have "\<dots> = real n * 2 powr real_of_int (j + k)" by (simp add: powr_add)
  finally have X: "real p / real q = real n * 2 powr real_of_int (j + k)" .
  have rn: "real n < 2 ^ 53" using n by (metis of_nat_less_iff of_nat_numeral of_nat_power)
  have jk: "0 \<le> j + k"
  proof (rule ccontr)
    assume "\<not> 0 \<le> j + k"
    then have "2 powr real_of_int (j + k) \<le> 2 powr (- 1)" by (intro powr_mono) simp_all
    then have "real n * 2 powr real_of_int (j + k) \<le> real n * (1 / 2)"
      by (intro mult_left_mono) (simp_all add: powr_minus_divide)
    with X lo rn show False by simp
  qed
  define N where "N = n * 2 ^ nat (j + k)"
  have "2 powr real_of_int (j + k) = 2 ^ nat (j + k)"
    using jk by (simp add: powr_realpow [symmetric])
  then have pN: "real p / real q = real N" using X by (simp add: N_def)
  have q0: "0 < real q" using x by simp
  from pN have "real p = real N * real q" using q0 by (simp add: divide_eq_eq)
  then have "real p = real (N * q)" by simp
  then have "p = N * q" by (simp only: of_nat_eq_iff)
  then have "f64_round a b e = (N, - k)" using x by (simp add: r Let_def)
  moreover have "f64_exact a b e
      = real a / real b * 2 powr real_of_int (e + k) * 2 powr real_of_int (- k)"
    by (simp add: f64_exact_def mult.assoc powr_add [symmetric])
  then have "f64_exact a b e = real N * 2 powr real_of_int (- k)" using x pN by simp
  ultimately show ?thesis by (simp add: f64_val_def)
qed

lemma f64_scale_step:
  assumes sv: "f64_val sv = 10 ^ k" and k: "k < 22"
  shows "f64_val (f64_round (fst sv * 10) 1 (snd sv)) = 10 ^ Suc k"
proof -
  have "f64_exact (fst sv * 10) 1 (snd sv) = 10 * f64_val sv"
    by (simp add: f64_exact_def f64_val_def)
  also have "\<dots> = (5 * 2) ^ Suc k" using sv by simp
  also have "\<dots> = real (5 ^ Suc k) * 2 ^ Suc k" unfolding power_mult_distrib by simp
  also have "(2::real) ^ Suc k = 2 powr real_of_int (int (Suc k))"
    by (simp only: of_int_of_nat_eq powr_realpow zero_less_numeral)
  finally have e: "f64_exact (fst sv * 10) 1 (snd sv) = real (5 ^ Suc k) * 2 powr real_of_int (int (Suc k))" .
  have "(5::nat) ^ Suc k \<le> 5 ^ 22" using k by (intro power_increasing) simp_all
  then have "(5::nat) ^ Suc k < 2 ^ 53" by simp
  then have "f64_val (f64_round (fst sv * 10) 1 (snd sv)) = f64_exact (fst sv * 10) 1 (snd sv)"
    by (intro f64_round_representable [OF _ e]) simp
  then show ?thesis using sv by (simp add: f64_exact_def f64_val_def)
qed

end
