(* ===== verification/GoTime.thy ===== *)
theory GoTime
  imports GoErrors GoFloat
begin

text \<open>
  The part of Go's \<open>time\<close> package the program uses: the \<open>Duration\<close> unit constants,
  the accessors \<open>Duration.Hours\<close> and \<open>Duration.Minutes\<close>, and \<open>time.ParseDuration\<close>,
  whose fraction term is the \<open>float64\<close> computation of \<open>GoFloat\<close>.
  A \<open>Duration\<close> is an \<open>int64\<close> number of nanoseconds. Go's integer \<open>/\<close> and
  \<open>%\<close> truncate towards zero, which is \<open>sdiv\<close> and \<open>smod\<close> of
  HOL-Library.Signed_Division, not HOL's \<open>div\<close> and \<open>mod\<close>.
\<close>

subsection \<open>Units and accessors\<close>

definition Nanosecond :: duration where "Nanosecond = 1"
definition Microsecond :: duration where "Microsecond = 1000 * Nanosecond"
definition Millisecond :: duration where "Millisecond = 1000 * Microsecond"
definition Second :: duration where "Second = 1000 * Millisecond"
definition Minute :: duration where "Minute = 60 * Second"
definition Hour :: duration where "Hour = 60 * Minute"

lemmas duration_units [go_consts] =
  Nanosecond_def Microsecond_def Millisecond_def Second_def Minute_def Hour_def

lemma Hour_value: "Hour = 3600000000000" and Minute_value: "Minute = 60000000000"
  by (simp_all add: duration_units)

text \<open>
  \<^verbatim>\<open>func (d Duration) Hours() float64 {
    hour := d / Hour; nsec := d % Hour
    return float64(hour) + float64(nsec)/(60*60*1e9) }\<close>
  The split into whole hours and a remainder keeps the conversion exact in floating
  point; with exact reals it is the plain quotient (\<open>duration_Hours_eq\<close>).
\<close>

definition duration_Hours :: "duration \<Rightarrow> float64" where
  "duration_Hours d =
     (let hour = d sdiv Hour; nsec = d smod Hour
      in real_of_int hour + real_of_int nsec / (60 * 60 * 1000000000))"

definition duration_Minutes :: "duration \<Rightarrow> float64" where
  "duration_Minutes d =
     (let m = d sdiv Minute; nsec = d smod Minute
      in real_of_int m + real_of_int nsec / (60 * 1000000000))"

subsection \<open>Helpers of ParseDuration\<close>

text \<open>
  \<open>leadingInt\<close> consumes the leading \<open>[0-9]*\<close> and fails (Go's \<open>errLeadingInt\<close>,
  never printed) once the value would pass \<open>1<<63\<close>; the checks are made before and
  after each step, on \<open>uint64\<close> values that cannot wrap under them.
\<close>

fun leadingInt :: "nat \<Rightarrow> go_string \<Rightarrow> (nat \<times> go_string) option" where
  "leadingInt x [] = Some (x, [])"
| "leadingInt x (c # cs) =
     (if \<not> is_digit c then Some (x, c # cs)
      else if 2 ^ 63 div 10 < x then None
      else let x' = x * 10 + digit_val c
           in if 2 ^ 63 < x' then None else leadingInt x' cs)"

text \<open>
  \<open>leadingFraction\<close> consumes the leading \<open>[0-9]*\<close> after a decimal point; on
  overflow it keeps consuming digits but stops accumulating precision. Its \<open>scale\<close> is a
  \<open>float64\<close>, multiplied by ten with rounding for every accumulated digit: leading
  zeros accumulate too, so it can grow past \<open>10^22\<close>, the last power of ten binary64
  holds exactly (\<open>f64_scale_step\<close>).
\<close>

fun leadingFraction :: "bool \<Rightarrow> nat \<Rightarrow> f64 \<Rightarrow> go_string \<Rightarrow> nat \<times> f64 \<times> go_string" where
  "leadingFraction ovf x scale [] = (x, scale, [])"
| "leadingFraction ovf x scale (c # cs) =
     (if \<not> is_digit c then (x, scale, c # cs)
      else if ovf then leadingFraction True x scale cs
      else if (2 ^ 63 - 1) div 10 < x then leadingFraction True x scale cs
      else let y = x * 10 + digit_val c
           in if 2 ^ 63 < y then leadingFraction True x scale cs
              else leadingFraction False y (f64_round (fst scale * 10) 1 (snd scale)) cs)"

text \<open>
  The optional fraction \<open>(\.[0-9]*)?\<close>: whether digits followed the point, the
  fraction's digits, its scale and the rest of the input.
\<close>

definition duration_fraction :: "go_string \<Rightarrow> bool \<times> nat \<times> f64 \<times> go_string" where
  "duration_fraction s =
     (case s of
        [] \<Rightarrow> (False, 0, (1, 0), [])
      | c # r \<Rightarrow>
          (if c = CHR ''.'' then
             (case leadingFraction False 0 (1, 0) r of
                (f, scale, rest) \<Rightarrow> (length rest \<noteq> length r, f, scale, rest))
           else (False, 0, (1, 0), s)))"

text \<open>A unit is the run of bytes up to the next \<open>'.'\<close> or digit.\<close>

definition unit_char :: "char \<Rightarrow> bool" where
  "unit_char c \<longleftrightarrow> \<not> (c = CHR ''.'' \<or> is_digit c)"

text \<open>\<open>unitMap\<close>, with both spellings of the micro sign in UTF-8 (U+00B5, U+03BC).\<close>

definition unitMap :: "go_string \<Rightarrow> nat option" where
  "unitMap u =
     (if u = ''ns'' then Some (nat Nanosecond)
      else if u = ''us'' then Some (nat Microsecond)
      else if u = [CHR 0xC2, CHR 0xB5, CHR ''s''] then Some (nat Microsecond)
      else if u = [CHR 0xCE, CHR 0xBC, CHR ''s''] then Some (nat Microsecond)
      else if u = ''ms'' then Some (nat Millisecond)
      else if u = ''s'' then Some (nat Second)
      else if u = ''m'' then Some (nat Minute)
      else if u = ''h'' then Some (nat Hour)
      else None)"

text \<open>
  One iteration of the loop of \<open>ParseDuration\<close>, up to \<open>d += v\<close>: the next byte
  must be \<open>[0-9.]\<close>, then the integer part, the fraction, at least one digit in one of
  them, a unit, the range check \<open>v > 1<<63/unit\<close>, and the fraction's contribution
  \<open>uint64(float64(f) * (float64(unit) / scale))\<close>, rounded as binary64 does it
  (\<open>f64_fraction\<close>), with its own check. The result is the component's value
  \<open>v\<close> and the rest of the input.
\<close>

definition duration_component :: "go_string \<Rightarrow> go_string \<Rightarrow> (nat \<times> go_string) result" where
  "duration_component orig s =
     (let invalid = Inl (DurationError InvalidDuration orig) in
      case s of
        [] \<Rightarrow> invalid
      | c # cs \<Rightarrow>
          if \<not> (c = CHR ''.'' \<or> is_digit c) then invalid
          else case leadingInt 0 s of
            None \<Rightarrow> invalid
          | Some (v, s1) \<Rightarrow>
              let pre = (length s1 \<noteq> length s) in
              case duration_fraction s1 of
                (post, f, scale, s2) \<Rightarrow>
                  if \<not> pre \<and> \<not> post then invalid
                  else
                    let u = takeWhile unit_char s2; s3 = dropWhile unit_char s2 in
                    if u = [] then Inl (DurationError MissingUnit orig)
                    else case unitMap u of
                      None \<Rightarrow> Inl (DurationError (UnknownUnit u) orig)
                    | Some unit \<Rightarrow>
                        if 2 ^ 63 div unit < v then invalid
                        else
                          let v1 = v * unit;
                              v2 = (if 0 < f
                                    then v1 + f64_fraction f unit scale
                                    else v1)
                          in if 0 < f \<and> 2 ^ 63 < v2 then invalid else Inr (v2, s3))"

subsection \<open>Lemmas\<close>

declare duration_fraction_def [go_eval] unit_char_def [go_eval] unitMap_def [go_eval]
  duration_component_def [go_eval]

text \<open>Truncating division followed by the remainder recovers the dividend, read in \<open>real\<close>.\<close>

lemma real_sdiv_smod:
  assumes "(u::int) \<noteq> 0"
  shows "real_of_int (d sdiv u) + real_of_int (d smod u) / real_of_int u
         = real_of_int d / real_of_int u"
proof -
  have "real_of_int d = real_of_int (d sdiv u) * real_of_int u + real_of_int (d smod u)"
    by (metis of_int_add of_int_mult sdiv_mult_smod_eq)
  with assms show ?thesis by (simp add: field_simps)
qed

lemma duration_Hours_eq: "duration_Hours d = real_of_int d / 3600000000000"
  using real_sdiv_smod [of Hour d] by (simp add: duration_Hours_def Hour_value)

lemma duration_Minutes_eq: "duration_Minutes d = real_of_int d / 60000000000"
  using real_sdiv_smod [of Minute d] by (simp add: duration_Minutes_def Minute_value)

lemma leadingInt_suffix:
  "leadingInt x s = Some (v, r) \<Longrightarrow> length r \<le> length s"
  by (induction x s rule: leadingInt.induct) (auto simp: Let_def split: if_splits)

lemma leadingFraction_suffix:
  "leadingFraction ovf x scale s = (f, sc, r) \<Longrightarrow> length r \<le> length s"
  by (induction ovf x scale s arbitrary: f sc r rule: leadingFraction.induct)
    (auto simp: Let_def split: if_splits, fastforce+)

lemma duration_fraction_suffix:
  "duration_fraction s = (post, f, sc, r) \<Longrightarrow> length r \<le> length s"
  by (auto simp: duration_fraction_def split: list.splits if_splits prod.splits
      dest!: leadingFraction_suffix)

lemma dropWhile_shorter:
  "takeWhile P s \<noteq> [] \<Longrightarrow> length (dropWhile P s) < length s"
  by (cases s) (auto simp: le_imp_less_Suc length_dropWhile_le split: if_splits)

text \<open>An accepted component consumes at least its unit: the loop makes progress.\<close>

lemma duration_component_shorter:
  "duration_component orig s = Inr (v, rest) \<Longrightarrow> length rest < length s"
  by (auto simp: duration_component_def Let_def simp del: leadingInt.simps
      split: list.splits if_splits option.splits prod.splits
      dest!: leadingInt_suffix duration_fraction_suffix dropWhile_shorter)

text \<open>An accepted component is at most \<open>2^63\<close>.\<close>

lemma duration_component_bound:
  "duration_component orig s = Inr (v, rest) \<Longrightarrow> v \<le> 2 ^ 63"
proof -
  assume c: "duration_component orig s = Inr (v, rest)"
  have mul: "\<not> 9223372036854775808 div k < x \<Longrightarrow> x * k \<le> (9223372036854775808::nat)"
    for x k by (simp add: mult_le_of_le_div)
  from c show ?thesis
    by (auto simp: duration_component_def Let_def simp del: leadingInt.simps
        split: list.splits if_splits option.splits prod.splits dest: mul)
qed

end
