(* ===== verification/GoDuration.thy ===== *)
theory GoDuration
  imports GoTime
begin

text \<open>
  \<open>time.ParseDuration\<close>: an optional sign, then one or more components
  \<open>[0-9]*(\.[0-9]*)?unit\<close>, summed as \<open>uint64\<close> nanoseconds with an overflow check
  after every step; \<open>"0"\<close> alone is zero. The component loop \<open>for s != ""\<close> is a
  \<^theory_text>\<open>function\<close> on the remaining input; it terminates because every component that
  is accepted consumes its unit, at least one byte. The fraction's contribution
  \<open>uint64(float64(f) * (float64(unit) / scale))\<close> is computed exactly and truncated.
  The sum \<open>d += v\<close> wraps at \<open>2^64\<close> as Go's \<open>uint64\<close> does.
\<close>

function parseDuration_loop :: "go_string \<Rightarrow> go_string \<Rightarrow> nat \<Rightarrow> nat result" where
  "parseDuration_loop orig [] d = Inr d"
| "parseDuration_loop orig (c # cs) d =
     (case duration_component orig (c # cs) of
        Inl e \<Rightarrow> Inl e
      | Inr (v, rest) \<Rightarrow>
          let d1 = (d + v) mod 2 ^ 64
          in if 2 ^ 63 < d1 then Inl (DurationError InvalidDuration orig)
             else parseDuration_loop orig rest d1)"
  by pat_completeness auto
termination
  by (relation "measure (\<lambda>(orig, s, d). length s)")
    (auto dest: duration_component_shorter)

text \<open>
  The entry point: the sign, the special case \<open>"0"\<close>, the empty remainder, the loop,
  and the final conversion to \<open>Duration\<close>. For a negative duration Go computes
  \<open>-Duration(d)\<close> with \<open>d \<le> 2^63\<close>, which is \<open>-d\<close> also for \<open>d = 2^63\<close> (the
  negation of \<open>int64\<close> minimum wraps to itself).
\<close>

definition time_ParseDuration :: "go_string \<Rightarrow> duration result" where
  "time_ParseDuration orig =
     (let (neg, s) = (case orig of
                        [] \<Rightarrow> (False, [])
                      | c # cs \<Rightarrow>
                          (if c = CHR ''-'' \<or> c = CHR ''+'' then (c = CHR ''-'', cs)
                           else (False, orig)))
      in if s = ''0'' then Inr 0
         else if s = [] then Inl (DurationError InvalidDuration orig)
         else case parseDuration_loop orig s 0 of
                Inl e \<Rightarrow> Inl e
              | Inr d \<Rightarrow>
                  if neg then Inr (- int d)
                  else if 2 ^ 63 - 1 < d then Inl (DurationError InvalidDuration orig)
                  else Inr (int d))"

declare parseDuration_loop.simps [simp del]
declare parseDuration_loop.simps [go_eval] time_ParseDuration_def [go_eval]

subsection \<open>The loop stays within range\<close>

lemma parseDuration_loop_bound:
  "parseDuration_loop orig s d = Inr r \<Longrightarrow> d \<le> 2 ^ 63 \<Longrightarrow> r \<le> 2 ^ 63"
proof (induction orig s d rule: parseDuration_loop.induct)
  case (1 orig d)
  then show ?case by (simp add: parseDuration_loop.simps)
next
  case (2 orig c cs d)
  from "2.prems"(1) obtain v rest where comp: "duration_component orig (c # cs) = Inr (v, rest)"
    and ok: "\<not> 2 ^ 63 < (d + v) mod 2 ^ 64"
    and rec: "parseDuration_loop orig rest ((d + v) mod 2 ^ 64) = Inr r"
    by (auto simp: parseDuration_loop.simps(2) Let_def split: sum.splits if_splits)
  show ?case using "2.IH" [OF comp] ok rec by fastforce
qed

lemma time_ParseDuration_range:
  "time_ParseDuration s = Inr d \<Longrightarrow> in_int64 d"
proof -
  assume r: "time_ParseDuration s = Inr d"
  have loop: "parseDuration_loop o' t 0 = Inr n \<Longrightarrow> n \<le> 2 ^ 63" for o' t n
    by (erule parseDuration_loop_bound) simp
  from r show "in_int64 d"
    by (auto simp: time_ParseDuration_def Let_def split: list.splits if_splits sum.splits
        dest!: loop)
qed

subsection \<open>The value of a duration written as digits and a unit\<close>

lemma leadingInt_digits:
  "\<forall>c \<in> set a. is_digit c \<Longrightarrow> (rest = [] \<or> \<not> is_digit (hd rest)) \<Longrightarrow>
   digits_value x a \<le> 2 ^ 63 \<Longrightarrow> leadingInt x (a @ rest) = Some (digits_value x a, rest)"
proof (induction a arbitrary: x)
  case Nil
  then show ?case by (cases rest) auto
next
  case (Cons c a)
  let ?x' = "x * 10 + digit_val c"
  have "x * 10 \<le> digits_value x (c # a)"
    using digits_value_ge_self [of ?x' a] by simp
  with Cons.prems(3) have "x \<le> 2 ^ 63 div 10" by (simp add: less_eq_div_iff_mult_less_eq)
  moreover have "?x' \<le> 2 ^ 63"
    using digits_value_ge_self [of ?x' a] Cons.prems(3) by simp
  moreover have "leadingInt ?x' (a @ rest) = Some (digits_value ?x' a, rest)"
    using Cons by simp
  ultimately show ?case using Cons.prems(1) by (simp add: Let_def)
qed

lemma unitMap_pos: "unitMap u = Some k \<Longrightarrow> 0 < k"
  by (auto simp: unitMap_def duration_units split: if_splits)

lemma duration_component_digits_unit:
  assumes a: "a \<noteq> []" "\<forall>c \<in> set a. is_digit c"
    and u: "u \<noteq> []" "\<forall>c \<in> set u. unit_char c" "unitMap u = Some k"
    and bound: "digits_value 0 a * k \<le> 2 ^ 63"
    and rest: "rest = [] \<or> \<not> unit_char (hd rest)"
  shows "duration_component orig (a @ u @ rest) = Inr (digits_value 0 a * k, rest)"
proof -
  have k: "0 < k" using u(3) by (rule unitMap_pos)
  have "digits_value 0 a * 1 \<le> digits_value 0 a * k"
    using k by (intro mult_le_mono2) simp
  with bound have le: "digits_value 0 a \<le> 2 ^ 63" by linarith
  have hd_u: "\<not> is_digit (hd u)" "hd u \<noteq> CHR ''.''"
    using u(1,2) by (auto simp: unit_char_def)
  have li: "leadingInt 0 (a @ u @ rest) = Some (digits_value 0 a, u @ rest)"
    using leadingInt_digits [OF a(2) _ le] hd_u u(1) by simp
  have fr: "duration_fraction (u @ rest) = (False, 0, (1, 0), u @ rest)"
    using u(1) hd_u by (cases u) (auto simp: duration_fraction_def)
  have tw: "takeWhile unit_char (u @ rest) = u" and dw: "dropWhile unit_char (u @ rest) = rest"
    using u(2) rest by (cases rest; simp)+
  have "digits_value 0 a \<le> 2 ^ 63 div k"
    using bound by (simp only: less_eq_div_iff_mult_less_eq [OF k])
  then have div: "\<not> 2 ^ 63 div k < digits_value 0 a" by simp
  obtain c cs where acs: "a = c # cs" using a(1) by (cases a) auto
  have c: "is_digit c" using a(2) acs by simp
  have au: "a @ u @ rest = c # (cs @ u @ rest)" by (simp add: acs)
  from li have li': "leadingInt 0 (c # cs @ u @ rest) = Some (digits_value 0 a, u @ rest)"
    by (simp only: au)
  show ?thesis
    unfolding au duration_component_def using div u(1)
    by (simp add: li' fr tw dw u(3) c Let_def del: leadingInt.simps)
qed

text \<open>
  A duration written as decimal digits and one unit parses to the digits' value times
  the unit, as long as that stays below \<open>2^63\<close> nanoseconds.
\<close>

lemma time_ParseDuration_digits_unit:
  assumes a: "a \<noteq> []" "\<forall>c \<in> set a. is_digit c"
    and u: "u \<noteq> []" "\<forall>c \<in> set u. unit_char c" "unitMap u = Some k"
    and bound: "digits_value 0 a * k < 2 ^ 63"
  shows "time_ParseDuration (a @ u) = Inr (int (digits_value 0 a * k))"
proof -
  obtain c cs where acs: "a = c # cs" using a(1) by (cases a) auto
  have c: "is_digit c" using a(2) acs by simp
  then have nosign: "c \<noteq> CHR ''-''" "c \<noteq> CHR ''+''" by auto
  have not0: "a @ u \<noteq> ''0''" using a(1) u(1) by (cases a) auto
  have comp: "duration_component (a @ u) (a @ u) = Inr (digits_value 0 a * k, [])"
    using duration_component_digits_unit [OF a u _ disjI1, of "[]"] bound by simp
  have loop: "parseDuration_loop (a @ u) (a @ u) 0 = Inr (digits_value 0 a * k)"
    using comp bound by (simp add: acs parseDuration_loop.simps Let_def)
  show ?thesis
    using loop not0 bound nosign u(1) by (simp add: time_ParseDuration_def acs)
qed

lemma leadingFraction_digits:
  "\<forall>c \<in> set b. is_digit c \<Longrightarrow> (rest = [] \<or> \<not> is_digit (hd rest)) \<Longrightarrow>
   digits_value x b < 2 ^ 63 \<Longrightarrow> f64_val sc = 10 ^ j \<Longrightarrow> j + length b \<le> 22 \<Longrightarrow>
   \<exists>sc'. leadingFraction False x sc (b @ rest) = (digits_value x b, sc', rest)
     \<and> f64_val sc' = 10 ^ (j + length b)"
proof (induction b arbitrary: x sc j)
  case Nil
  then show ?case by (cases rest) auto
next
  case (Cons c b)
  let ?x' = "x * 10 + digit_val c"
  let ?sc' = "f64_round (fst sc * 10) 1 (snd sc)"
  have ge: "?x' \<le> digits_value x (c # b)" using digits_value_ge_self [of ?x' b] by simp
  with Cons.prems(3) have "x \<le> (2 ^ 63 - 1) div 10" by (simp add: less_eq_div_iff_mult_less_eq)
  moreover have "?x' \<le> 2 ^ 63" using ge Cons.prems(3) by simp
  moreover have "f64_val ?sc' = 10 ^ Suc j"
    using Cons.prems(4,5) by (intro f64_scale_step) simp_all
  then have "\<exists>sc'. leadingFraction False ?x' ?sc' (b @ rest) = (digits_value ?x' b, sc', rest)
      \<and> f64_val sc' = 10 ^ (Suc j + length b)"
    using Cons.prems by (intro Cons.IH) simp_all
  ultimately show ?case using Cons.prems(1) by (simp add: Let_def)
qed

lemma unitMap_le: "unitMap u = Some k \<Longrightarrow> k \<le> 2 ^ 42"
  by (auto simp: unitMap_def duration_units split: if_splits)

text \<open>
  A component with a decimal point, \<open>a.bu\<close>: its value is the integer part times the
  unit plus the \<open>float64\<close> fraction term of \<open>b\<close>.
\<close>

lemma duration_component_fraction_unit:
  assumes a: "\<forall>c \<in> set a. is_digit c" and b: "\<forall>c \<in> set b. is_digit c"
    and ab: "a \<noteq> [] \<or> b \<noteq> []" and lb: "length b \<le> 18"
    and u: "u \<noteq> []" "\<forall>c \<in> set u. unit_char c" "unitMap u = Some k"
    and bound: "(digits_value 0 a + 1) * k \<le> 2 ^ 63"
    and rest: "rest = [] \<or> \<not> unit_char (hd rest)"
  shows "\<exists>sc. f64_val sc = 10 ^ length b \<and>
    duration_component orig (a @ CHR ''.'' # b @ u @ rest)
      = Inr (digits_value 0 a * k + f64_fraction (digits_value 0 b) k sc, rest)"
proof -
  have k: "0 < k" using u(3) by (rule unitMap_pos)
  have "digits_value 0 b < 1 * 10 ^ length b" using digits_value_less [OF b, of 0] by simp
  also have "\<dots> \<le> 10 ^ 18" using ten_pow_mono [OF lb] by simp
  finally have bv: "digits_value 0 b < 2 ^ 63" by simp
  have hd_u: "\<not> is_digit (hd u)" "hd u \<noteq> CHR ''.''"
    using u(1,2) by (auto simp: unit_char_def)
  obtain sc where lf: "leadingFraction False 0 (1, 0) (b @ u @ rest)
      = (digits_value 0 b, sc, u @ rest)" and sc: "f64_val sc = 10 ^ length b"
    using leadingFraction_digits [OF b _ bv, of "u @ rest" "(1, 0)" 0] hd_u u(1) lb
    by (auto simp: f64_val_def)
  have F: "digits_value 0 b < 10 ^ length b" using digits_value_less [OF b, of 0] by simp
  have "f64_fraction (digits_value 0 b) k sc \<le> k"
    using sc F unitMap_le [OF u(3)] k by (intro f64_fraction_le [of _ "10 ^ length b"]) simp_all
  then have v: "digits_value 0 a * k + f64_fraction (digits_value 0 b) k sc \<le> 2 ^ 63"
    using bound by (simp add: algebra_simps)
  then have ak: "digits_value 0 a * k \<le> 2 ^ 63" by linarith
  have "digits_value 0 a * 1 \<le> digits_value 0 a * k" using k by (intro mult_le_mono2) simp
  with ak have le: "digits_value 0 a \<le> 2 ^ 63" by linarith
  have li: "leadingInt 0 (a @ CHR ''.'' # b @ u @ rest)
      = Some (digits_value 0 a, CHR ''.'' # b @ u @ rest)"
    using leadingInt_digits [OF a _ le, of "CHR ''.'' # b @ u @ rest"] by simp
  have fr: "duration_fraction (CHR ''.'' # b @ u @ rest)
      = (b \<noteq> [], digits_value 0 b, sc, u @ rest)"
    using lf by (simp add: duration_fraction_def)
  have tw: "takeWhile unit_char (u @ rest) = u" and dw: "dropWhile unit_char (u @ rest) = rest"
    using u(2) rest by (cases rest; simp)+
  have "digits_value 0 a \<le> 2 ^ 63 div k"
    using ak by (simp only: less_eq_div_iff_mult_less_eq [OF k])
  then have div: "\<not> 2 ^ 63 div k < digits_value 0 a" by simp
  have v2: "(if 0 < digits_value 0 b
             then digits_value 0 a * k + f64_fraction (digits_value 0 b) k sc
             else digits_value 0 a * k)
          = digits_value 0 a * k + f64_fraction (digits_value 0 b) k sc"
    by (simp add: f64_fraction_zero)
  obtain c cs where s: "a @ CHR ''.'' # b @ u @ rest = c # cs" and c: "c = CHR ''.'' \<or> is_digit c"
    using a by (cases a) auto
  have len: "length cs = length a + (length b + (length u + length rest))"
    using arg_cong [OF s, of length] by simp
  from li have li': "leadingInt 0 (c # cs) = Some (digits_value 0 a, CHR ''.'' # b @ u @ rest)"
    by (simp only: s)
  have "duration_component orig (a @ CHR ''.'' # b @ u @ rest)
      = Inr (digits_value 0 a * k + f64_fraction (digits_value 0 b) k sc, rest)"
    unfolding s duration_component_def using div u(1) ab v c len
    by (simp add: li' fr tw dw u(3) Let_def v2 del: leadingInt.simps)
  with sc show ?thesis by blast
qed

text \<open>A duration written \<open>a.bu\<close> parses to that component's value.\<close>

lemma time_ParseDuration_fraction_unit:
  assumes a: "\<forall>c \<in> set a. is_digit c" and b: "\<forall>c \<in> set b. is_digit c"
    and ab: "a \<noteq> [] \<or> b \<noteq> []" and lb: "length b \<le> 18"
    and u: "u \<noteq> []" "\<forall>c \<in> set u. unit_char c" "unitMap u = Some k"
    and bound: "(digits_value 0 a + 1) * k < 2 ^ 63"
  shows "\<exists>sc. f64_val sc = 10 ^ length b \<and>
    time_ParseDuration (a @ CHR ''.'' # b @ u)
      = Inr (int (digits_value 0 a * k + f64_fraction (digits_value 0 b) k sc))"
proof -
  let ?s = "a @ CHR ''.'' # b @ u"
  obtain sc where sc: "f64_val sc = 10 ^ length b" and comp: "duration_component ?s ?s
      = Inr (digits_value 0 a * k + f64_fraction (digits_value 0 b) k sc, [])"
    using duration_component_fraction_unit [where rest = "[]" and orig = "a @ CHR ''.'' # b @ u",
        OF a b ab lb u less_imp_le [OF bound]] by auto
  let ?v = "digits_value 0 a * k + f64_fraction (digits_value 0 b) k sc"
  have F: "digits_value 0 b < 10 ^ length b" using digits_value_less [OF b, of 0] by simp
  have "f64_fraction (digits_value 0 b) k sc \<le> k"
    using sc F unitMap_le [OF u(3)] unitMap_pos [OF u(3)]
    by (intro f64_fraction_le [of _ "10 ^ length b"]) simp_all
  then have v: "?v < 2 ^ 63" using bound by (simp add: algebra_simps)
  obtain c cs where s: "?s = c # cs" and c: "c = CHR ''.'' \<or> is_digit c"
    using a by (cases a) auto
  then have nosign: "c \<noteq> CHR ''-''" "c \<noteq> CHR ''+''" by auto
  have cs: "cs \<noteq> []" using s u(1) by (cases a) auto
  have loop: "parseDuration_loop ?s ?s 0 = Inr ?v"
    using comp v unfolding s by (simp add: parseDuration_loop.simps Let_def)
  have "time_ParseDuration ?s = Inr (int ?v)"
    using loop cs v nosign unfolding s by (simp add: time_ParseDuration_def)
  with sc show ?thesis by blast
qed

subsection \<open>Errors\<close>

text \<open>Every error of \<open>ParseDuration\<close> is one of its own messages about the whole input.\<close>

lemma duration_component_Inl:
  "duration_component orig s = Inl e \<Longrightarrow> \<exists>k. e = DurationError k orig"
  by (auto simp: duration_component_def Let_def simp del: leadingInt.simps
      split: list.splits if_splits option.splits prod.splits)

lemma parseDuration_loop_Inl:
  "parseDuration_loop orig s d = Inl e \<Longrightarrow> \<exists>k. e = DurationError k orig"
proof (induction orig s d rule: parseDuration_loop.induct)
  case (1 orig d)
  then show ?case by (simp add: parseDuration_loop.simps)
next
  case (2 orig c cs d)
  show ?case
  proof (cases "duration_component orig (c # cs)")
    case (Inl e')
    with "2.prems" show ?thesis
      by (auto simp: parseDuration_loop.simps(2) dest: duration_component_Inl)
  next
    case (Inr p)
    obtain v rest where p: "p = (v, rest)" by (cases p)
    show ?thesis
    proof (cases "2 ^ 63 < (d + v) mod 2 ^ 64")
      case True
      with "2.prems" Inr p show ?thesis by (auto simp: parseDuration_loop.simps(2) Let_def)
    next
      case False
      with "2.prems" Inr p have "parseDuration_loop orig rest ((d + v) mod 2 ^ 64) = Inl e"
        by (simp add: parseDuration_loop.simps(2) Let_def)
      then show ?thesis using "2.IH" [OF Inr p [symmetric]] False by (simp add: Let_def)
    qed
  qed
qed

lemma time_ParseDuration_Inl:
  "time_ParseDuration s = Inl e \<Longrightarrow> \<exists>k. e = DurationError k s"
  by (auto simp: time_ParseDuration_def Let_def split: list.splits if_splits sum.splits
      dest: parseDuration_loop_Inl)


text \<open>A leading minus sign gives a duration that is not positive.\<close>

lemma time_ParseDuration_neg:
  "time_ParseDuration (CHR ''-'' # s) = Inr d \<Longrightarrow> d \<le> 0"
  by (auto simp: time_ParseDuration_def split: if_splits sum.splits)

end
