(* ===== verification/GoStrings.thy ===== *)
theory GoStrings
  imports GoPrelude
begin

text \<open>
  \<open>strings.Split(s, sep)\<close> for a one-byte separator, as both parsers call it with
  \<open>","\<close>. Go's \<open>genSplit\<close> cuts \<open>s\<close> at every occurrence of \<open>sep\<close> and always
  returns \<open>Count(s, sep) + 1\<close> pieces: the empty string gives one empty piece, a
  leading, trailing or doubled separator gives empty pieces. The model walks the bytes
  and starts a new piece at each separator. The lemmas show the round trip in both
  directions against \<open>strings.Join\<close>, the reference inverse.
\<close>

fun strings_Split :: "char \<Rightarrow> go_string \<Rightarrow> go_string list" where
  "strings_Split sep [] = [[]]"
| "strings_Split sep (c # cs) =
     (if c = sep then [] # strings_Split sep cs
      else (case strings_Split sep cs of
              [] \<Rightarrow> [[c]]
            | p # ps \<Rightarrow> (c # p) # ps))"

fun strings_Join :: "char \<Rightarrow> go_string list \<Rightarrow> go_string" where
  "strings_Join sep [] = []"
| "strings_Join sep [p] = p"
| "strings_Join sep (p # ps) = p @ sep # strings_Join sep ps"

lemma strings_Split_not_Nil [simp]: "strings_Split sep s \<noteq> []"
  by (induction s) (auto split: list.split)

lemma length_strings_Split: "length (strings_Split sep s) = count_list s sep + 1"
  by (induction s) (auto split: list.split)

lemma strings_Split_no_sep: "p \<in> set (strings_Split sep s) \<Longrightarrow> sep \<notin> set p"
proof (induction s arbitrary: p)
  case Nil
  then show ?case by simp
next
  case (Cons c cs)
  then show ?case
    by (cases "strings_Split sep cs") (auto split: if_splits)
qed

lemma strings_Join_Cons_Cons [simp]:
  "strings_Join sep ((c # p) # ps) = c # strings_Join sep (p # ps)"
  by (cases ps) simp_all

lemma strings_Join_strings_Split: "strings_Join sep (strings_Split sep s) = s"
proof (induction s)
  case Nil
  then show ?case by simp
next
  case (Cons c cs)
  then show ?case
    by (cases "strings_Split sep cs") (auto simp: strings_Join.simps(3) [of _ "[]"])
qed

text \<open>A piece without the separator, followed by the separator, starts a new piece.\<close>

lemma strings_Split_append_sep:
  "sep \<notin> set p \<Longrightarrow> strings_Split sep (p @ sep # s) = p # strings_Split sep s"
  by (induction p) auto

lemma strings_Split_no_sep_single: "sep \<notin> set p \<Longrightarrow> strings_Split sep p = [p]"
  by (induction p) auto

lemma strings_Split_strings_Join:
  "ps \<noteq> [] \<Longrightarrow> \<forall>p \<in> set ps. sep \<notin> set p \<Longrightarrow> strings_Split sep (strings_Join sep ps) = ps"
proof (induction ps)
  case Nil
  then show ?case by simp
next
  case (Cons p ps)
  then show ?case
    by (cases ps) (simp_all add: strings_Split_no_sep_single strings_Split_append_sep)
qed

text \<open>The pieces a two- or three-field record splits into.\<close>

lemma strings_Split_two:
  "sep \<notin> set a \<Longrightarrow> sep \<notin> set b \<Longrightarrow> strings_Split sep (a @ sep # b) = [a, b]"
  by (simp add: strings_Split_append_sep strings_Split_no_sep_single)

lemma strings_Split_three:
  "sep \<notin> set a \<Longrightarrow> sep \<notin> set b \<Longrightarrow> sep \<notin> set c \<Longrightarrow>
   strings_Split sep (a @ sep # b @ sep # c) = [a, b, c]"
  by (simp add: strings_Split_append_sep strings_Split_no_sep_single)

text \<open>Conversely, the record that splits into given fields is their join.\<close>

lemma strings_Split_eq_two:
  "strings_Split sep s = [a, b] \<Longrightarrow>
   s = a @ sep # b \<and> sep \<notin> set a \<and> sep \<notin> set b"
  using strings_Join_strings_Split [of sep s] strings_Split_no_sep [of _ sep s] by auto

lemma strings_Split_eq_three:
  "strings_Split sep s = [a, b, c] \<Longrightarrow>
   s = a @ sep # b @ sep # c \<and> sep \<notin> set a \<and> sep \<notin> set b \<and> sep \<notin> set c"
  using strings_Join_strings_Split [of sep s] strings_Split_no_sep [of _ sep s] by auto

end
