(* ===== verification/GoStrconv.thy ===== *)
theory GoStrconv
  imports GoErrors
begin

text \<open>
  \<open>strconv.Atoi\<close> on a 64-bit target, as the Go library writes it. A string of 1 to
  18 bytes takes the fast path: an optional sign, then digits accumulated without
  overflow checks (18 digits cannot overflow). Every other string, the empty one
  included, goes through \<open>ParseInt(s, 10, 0)\<close>, which strips the sign and calls
  \<open>ParseUint\<close>; that loop checks each step against \<open>uint64\<close> overflow
  (\<open>n >= cutoff\<close> before the multiplication, \<open>n1 > maxVal\<close> after the addition,
  written here over \<open>nat\<close>), and \<open>ParseInt\<close> then checks the signed range. The
  error is \<open>&NumError{"Atoi", s, ErrSyntax | ErrRange}\<close> on every path, \<open>Atoi\<close>
  rewriting the \<open>Func\<close> field of the errors \<open>ParseInt\<close> returns.
  Besides the model, the theory states what Atoi accepts (\<open>int_syntax\<close>,
  \<open>int_value\<close>) and proves the fast path equal to the slow one.
\<close>

abbreviation uint64_cutoff :: nat where
  "uint64_cutoff \<equiv> uint64_max div 10 + 1"

subsection \<open>The fast path\<close>

fun atoi_fast_loop :: "nat \<Rightarrow> go_string \<Rightarrow> num_err + nat" where
  "atoi_fast_loop n [] = Inr n"
| "atoi_fast_loop n (c # cs) =
     (if is_digit c then atoi_fast_loop (n * 10 + digit_val c) cs else Inl ErrSyntax)"

definition atoi_sign :: "bool \<Rightarrow> num_err + nat \<Rightarrow> num_err + int" where
  "atoi_sign neg r = (case r of Inl e \<Rightarrow> Inl e | Inr n \<Rightarrow> Inr (if neg then - int n else int n))"

definition atoi_fast :: "go_string \<Rightarrow> num_err + int" where
  "atoi_fast s =
     (case s of
        [] \<Rightarrow> Inl ErrSyntax
      | c # cs \<Rightarrow>
          (if c = CHR ''-'' \<or> c = CHR ''+'' then
             (if cs = [] then Inl ErrSyntax else atoi_sign (c = CHR ''-'') (atoi_fast_loop 0 cs))
           else atoi_sign False (atoi_fast_loop 0 s)))"

subsection \<open>ParseUint, ParseInt and Atoi\<close>

fun parse_uint_loop :: "nat \<Rightarrow> go_string \<Rightarrow> num_err + nat" where
  "parse_uint_loop n [] = Inr n"
| "parse_uint_loop n (c # cs) =
     (if \<not> is_digit c then Inl ErrSyntax
      else if uint64_cutoff \<le> n then Inl ErrRange
      else let n1 = n * 10 + digit_val c
           in if uint64_max < n1 then Inl ErrRange else parse_uint_loop n1 cs)"

definition parse_uint :: "go_string \<Rightarrow> num_err + nat" where
  "parse_uint s = (if s = [] then Inl ErrSyntax else parse_uint_loop 0 s)"

definition parse_int :: "go_string \<Rightarrow> num_err + int" where
  "parse_int s =
     (case s of
        [] \<Rightarrow> Inl ErrSyntax
      | c # cs \<Rightarrow>
          (let neg = (c = CHR ''-'');
               t = (if c = CHR ''+'' \<or> c = CHR ''-'' then cs else s)
           in case parse_uint t of
                Inl e \<Rightarrow> Inl e
              | Inr un \<Rightarrow>
                  if \<not> neg \<and> 2 ^ 63 \<le> un then Inl ErrRange
                  else if neg \<and> 2 ^ 63 < un then Inl ErrRange
                  else Inr (if neg then - int un else int un)))"

definition strconv_Atoi :: "go_string \<Rightarrow> go_int result" where
  "strconv_Atoi s =
     (let r = (if 0 < length s \<and> length s < 19 then atoi_fast s else parse_int s)
      in case r of Inl e \<Rightarrow> Inl (NumError ''Atoi'' s e) | Inr n \<Rightarrow> Inr n)"

subsection \<open>What Atoi accepts\<close>

text \<open>An optional sign and at least one decimal digit, nothing else.\<close>

definition int_syntax :: "go_string \<Rightarrow> bool" where
  "int_syntax s =
     (case s of
        [] \<Rightarrow> False
      | c # cs \<Rightarrow>
          (if c = CHR ''-'' \<or> c = CHR ''+'' then cs \<noteq> [] \<and> (\<forall>d \<in> set cs. is_digit d)
           else (\<forall>d \<in> set s. is_digit d)))"

definition int_value :: "go_string \<Rightarrow> int" where
  "int_value s =
     (case s of
        [] \<Rightarrow> 0
      | c # cs \<Rightarrow>
          (if c = CHR ''-'' then - int (digits_value 0 cs)
           else if c = CHR ''+'' then int (digits_value 0 cs)
           else int (digits_value 0 s)))"

declare strconv_Atoi_def [go_eval] atoi_fast_def [go_eval] atoi_sign_def [go_eval]
  parse_int_def [go_eval] parse_uint_def [go_eval]

subsection \<open>The loops against the reference value\<close>

lemma atoi_fast_loop_eq:
  "atoi_fast_loop n cs =
     (if \<forall>c \<in> set cs. is_digit c then Inr (digits_value n cs) else Inl ErrSyntax)"
  by (induction n cs rule: atoi_fast_loop.induct) auto

text \<open>
  On digits, the checked loop fails with \<open>ErrRange\<close> exactly when the value passes
  \<open>uint64_max\<close>: the value only grows, so an intermediate overflow means a final one.
\<close>

lemma parse_uint_loop_digits:
  "\<forall>c \<in> set cs. is_digit c \<Longrightarrow> n \<le> uint64_max \<Longrightarrow>
   parse_uint_loop n cs =
     (if digits_value n cs \<le> uint64_max then Inr (digits_value n cs) else Inl ErrRange)"
proof (induction n cs rule: parse_uint_loop.induct)
  case (1 n)
  then show ?case by simp
next
  case (2 n c cs)
  then have dig: "is_digit c" and rest: "\<forall>c \<in> set cs. is_digit c" by simp_all
  show ?case
  proof (cases "uint64_cutoff \<le> n")
    case True
    have "uint64_cutoff * 10 \<le> n * 10 + digit_val c" using True by simp
    also have "\<dots> \<le> digits_value (n * 10 + digit_val c) cs"
      by (rule digits_value_ge_self)
    finally show ?thesis using True dig by simp
  next
    case False
    show ?thesis
    proof (cases "uint64_max < n * 10 + digit_val c")
      case True
      moreover have "n * 10 + digit_val c \<le> digits_value (n * 10 + digit_val c) cs"
        by (rule digits_value_ge_self)
      ultimately show ?thesis using False dig by simp
    next
      case nov: False
      with False dig "2.IH" rest show ?thesis by (simp add: Let_def)
    qed
  qed
qed

lemma parse_uint_loop_Inr:
  "parse_uint_loop n cs = Inr m \<Longrightarrow> (\<forall>c \<in> set cs. is_digit c) \<and> m = digits_value n cs"
  by (induction n cs rule: parse_uint_loop.induct) (auto simp: Let_def split: if_splits)

lemma parse_uint_Inr_iff:
  "parse_uint t = Inr un \<longleftrightarrow>
   t \<noteq> [] \<and> (\<forall>c \<in> set t. is_digit c) \<and> un = digits_value 0 t \<and> un \<le> uint64_max"
proof
  assume r: "parse_uint t = Inr un"
  then have ne: "t \<noteq> []" and loop: "parse_uint_loop 0 t = Inr un"
    by (auto simp: parse_uint_def split: if_splits)
  from loop have dig: "\<forall>c \<in> set t. is_digit c" and un: "un = digits_value 0 t"
    using parse_uint_loop_Inr by blast+
  from loop parse_uint_loop_digits [OF dig, of 0] have "un \<le> uint64_max"
    by (simp add: un split: if_splits)
  with ne dig un show "t \<noteq> [] \<and> (\<forall>c \<in> set t. is_digit c) \<and> un = digits_value 0 t
                       \<and> un \<le> uint64_max" by blast
next
  assume "t \<noteq> [] \<and> (\<forall>c \<in> set t. is_digit c) \<and> un = digits_value 0 t \<and> un \<le> uint64_max"
  then show "parse_uint t = Inr un"
    using parse_uint_loop_digits [of t 0] by (simp add: parse_uint_def)
qed

lemma parse_uint_digits:
  "t \<noteq> [] \<Longrightarrow> \<forall>c \<in> set t. is_digit c \<Longrightarrow> digits_value 0 t \<le> uint64_max \<Longrightarrow>
   parse_uint t = Inr (digits_value 0 t)"
  by (simp add: parse_uint_Inr_iff)

lemma parse_uint_Inl:
  "parse_uint t = Inl e \<Longrightarrow>
   t = [] \<or> \<not> (\<forall>c \<in> set t. is_digit c) \<or> uint64_max < digits_value 0 t"
  using parse_uint_digits [of t] by fastforce

text \<open>While the value stays below \<open>10^18\<close> the checks never fire: the two loops agree.\<close>

lemma parse_uint_loop_fast:
  "(n + 1) * 10 ^ length cs \<le> 10 ^ 18 \<Longrightarrow> parse_uint_loop n cs = atoi_fast_loop n cs"
proof (induction n cs rule: parse_uint_loop.induct)
  case (1 n)
  then show ?case by simp
next
  case (2 n c cs)
  show ?case
  proof (cases "is_digit c")
    case False
    then show ?thesis by simp
  next
    case True
    then have d: "digit_val c < 10" by (rule digit_val_less)
    have ten: "(n + 1) * 10 \<le> 10 ^ 18"
    proof -
      have "(n + 1) * 10 \<le> (n + 1) * 10 * 10 ^ length cs" by simp
      also have "\<dots> = (n + 1) * 10 ^ length (c # cs)" by (simp add: algebra_simps)
      finally show ?thesis using "2.prems" by simp
    qed
    have n1: "(n * 10 + digit_val c + 1) * 10 ^ length cs \<le> 10 ^ 18"
    proof -
      have "(n * 10 + digit_val c + 1) * 10 ^ length cs \<le> (n + 1) * 10 * 10 ^ length cs"
        using d by (intro mult_right_mono) simp_all
      also have "\<dots> = (n + 1) * 10 ^ length (c # cs)" by (simp add: algebra_simps)
      finally show ?thesis using "2.prems" by simp
    qed
    from ten d have "n * 10 + digit_val c < 10 ^ 18" by (simp add: distrib_right)
    then have "\<not> uint64_cutoff \<le> n" and "\<not> uint64_max < n * 10 + digit_val c"
      by simp_all
    with True n1 "2.IH" show ?thesis by (simp add: Let_def)
  qed
qed

lemma parse_uint_short:
  assumes "length t \<le> 18"
  shows "parse_uint t = (if t = [] then Inl ErrSyntax else atoi_fast_loop 0 t)"
proof -
  have "(0 + 1) * 10 ^ length t \<le> (10::nat) ^ 18"
    using ten_pow_mono [OF assms] by simp
  then show ?thesis by (simp add: parse_uint_def parse_uint_loop_fast)
qed

lemma atoi_fast_loop_short_bound:
  assumes "length t \<le> 18" and "atoi_fast_loop 0 t = Inr v"
  shows "v < 2 ^ 63"
proof -
  from assms(2) have dig: "\<forall>c \<in> set t. is_digit c" and v: "v = digits_value 0 t"
    by (simp_all add: atoi_fast_loop_eq split: if_splits)
  have "digits_value 0 t < 10 ^ length t"
    using digits_value_less [OF dig, of 0] by simp
  also have "(10::nat) ^ length t \<le> 10 ^ 18"
    using assms(1) by (rule ten_pow_mono)
  finally show ?thesis using v by simp
qed

subsection \<open>The fast path is an optimisation\<close>

text \<open>
  On every string of 1 to 18 bytes the fast path returns what \<open>ParseInt\<close> returns,
  error kinds included: without the sign at most 18 digits remain, whose value is below
  \<open>10^18 < 2^63\<close>, so none of the overflow checks of the slow path can fire.
\<close>

lemma atoi_fast_eq_parse_int:
  assumes "0 < length s" and "length s < 19"
  shows "atoi_fast s = parse_int s"
proof (cases s)
  case Nil
  with assms show ?thesis by simp
next
  case (Cons c cs)
  show ?thesis
  proof (cases "c = CHR ''-'' \<or> c = CHR ''+''")
    case sign: True
    have short: "length cs \<le> 18" using assms Cons by simp
    show ?thesis
    proof (cases "atoi_fast_loop 0 cs")
      case (Inl e)
      with sign short Cons show ?thesis
        by (auto simp: atoi_fast_def parse_int_def parse_uint_short atoi_sign_def)
    next
      case (Inr v)
      with short have "v < 2 ^ 63" by (rule atoi_fast_loop_short_bound)
      with Inr sign short Cons show ?thesis
        by (auto simp: atoi_fast_def parse_int_def parse_uint_short atoi_sign_def)
    qed
  next
    case nosign: False
    have short: "length s \<le> 18" using assms by simp
    show ?thesis
    proof (cases "atoi_fast_loop 0 s")
      case (Inl e)
      with nosign short Cons show ?thesis
        by (auto simp: atoi_fast_def parse_int_def parse_uint_short atoi_sign_def)
    next
      case (Inr v)
      with short have "v < 2 ^ 63" by (rule atoi_fast_loop_short_bound)
      with Inr nosign short Cons show ?thesis
        by (auto simp: atoi_fast_def parse_int_def parse_uint_short atoi_sign_def)
    qed
  qed
qed

lemma strconv_Atoi_parse_int:
  "strconv_Atoi s =
     (case parse_int s of Inl e \<Rightarrow> Inl (NumError ''Atoi'' s e) | Inr n \<Rightarrow> Inr n)"
  by (simp add: strconv_Atoi_def atoi_fast_eq_parse_int)

subsection \<open>What Atoi accepts, and the value it returns\<close>

text \<open>
  The tail of \<open>ParseInt\<close> after the sign: a range test \<open>P\<close> that rejects at least
  every value past \<open>uint64_max\<close>, then the conversion \<open>f\<close>.
\<close>

lemma parse_uint_then_iff:
  assumes "\<forall>un. uint64_max < un \<longrightarrow> P un"
  shows "(case parse_uint t of Inl e \<Rightarrow> Inl e
          | Inr un \<Rightarrow> if P un then Inl ErrRange else Inr (f un)) = Inr n \<longleftrightarrow>
         t \<noteq> [] \<and> (\<forall>c \<in> set t. is_digit c) \<and> \<not> P (digits_value 0 t) \<and> n = f (digits_value 0 t)"
proof (cases "parse_uint t")
  case (Inl e)
  then have "t = [] \<or> \<not> (\<forall>c \<in> set t. is_digit c) \<or> uint64_max < digits_value 0 t"
    by (rule parse_uint_Inl)
  with Inl assms show ?thesis by auto
next
  case (Inr un)
  then have "t \<noteq> [] \<and> (\<forall>c \<in> set t. is_digit c) \<and> un = digits_value 0 t"
    by (simp add: parse_uint_Inr_iff)
  with Inr assms show ?thesis by auto
qed

lemma parse_int_Inr_iff:
  "parse_int s = Inr n \<longleftrightarrow> int_syntax s \<and> int_value s = n \<and> in_int64 n"
proof (cases s)
  case Nil
  then show ?thesis by (simp add: parse_int_def int_syntax_def)
next
  case (Cons c cs)
  consider (neg) "c = CHR ''-''" | (pos) "c = CHR ''+''" | (none) "c \<noteq> CHR ''-''" "c \<noteq> CHR ''+''"
    by blast
  then show ?thesis
  proof cases
    case neg
    have "parse_int s = Inr n \<longleftrightarrow> cs \<noteq> [] \<and> (\<forall>c \<in> set cs. is_digit c)
            \<and> \<not> 2 ^ 63 < digits_value 0 cs \<and> n = - int (digits_value 0 cs)"
      using parse_uint_then_iff [where P = "\<lambda>un. 2 ^ 63 < un" and t = cs and f = "\<lambda>un. - int un"]
      by (simp add: parse_int_def Cons neg cong: sum.case_cong if_cong)
    then show ?thesis by (auto simp: Cons neg int_syntax_def int_value_def)
  next
    case pos
    have "parse_int s = Inr n \<longleftrightarrow> cs \<noteq> [] \<and> (\<forall>c \<in> set cs. is_digit c)
            \<and> \<not> 2 ^ 63 \<le> digits_value 0 cs \<and> n = int (digits_value 0 cs)"
      using parse_uint_then_iff [where P = "\<lambda>un. 2 ^ 63 \<le> un" and t = cs and f = int]
      by (simp add: parse_int_def Cons pos cong: sum.case_cong if_cong)
    then show ?thesis by (auto simp: Cons pos int_syntax_def int_value_def)
  next
    case none
    have "parse_int s = Inr n \<longleftrightarrow> s \<noteq> [] \<and> (\<forall>c \<in> set s. is_digit c)
            \<and> \<not> 2 ^ 63 \<le> digits_value 0 s \<and> n = int (digits_value 0 s)"
      using parse_uint_then_iff [where P = "\<lambda>un. 2 ^ 63 \<le> un" and t = s and f = int]
      by (simp add: parse_int_def Cons none del: digits_value_Cons cong: sum.case_cong if_cong)
    then show ?thesis by (auto simp: Cons none int_syntax_def int_value_def
          simp del: digits_value_Cons)
  qed
qed

lemma strconv_Atoi_Inr_iff:
  "strconv_Atoi s = Inr n \<longleftrightarrow> int_syntax s \<and> int_value s = n \<and> in_int64 n"
proof -
  have "strconv_Atoi s = Inr n \<longleftrightarrow> parse_int s = Inr n"
    by (simp add: strconv_Atoi_parse_int split: sum.split)
  then show ?thesis by (simp add: parse_int_Inr_iff)
qed

lemma strconv_Atoi_Inl:
  "strconv_Atoi s = Inl e \<Longrightarrow> \<exists>k. e = NumError ''Atoi'' s k"
  by (auto simp: strconv_Atoi_parse_int split: sum.splits)

text \<open>
  A string of at most 18 bytes that is not an optional sign followed by digits is a
  syntax error; longer strings may fail on the range first, as Go's loop checks
  overflow before it reaches a later non-digit.
\<close>

lemma strconv_Atoi_syntax_error:
  "\<not> int_syntax s \<Longrightarrow> length s \<le> 18 \<Longrightarrow> strconv_Atoi s = Inl (NumError ''Atoi'' s ErrSyntax)"
  by (cases s) (auto simp: strconv_Atoi_def parse_int_def atoi_fast_def atoi_sign_def
      atoi_fast_loop_eq int_syntax_def split: if_splits)

end
