(* ===== verification/GoFmt.thy ===== *)
theory GoFmt
  imports GoStrconv
begin

text \<open>
  The \<open>fmt\<close> verbs the reports use. \<open>%v\<close> of an \<open>int\<close> prints it in decimal with a
  leading minus sign when negative. \<open>%.2f\<close> of a \<open>float64\<close> prints the exact value
  rounded to two decimals, halves to even (strconv's \<open>'f'\<close> format with precision 2),
  with a minus sign for a negative value even when it rounds to zero. \<open>%s\<close> of a
  string copies its bytes. Read back, \<open>%v\<close> is undone by \<open>strconv.Atoi\<close>, and the
  number \<open>%.2f\<close> prints is within half a hundredth of the value.
\<close>

definition fmt_v_int :: "go_int \<Rightarrow> go_string" where
  "fmt_v_int n = (if n < 0 then CHR ''-'' # nat_digits (nat (- n)) else nat_digits (nat n))"

definition round_half_even :: "real \<Rightarrow> int" where
  "round_half_even x =
     (let f = \<lfloor>x\<rfloor>; r = x - of_int f
      in if r < 1 / 2 then f
         else if 1 / 2 < r then f + 1
         else if even f then f else f + 1)"

text \<open>The two digits after the point of a count of hundredths.\<close>

definition two_digits :: "nat \<Rightarrow> go_string" where
  "two_digits r = [char_of (48 + r div 10), char_of (48 + r mod 10)]"

definition fmt_f2 :: "float64 \<Rightarrow> go_string" where
  "fmt_f2 x =
     (let n = nat (round_half_even (\<bar>x\<bar> * 100))
      in (if x < 0 then ''-'' else '''') @ nat_digits (n div 100) @ ''.'' @ two_digits (n mod 100))"

text \<open>
  The shape every \<open>%.2f\<close> output has: an optional minus sign, one or more digits, a
  point and exactly two digits.
\<close>

definition f2_syntax :: "go_string \<Rightarrow> bool" where
  "f2_syntax s \<longleftrightarrow>
     (let t = (if s \<noteq> [] \<and> hd s = CHR ''-'' then tl s else s);
          r = dropWhile is_digit t
      in takeWhile is_digit t \<noteq> [] \<and>
         (case r of [p, d1, d2] \<Rightarrow> p = CHR ''.'' \<and> is_digit d1 \<and> is_digit d2 | _ \<Rightarrow> False))"

declare fmt_v_int_def [go_eval] round_half_even_def [go_eval] two_digits_def [go_eval]
  fmt_f2_def [go_eval]

subsection \<open>\<open>%v\<close> read back by \<open>Atoi\<close>\<close>

lemma int_syntax_fmt_v_int: "int_syntax (fmt_v_int n)"
proof (cases "n < 0")
  case True
  then show ?thesis
    using nat_digits_all_digits [of "nat (- n)"]
    by (simp add: fmt_v_int_def int_syntax_def)
next
  case False
  obtain c cs where d: "nat_digits (nat n) = c # cs"
    by (cases "nat_digits (nat n)") auto
  then have "is_digit c" by (rule nat_digits_hd_digit)
  then have "c \<noteq> CHR ''-''" "c \<noteq> CHR ''+''" by auto
  with False d show ?thesis
    using nat_digits_all_digits [of "nat n"]
    by (simp add: fmt_v_int_def int_syntax_def)
qed

lemma int_value_fmt_v_int: "int_value (fmt_v_int n) = n"
proof (cases "n < 0")
  case True
  then show ?thesis by (simp add: fmt_v_int_def int_value_def)
next
  case False
  obtain c cs where d: "nat_digits (nat n) = c # cs"
    by (cases "nat_digits (nat n)") auto
  then have "is_digit c" by (rule nat_digits_hd_digit)
  then have "c \<noteq> CHR ''-''" "c \<noteq> CHR ''+''" by auto
  moreover have "digits_value 0 (c # cs) = nat n"
    using nat_digits_value [of "nat n"] d by (simp only:)
  ultimately show ?thesis
    using False d by (simp add: fmt_v_int_def int_value_def del: digits_value_Cons)
qed

lemma strconv_Atoi_fmt_v_int: "in_int64 n \<Longrightarrow> strconv_Atoi (fmt_v_int n) = Inr n"
  by (simp add: strconv_Atoi_Inr_iff int_syntax_fmt_v_int int_value_fmt_v_int)

lemma fmt_v_int_chars: "\<not> is_digit c \<Longrightarrow> c \<noteq> CHR ''-'' \<Longrightarrow> c \<notin> set (fmt_v_int n)"
  using nat_digits_all_digits [of "nat (- n)"] nat_digits_all_digits [of "nat n"]
  by (auto simp: fmt_v_int_def)

text \<open>\<open>Atoi\<close> also accepts a plus sign and leading zeros before the digits.\<close>

lemma strconv_Atoi_plus_zeros:
  "0 < n \<Longrightarrow> n \<le> int64_max \<Longrightarrow>
   strconv_Atoi (CHR ''+'' # replicate k CHR ''0'' @ fmt_v_int n) = Inr n"
proof -
  assume n: "0 < n" "n \<le> int64_max"
  have f: "fmt_v_int n = nat_digits (nat n)" using n by (simp add: fmt_v_int_def)
  have ne: "nat_digits (nat n) \<noteq> []" by (rule nat_digits_not_Nil)
  have "int_syntax (CHR ''+'' # replicate k CHR ''0'' @ fmt_v_int n)"
    using nat_digits_all_digits [of "nat n"] ne by (auto simp: int_syntax_def f is_digit_def)
  moreover have "int_value (CHR ''+'' # replicate k CHR ''0'' @ fmt_v_int n) = n"
    using nat_digits_value [of "nat n"] n by (simp add: int_value_def f digits_value_zeros)
  ultimately show ?thesis using n by (simp add: strconv_Atoi_Inr_iff)
qed

text \<open>The decimal text of a number outside \<open>int64\<close> is a range error of \<open>Atoi\<close>.\<close>

lemma parse_uint_nat_digits:
  "parse_uint (nat_digits m) = (if m \<le> uint64_max then Inr m else Inl ErrRange)"
  using parse_uint_loop_digits [OF nat_digits_all_digits, of 0 m]
  by (simp add: parse_uint_def nat_digits_value)

lemma strconv_Atoi_fmt_v_int_range:
  "\<not> in_int64 n \<Longrightarrow> strconv_Atoi (fmt_v_int n) = Inl (NumError ''Atoi'' (fmt_v_int n) ErrRange)"
proof -
  assume n: "\<not> in_int64 n"
  obtain c cs where d: "nat_digits (nat \<bar>n\<bar>) = c # cs" by (cases "nat_digits (nat \<bar>n\<bar>)") auto
  then have "is_digit c" by (rule nat_digits_hd_digit)
  then have sign: "c \<noteq> CHR ''-''" "c \<noteq> CHR ''+''" by auto
  have "parse_int (fmt_v_int n) = Inl ErrRange"
  proof (cases "n < 0")
    case True
    then have "fmt_v_int n = CHR ''-'' # nat_digits (nat \<bar>n\<bar>)" by (simp add: fmt_v_int_def)
    with True n show ?thesis by (simp add: parse_int_def parse_uint_nat_digits)
  next
    case False
    then have "fmt_v_int n = c # cs" using d by (simp add: fmt_v_int_def)
    moreover have "parse_uint (c # cs) = (if nat n \<le> uint64_max then Inr (nat n) else Inl ErrRange)"
      using parse_uint_nat_digits [of "nat n"] d False by simp
    ultimately show ?thesis using False n sign by (simp add: parse_int_def)
  qed
  then show ?thesis by (simp add: strconv_Atoi_parse_int)
qed

subsection \<open>\<open>%.2f\<close> is within half a hundredth\<close>

lemma round_half_even_close: "\<bar>real_of_int (round_half_even x) - x\<bar> \<le> 1 / 2"
proof -
  have fl: "real_of_int \<lfloor>x\<rfloor> \<le> x" "x < real_of_int \<lfloor>x\<rfloor> + 1" by linarith+
  then show ?thesis by (auto simp: round_half_even_def Let_def)
qed

lemma round_half_even_nonneg: "0 \<le> x \<Longrightarrow> 0 \<le> round_half_even x"
  by (auto simp: round_half_even_def Let_def)

lemma fmt_f2_shape:
  "\<exists>q r. fmt_f2 x = (if x < 0 then ''-'' else '''') @ nat_digits q @ ''.'' @ two_digits r
     \<and> r < 100 \<and> \<bar>real q + real r / 100 - \<bar>x\<bar>\<bar> \<le> 1 / 200"
proof -
  let ?m = "round_half_even (\<bar>x\<bar> * 100)"
  let ?n = "nat ?m"
  have m0: "0 \<le> ?m" by (rule round_half_even_nonneg) simp
  have close: "\<bar>real_of_int ?m - \<bar>x\<bar> * 100\<bar> \<le> 1 / 2" by (rule round_half_even_close)
  have n: "real ?n = real_of_int ?m" using m0 by simp
  have e: "real (?n div 100) * 100 + real (?n mod 100) = real ?n"
    by (metis div_mult_mod_eq of_nat_add of_nat_mult of_nat_numeral)
  have split: "real (?n div 100) + real (?n mod 100) / 100 = real ?n / 100"
    using e by (simp add: field_simps)
  have "\<bar>real (?n div 100) + real (?n mod 100) / 100 - \<bar>x\<bar>\<bar> \<le> 1 / 200"
  proof -
    have "\<bar>real ?n / 100 - \<bar>x\<bar>\<bar> \<le> 1 / 200"
      using close n by (simp add: abs_le_iff field_simps)
    then show ?thesis by (simp only: split)
  qed
  then show ?thesis
    by (intro exI [of _ "?n div 100"] exI [of _ "?n mod 100"]) (simp add: fmt_f2_def Let_def)
qed

lemma fmt_f2_pos:
  "0 < x \<Longrightarrow> \<exists>q r. fmt_f2 x = nat_digits q @ ''.'' @ two_digits r
     \<and> r < 100 \<and> \<bar>real q + real r / 100 - x\<bar> \<le> 1 / 200"
  using fmt_f2_shape [of x] by simp


text \<open>Whatever the value, \<open>%.2f\<close> prints a well-formed decimal.\<close>

lemma fmt_f2_syntax: "f2_syntax (fmt_f2 x)"
proof -
  obtain q r where f: "fmt_f2 x = (if x < 0 then ''-'' else '''') @ nat_digits q @ ''.'' @ two_digits r"
    and r: "r < 100"
    using fmt_f2_shape [of x] by blast
  have d: "is_digit (char_of (48 + r div 10))" "is_digit (char_of (48 + r mod 10))"
    using r by simp_all
  have "takeWhile is_digit (nat_digits q @ ''.'' @ two_digits r) = nat_digits q"
    "dropWhile is_digit (nat_digits q @ ''.'' @ two_digits r) = ''.'' @ two_digits r"
    using nat_digits_all_digits [of q] by (simp_all add: takeWhile_append2 dropWhile_append2)
  moreover have "hd (nat_digits q @ ''.'' @ two_digits r) \<noteq> CHR ''-''"
    using nat_digits_all_digits [of q] by (cases "nat_digits q") auto
  ultimately show ?thesis
    using d by (auto simp: f f2_syntax_def two_digits_def Let_def)
qed

end
