(* ===== verification/SpentCalories.thy ===== *)
theory SpentCalories
  imports GoDuration GoStrings GoFmt
begin

text \<open>
  Package \<open>spentcalories\<close> (src/internal/spentcalories/spentcalories.go): its
  constants and error values, the parser \<open>parseTraining\<close>, the calculator
  (\<open>distance\<close>, \<open>meanSpeed\<close>, \<open>RunningSpentCalories\<close>,
  \<open>WalkingSpentCalories\<close>) and the report \<open>TrainingInfo\<close>, with the lemmas that give
  each operation's result on every branch. \<open>TrainingInfo\<close> returns Go's pair
  \<open>(string, error)\<close> as a result together with the errors it logs, in order.
\<close>

subsection \<open>Constants and error values\<close>

definition lenStep :: float64 where "lenStep = 0.65"
definition mInKm :: float64 where "mInKm = 1000"
definition minInH :: float64 where "minInH = 60"
definition stepLengthCoefficient :: float64 where "stepLengthCoefficient = 0.45"
definition walkingCaloriesCoefficient :: float64 where "walkingCaloriesCoefficient = 0.5"

declare mInKm_def [go_consts] minInH_def [go_consts]
  stepLengthCoefficient_def [go_consts] walkingCaloriesCoefficient_def [go_consts]

text \<open>
  The error variables. The message of \<open>ErrInvalidArgumentCount\<close> says two arguments,
  although \<open>parseTraining\<close> raises it for every count other than three.
\<close>

definition sc_ErrInvalidArgumentCount :: go_error where
  "sc_ErrInvalidArgumentCount = ErrorsNew PkgSpentcalories ''expected 2 arguments''"
definition sc_ErrZeroSteps :: go_error where
  "sc_ErrZeroSteps = ErrorsNew PkgSpentcalories ''steps must be greater than zero''"
definition sc_ErrZeroDuration :: go_error where
  "sc_ErrZeroDuration = ErrorsNew PkgSpentcalories ''duration must be greater than zero''"
definition sc_ErrZeroWeight :: go_error where
  "sc_ErrZeroWeight = ErrorsNew PkgSpentcalories ''weight must be greater than zero''"
definition sc_ErrZeroHeigth :: go_error where
  "sc_ErrZeroHeigth = ErrorsNew PkgSpentcalories ''height must be greater than zero''"
definition sc_ErrUnknownTraining :: go_error where
  "sc_ErrUnknownTraining = ErrorsNew PkgSpentcalories
     ([CHR 0xD0, CHR 0xBD, CHR 0xD0, CHR 0xB5, CHR 0xD0, CHR 0xB8, CHR 0xD0, CHR 0xB7,
       CHR 0xD0, CHR 0xB2, CHR 0xD0, CHR 0xB5, CHR 0xD1, CHR 0x81, CHR 0xD1, CHR 0x82,
       CHR 0xD0, CHR 0xBD, CHR 0xD1, CHR 0x8B, CHR 0xD0, CHR 0xB9] @ '' '' @
      [CHR 0xD1, CHR 0x82, CHR 0xD0, CHR 0xB8, CHR 0xD0, CHR 0xBF] @ '' '' @
      [CHR 0xD1, CHR 0x82, CHR 0xD1, CHR 0x80, CHR 0xD0, CHR 0xB5, CHR 0xD0, CHR 0xBD,
       CHR 0xD0, CHR 0xB8, CHR 0xD1, CHR 0x80, CHR 0xD0, CHR 0xBE, CHR 0xD0, CHR 0xB2,
       CHR 0xD0, CHR 0xBA, CHR 0xD0, CHR 0xB8])"

lemmas sc_errors = sc_ErrInvalidArgumentCount_def sc_ErrZeroSteps_def sc_ErrZeroDuration_def
  sc_ErrZeroWeight_def sc_ErrZeroHeigth_def sc_ErrUnknownTraining_def

subsection \<open>The calculator\<close>

definition distance :: "go_int \<Rightarrow> float64 \<Rightarrow> float64" where
  "distance steps height =
     (let stepLength = stepLengthCoefficient * height;
          pathLength = stepLength * real_of_int steps
      in pathLength / mInKm)"

definition meanSpeed :: "go_int \<Rightarrow> float64 \<Rightarrow> duration \<Rightarrow> float64" where
  "meanSpeed steps height dur =
     (if dur \<le> 0 then 0
      else let totalDistance = distance steps height
           in totalDistance / duration_Hours dur)"

definition RunningSpentCalories ::
  "go_int \<Rightarrow> float64 \<Rightarrow> float64 \<Rightarrow> duration \<Rightarrow> float64 result" where
  "RunningSpentCalories steps weight height dur =
     (if steps \<le> 0 then Inl sc_ErrZeroSteps
      else if weight \<le> 0 then Inl sc_ErrZeroWeight
      else if height \<le> 0 then Inl sc_ErrZeroHeigth
      else if dur \<le> 0 then Inl sc_ErrZeroDuration
      else
        let speedAvg = meanSpeed steps height dur;
            durationInMinutes = duration_Minutes dur;
            calories = (weight * speedAvg * durationInMinutes) / minInH
        in Inr calories)"

definition WalkingSpentCalories ::
  "go_int \<Rightarrow> float64 \<Rightarrow> float64 \<Rightarrow> duration \<Rightarrow> float64 result" where
  "WalkingSpentCalories steps weight height dur =
     (case RunningSpentCalories steps weight height dur of
        Inl err \<Rightarrow> Inl err
      | Inr cal \<Rightarrow> Inr (cal * walkingCaloriesCoefficient))"

subsection \<open>The parser\<close>

text \<open>
  \<open>parseTraining\<close>: split on commas, exactly three fields, the steps by
  \<open>strconv.Atoi\<close> and positive, the duration by \<open>time.ParseDuration\<close> and positive;
  the label is passed through. The indexing \<open>dataSlice[i]\<close> is in range after the
  length check.
\<close>

definition parseTraining :: "go_string \<Rightarrow> (go_int \<times> go_string \<times> duration) result" where
  "parseTraining data =
     (let dataSlice = strings_Split CHR '','' data in
      if length dataSlice \<noteq> 3 then Inl sc_ErrInvalidArgumentCount
      else case strconv_Atoi (dataSlice ! 0) of
        Inl err \<Rightarrow> Inl err
      | Inr steps \<Rightarrow>
          if steps \<le> 0 then Inl sc_ErrZeroSteps
          else case time_ParseDuration (dataSlice ! 2) of
            Inl err \<Rightarrow> Inl err
          | Inr totalTime \<Rightarrow>
              if totalTime \<le> 0 then Inl sc_ErrZeroDuration
              else Inr (steps, dataSlice ! 1, totalTime))"

subsection \<open>The report\<close>

text \<open>The two labels of the \<open>switch\<close>, walking and running, in UTF-8.\<close>

definition label_Walking :: go_string where
  "label_Walking = [CHR 0xD0, CHR 0xA5, CHR 0xD0, CHR 0xBE, CHR 0xD0, CHR 0xB4, CHR 0xD1, CHR 0x8C,
     CHR 0xD0, CHR 0xB1, CHR 0xD0, CHR 0xB0]"

definition label_Running :: go_string where
  "label_Running = [CHR 0xD0, CHR 0x91, CHR 0xD0, CHR 0xB5, CHR 0xD0, CHR 0xB3]"

text \<open>The fixed text of the five \<open>Sprintf\<close> formats, in UTF-8.\<close>

abbreviation txt_type :: go_string where
  "txt_type \<equiv> [CHR 0xD0, CHR 0xA2, CHR 0xD0, CHR 0xB8, CHR 0xD0, CHR 0xBF] @ '' '' @
     [CHR 0xD1, CHR 0x82, CHR 0xD1, CHR 0x80, CHR 0xD0, CHR 0xB5, CHR 0xD0, CHR 0xBD, CHR 0xD0,
      CHR 0xB8, CHR 0xD1, CHR 0x80, CHR 0xD0, CHR 0xBE, CHR 0xD0, CHR 0xB2, CHR 0xD0, CHR 0xBA,
      CHR 0xD0, CHR 0xB8] @ '': ''"

abbreviation txt_duration :: go_string where
  "txt_duration \<equiv> [CHR 0xD0, CHR 0x94, CHR 0xD0, CHR 0xBB, CHR 0xD0, CHR 0xB8, CHR 0xD1, CHR 0x82,
     CHR 0xD0, CHR 0xB5, CHR 0xD0, CHR 0xBB, CHR 0xD1, CHR 0x8C, CHR 0xD0, CHR 0xBD, CHR 0xD0,
     CHR 0xBE, CHR 0xD1, CHR 0x81, CHR 0xD1, CHR 0x82, CHR 0xD1, CHR 0x8C] @ '': ''"

abbreviation txt_hours :: go_string where
  "txt_hours \<equiv> '' '' @ [CHR 0xD1, CHR 0x87] @ ''.'' @ [CHR 0x0A]"

abbreviation txt_distance :: go_string where
  "txt_distance \<equiv> [CHR 0xD0, CHR 0x94, CHR 0xD0, CHR 0xB8, CHR 0xD1, CHR 0x81, CHR 0xD1, CHR 0x82,
     CHR 0xD0, CHR 0xB0, CHR 0xD0, CHR 0xBD, CHR 0xD1, CHR 0x86, CHR 0xD0, CHR 0xB8, CHR 0xD1,
     CHR 0x8F] @ '': ''"

abbreviation txt_km :: go_string where
  "txt_km \<equiv> '' '' @ [CHR 0xD0, CHR 0xBA, CHR 0xD0, CHR 0xBC] @ ''.'' @ [CHR 0x0A]"

abbreviation txt_speed :: go_string where
  "txt_speed \<equiv> [CHR 0xD0, CHR 0xA1, CHR 0xD0, CHR 0xBA, CHR 0xD0, CHR 0xBE, CHR 0xD1, CHR 0x80,
     CHR 0xD0, CHR 0xBE, CHR 0xD1, CHR 0x81, CHR 0xD1, CHR 0x82, CHR 0xD1, CHR 0x8C] @ '': ''"

abbreviation txt_kmh :: go_string where
  "txt_kmh \<equiv> '' '' @ [CHR 0xD0, CHR 0xBA, CHR 0xD0, CHR 0xBC] @ ''/'' @ [CHR 0xD1, CHR 0x87, CHR 0x0A]"

abbreviation txt_calories :: go_string where
  "txt_calories \<equiv> [CHR 0xD0, CHR 0xA1, CHR 0xD0, CHR 0xBE, CHR 0xD0, CHR 0xB6, CHR 0xD0, CHR 0xB3,
     CHR 0xD0, CHR 0xBB, CHR 0xD0, CHR 0xB8] @ '' '' @ [CHR 0xD0, CHR 0xBA, CHR 0xD0, CHR 0xB0,
     CHR 0xD0, CHR 0xBB, CHR 0xD0, CHR 0xBE, CHR 0xD1, CHR 0x80, CHR 0xD0, CHR 0xB8, CHR 0xD0,
     CHR 0xB9] @ '': ''"

text \<open>The five lines appended to \<open>result := ""\<close>.\<close>

definition trainingReport ::
  "go_string \<Rightarrow> duration \<Rightarrow> float64 \<Rightarrow> float64 \<Rightarrow> float64 \<Rightarrow> go_string" where
  "trainingReport trainingType dur km speedAvg totalCalories =
     '''' @ (txt_type @ trainingType @ [CHR 0x0A])
        @ (txt_duration @ fmt_f2 (duration_Hours dur) @ txt_hours)
        @ (txt_distance @ fmt_f2 km @ txt_km)
        @ (txt_speed @ fmt_f2 speedAvg @ txt_kmh)
        @ (txt_calories @ fmt_f2 totalCalories @ [CHR 0x0A])"

text \<open>
  \<open>TrainingInfo\<close>: a parse error is logged and returned; otherwise the label selects
  the calorie formula, whose error is returned without logging, and any other label is
  \<open>ErrUnknownTraining\<close>, also not logged.
\<close>

text \<open>
  The \<open>switch trainingType\<close> of \<open>TrainingInfo\<close>: the walking or the running formula
  by the Russian label, \<open>ErrUnknownTraining\<close> for any other.
\<close>

definition trainingCalories ::
  "go_string \<Rightarrow> go_int \<Rightarrow> float64 \<Rightarrow> float64 \<Rightarrow> duration \<Rightarrow> float64 result" where
  "trainingCalories trainingType steps weight height dur =
     (if trainingType = label_Walking then WalkingSpentCalories steps weight height dur
      else if trainingType = label_Running then RunningSpentCalories steps weight height dur
      else Inl sc_ErrUnknownTraining)"

definition TrainingInfo ::
  "go_string \<Rightarrow> float64 \<Rightarrow> float64 \<Rightarrow> go_string result \<times> go_error list" where
  "TrainingInfo data weight height =
     (case parseTraining data of
        Inl err \<Rightarrow> (Inl err, [err])
      | Inr (steps, trainingType, dur) \<Rightarrow>
          (case trainingCalories trainingType steps weight height dur of
             Inl err \<Rightarrow> (Inl err, [])
           | Inr totalCalories \<Rightarrow>
               (let km = distance steps height;
                    speedAvg = meanSpeed steps height dur
                in (Inr (trainingReport trainingType dur km speedAvg totalCalories), []))))"

subsection \<open>Closed forms of the calculator\<close>

lemma distance_eq: "distance steps height = 9 / 20000 * height * real_of_int steps"
  by (simp add: distance_def go_consts)

lemma meanSpeed_pos_eq:
  "0 < dur \<Longrightarrow> meanSpeed steps height dur
     = distance steps height * 3600000000000 / real_of_int dur"
  by (simp add: meanSpeed_def duration_Hours_eq)

text \<open>
  The calorie formula \<open>weight * speed * minutes / 60\<close> with \<open>speed = km / hours\<close>:
  the duration cancels, and what is left is weight times distance.
\<close>

lemma running_formula_cancels:
  assumes "0 < dur"
  shows "weight * meanSpeed steps height dur * duration_Minutes dur / minInH
         = weight * distance steps height"
proof -
  have "real_of_int dur \<noteq> 0" using assms by simp
  then show ?thesis
    using assms by (simp add: meanSpeed_pos_eq duration_Minutes_eq minInH_def field_simps)
qed

text \<open>Every guard passed: the result is weight times distance.\<close>

lemma RunningSpentCalories_pos:
  assumes "0 < steps" "0 < weight" "0 < height" "0 < dur"
  shows "RunningSpentCalories steps weight height dur = Inr (weight * distance steps height)"
  using assms running_formula_cancels [of dur weight steps height]
  by (simp add: RunningSpentCalories_def Let_def)

lemma WalkingSpentCalories_Inr_iff:
  "WalkingSpentCalories steps weight height dur = Inr c \<longleftrightarrow>
   (\<exists>r. RunningSpentCalories steps weight height dur = Inr r \<and> c = r / 2)"
  by (auto simp: WalkingSpentCalories_def walkingCaloriesCoefficient_def split: sum.splits)

lemma WalkingSpentCalories_Inl_iff:
  "WalkingSpentCalories steps weight height dur = Inl e \<longleftrightarrow>
   RunningSpentCalories steps weight height dur = Inl e"
  by (auto simp: WalkingSpentCalories_def split: sum.splits)

lemma RunningSpentCalories_guard:
  "(\<exists>c. RunningSpentCalories steps weight height dur = Inr c) \<longleftrightarrow>
   0 < steps \<and> 0 < weight \<and> 0 < height \<and> 0 < dur"
  by (auto simp: RunningSpentCalories_def Let_def)

lemma distance_pos: "0 < steps \<Longrightarrow> 0 < height \<Longrightarrow> 0 < distance steps height"
  by (simp add: distance_eq)

lemmas calculator_simps = distance_eq meanSpeed_pos_eq RunningSpentCalories_pos

subsection \<open>The parser on every branch\<close>

lemma sc_errors_distinct [simp]:
  "sc_ErrInvalidArgumentCount \<noteq> sc_ErrZeroSteps" "sc_ErrInvalidArgumentCount \<noteq> sc_ErrZeroDuration"
  "sc_ErrZeroSteps \<noteq> sc_ErrZeroDuration" "sc_ErrUnknownTraining \<noteq> sc_ErrInvalidArgumentCount"
  "sc_ErrZeroSteps \<noteq> sc_ErrInvalidArgumentCount" "sc_ErrZeroDuration \<noteq> sc_ErrInvalidArgumentCount"
  "sc_ErrZeroDuration \<noteq> sc_ErrZeroSteps" "sc_ErrInvalidArgumentCount \<noteq> sc_ErrUnknownTraining"
  "sc_ErrInvalidArgumentCount \<noteq> NumError f n k" "sc_ErrInvalidArgumentCount \<noteq> DurationError k' s"
  "NumError f n k \<noteq> sc_ErrInvalidArgumentCount" "DurationError k' s \<noteq> sc_ErrInvalidArgumentCount"
  by (simp_all add: sc_errors)

lemma parseTraining_arity:
  "length (strings_Split CHR '','' s) \<noteq> 3 \<Longrightarrow> parseTraining s = Inl sc_ErrInvalidArgumentCount"
  by (simp add: parseTraining_def)

lemma parseTraining_fields:
  "strings_Split CHR '','' s = [a, l, b] \<Longrightarrow>
   parseTraining s =
     (case strconv_Atoi a of
        Inl e \<Rightarrow> Inl e
      | Inr n \<Rightarrow>
          if n \<le> 0 then Inl sc_ErrZeroSteps
          else case time_ParseDuration b of
            Inl e \<Rightarrow> Inl e
          | Inr d \<Rightarrow> if d \<le> 0 then Inl sc_ErrZeroDuration else Inr (n, l, d))"
  by (simp add: parseTraining_def Let_def cong: sum.case_cong if_cong)

lemma length_3_cases: "length xs = 3 \<Longrightarrow> \<exists>a b c. xs = [a, b, c]"
  by (auto simp: numeral_3_eq_3 length_Suc_conv)

lemma parseTraining_Inr_fields:
  "parseTraining s = Inr (n, l, d) \<Longrightarrow>
   \<exists>a b. strings_Split CHR '','' s = [a, l, b] \<and>
     strconv_Atoi a = Inr n \<and> 0 < n \<and> time_ParseDuration b = Inr d \<and> 0 < d"
proof -
  assume ok: "parseTraining s = Inr (n, l, d)"
  then have "length (strings_Split CHR '','' s) = 3"
    using parseTraining_arity by fastforce
  then obtain a l' b where sp: "strings_Split CHR '','' s = [a, l', b]"
    using length_3_cases by blast
  with ok have "strconv_Atoi a = Inr n \<and> 0 < n \<and> time_ParseDuration b = Inr d \<and> 0 < d \<and> l' = l"
    by (auto simp: parseTraining_fields split: sum.splits if_splits)
  with sp show ?thesis by blast
qed

text \<open>The decimal text of a positive number followed by \<open>m\<close> is that many minutes.\<close>

lemma time_ParseDuration_minutes:
  assumes "0 < m" and "m * 60000000000 < 2 ^ 63"
  shows "time_ParseDuration (fmt_v_int m @ ''m'') = Inr (m * 60000000000)"
proof -
  have f: "fmt_v_int m = nat_digits (nat m)" using assms(1) by (simp add: fmt_v_int_def)
  have u: "\<forall>c \<in> set ''m''. unit_char c" "unitMap ''m'' = Some 60000000000"
    by (simp_all add: unit_char_def is_digit_def unitMap_def duration_units)
  have b: "digits_value 0 (nat_digits (nat m)) * 60000000000 < 2 ^ 63"
    using assms by (simp add: nat_mult_distrib [symmetric] nat_less_iff)
  have "time_ParseDuration (nat_digits (nat m) @ ''m'') = Inr (int (nat m * 60000000000))"
    using time_ParseDuration_digits_unit [OF _ nat_digits_all_digits _ u b] by simp
  then show ?thesis using assms(1) f by simp
qed

lemma fmt_v_int_no_comma: "CHR '','' \<notin> set (fmt_v_int n)"
  using nat_digits_all_digits [of "nat (- n)"] nat_digits_all_digits [of "nat n"]
  by (auto simp: fmt_v_int_def)

lemmas parser_simps = parseTraining_fields strings_Split_two strings_Split_three fmt_v_int_no_comma

subsection \<open>The report on every branch\<close>

lemma TrainingInfo_parse_error:
  "parseTraining data = Inl e \<Longrightarrow> TrainingInfo data weight height = (Inl e, [e])"
  by (simp add: TrainingInfo_def trainingCalories_def)

lemma TrainingInfo_parsed:
  "parseTraining data = Inr (steps, label, dur) \<Longrightarrow>
   TrainingInfo data weight height =
     (case trainingCalories label steps weight height dur of
        Inl err \<Rightarrow> (Inl err, [])
      | Inr c \<Rightarrow> (Inr (trainingReport label dur (distance steps height)
                      (meanSpeed steps height dur) c), []))"
  by (simp add: TrainingInfo_def Let_def split: sum.split)

lemma label_Walking_ne_Running [simp]:
  "label_Walking \<noteq> label_Running" "label_Running \<noteq> label_Walking"
  by (simp_all add: label_Walking_def label_Running_def)

lemmas report_simps = TrainingInfo_parse_error TrainingInfo_parsed trainingCalories_def

subsection \<open>Properties of the calculator\<close>

text \<open>
  C1. When steps, weight, height and duration are all positive, \<open>RunningSpentCalories\<close>
  succeeds and its result is weight (kg) times the height-scaled distance (km): the
  duration, which enters the formula twice (as hours in the speed and as minutes),
  cancels out.
\<close>

theorem running_calories_weight_distance:
  assumes "0 < steps" and "0 < weight" and "0 < height" and "0 < dur"
  shows "RunningSpentCalories steps weight height dur = Inr (weight * distance steps height)"
  using assms running_formula_cancels [of dur weight steps height]
  by (simp add: RunningSpentCalories_def Let_def)

theorem running_calories_weight_distance_witness:
  "RunningSpentCalories 1000 70 1.75 600000000000 = Inr (70 * distance 1000 1.75)
   \<and> distance 1000 1.75 = 0.7875"
  using running_calories_weight_distance [of 1000 70 "1.75" 600000000000]
  by (simp add: distance_eq)

text \<open>
  C2. On valid inputs walking burns exactly half of what running burns:
  \<open>WalkingSpentCalories\<close> succeeds with half of the positive result of
  \<open>RunningSpentCalories\<close>.
\<close>

theorem walking_calories_half_running:
  assumes "0 < steps" and "0 < weight" and "0 < height" and "0 < dur"
  shows "\<exists>c. RunningSpentCalories steps weight height dur = Inr c
           \<and> WalkingSpentCalories steps weight height dur = Inr (c / 2) \<and> 0 < c"
proof -
  have r: "RunningSpentCalories steps weight height dur = Inr (weight * distance steps height)"
    using assms by (rule RunningSpentCalories_pos)
  moreover have "0 < weight * distance steps height"
    using assms by (simp add: distance_pos)
  ultimately show ?thesis by (simp add: WalkingSpentCalories_def go_consts)
qed

theorem walking_calories_half_running_witness:
  "RunningSpentCalories 1000 70 1.75 600000000000 = Inr 55.125
   \<and> WalkingSpentCalories 1000 70 1.75 600000000000 = Inr (55.125 / 2)"
proof -
  obtain c where "RunningSpentCalories 1000 70 1.75 600000000000 = Inr c"
    and "WalkingSpentCalories 1000 70 1.75 600000000000 = Inr (c / 2)"
    using walking_calories_half_running [of 1000 70 "1.75" 600000000000] by auto
  moreover have "RunningSpentCalories 1000 70 1.75 600000000000 = Inr 55.125"
    by (simp add: RunningSpentCalories_pos distance_eq)
  ultimately show ?thesis by simp
qed

text \<open>
  C3. Both calorie functions fail exactly when an input is not positive, with the error
  of the first failing check in the order steps, weight, height, duration; walking
  reports the error of running unchanged.
\<close>

theorem calories_first_failing_check:
  "(RunningSpentCalories steps weight height dur = Inl e \<longleftrightarrow>
      (if steps \<le> 0 then e = sc_ErrZeroSteps
       else if weight \<le> 0 then e = sc_ErrZeroWeight
       else if height \<le> 0 then e = sc_ErrZeroHeigth
       else dur \<le> 0 \<and> e = sc_ErrZeroDuration))
   \<and> (WalkingSpentCalories steps weight height dur = Inl e \<longleftrightarrow>
        RunningSpentCalories steps weight height dur = Inl e)"
  by (auto simp: RunningSpentCalories_def Let_def WalkingSpentCalories_Inl_iff)

subsection \<open>Properties of the parser and the report\<close>



text \<open>
  C6. A record that parses but whose label is neither walking nor running is rejected
  with \<open>ErrUnknownTraining\<close>, and nothing is logged. The labels are the Russian
  words, so the specification's example \<open>"3456,Running,45m"\<close> is such a record.
\<close>

theorem trainingInfo_unknown_label:
  assumes "parseTraining data = Inr (steps, label, dur)"
    and "label \<noteq> label_Walking" and "label \<noteq> label_Running"
  shows "TrainingInfo data weight height = (Inl sc_ErrUnknownTraining, [])"
  using assms by (simp add: TrainingInfo_def trainingCalories_def)

theorem trainingInfo_unknown_label_witness:
  "TrainingInfo ''3456,Running,45m'' 70 1.75 = (Inl sc_ErrUnknownTraining, [])"
proof -
  have p: "parseTraining ''3456,Running,45m'' = Inr (3456, ''Running'', 2700000000000)"
    by (simp add: parseTraining_def go_eval duration_units Let_def)
  have "''Running'' \<noteq> label_Walking" "''Running'' \<noteq> label_Running"
    by (simp_all add: label_Walking_def label_Running_def)
  with p show ?thesis by (rule trainingInfo_unknown_label)
qed

text \<open>
  C7. \<open>parseTraining\<close> accepts exactly the records of three comma-free fields whose
  first field \<open>strconv.Atoi\<close> reads as a positive number of steps and whose last field
  \<open>time.ParseDuration\<close> reads as a positive duration; the middle field is returned
  as the label, uninterpreted.
\<close>

theorem parseTraining_accepts:
  "parseTraining s = Inr (n, l, d) \<longleftrightarrow>
   (\<exists>a b. s = a @ CHR '','' # l @ CHR '','' # b \<and>
      CHR '','' \<notin> set a \<and> CHR '','' \<notin> set l \<and> CHR '','' \<notin> set b \<and>
      strconv_Atoi a = Inr n \<and> 0 < n \<and> time_ParseDuration b = Inr d \<and> 0 < d)"
proof
  assume ok: "parseTraining s = Inr (n, l, d)"
  then have "length (strings_Split CHR '','' s) = 3"
    using parseTraining_arity by fastforce
  then obtain a l' b where sp0: "strings_Split CHR '','' s = [a, l', b]"
    using length_3_cases by blast
  have "strconv_Atoi a = Inr n \<and> 0 < n \<and> time_ParseDuration b = Inr d \<and> 0 < d \<and> l' = l"
    using ok sp0 unfolding parseTraining_def Let_def by (simp split: sum.splits if_splits)
  with sp0 have sp: "strings_Split CHR '','' s = [a, l, b]"
    and v: "strconv_Atoi a = Inr n" "0 < n" "time_ParseDuration b = Inr d" "0 < d" by simp_all
  with strings_Split_eq_three [OF sp] show "\<exists>a b. s = a @ CHR '','' # l @ CHR '','' # b \<and>
      CHR '','' \<notin> set a \<and> CHR '','' \<notin> set l \<and> CHR '','' \<notin> set b \<and>
      strconv_Atoi a = Inr n \<and> 0 < n \<and> time_ParseDuration b = Inr d \<and> 0 < d" by blast
next
  assume "\<exists>a b. s = a @ CHR '','' # l @ CHR '','' # b \<and>
      CHR '','' \<notin> set a \<and> CHR '','' \<notin> set l \<and> CHR '','' \<notin> set b \<and>
      strconv_Atoi a = Inr n \<and> 0 < n \<and> time_ParseDuration b = Inr d \<and> 0 < d"
  then obtain a b where s: "s = a @ CHR '','' # l @ CHR '','' # b"
    and nc: "CHR '','' \<notin> set a" "CHR '','' \<notin> set l" "CHR '','' \<notin> set b"
    and v: "strconv_Atoi a = Inr n" "0 < n" "time_ParseDuration b = Inr d" "0 < d" by blast
  have "strings_Split CHR '','' s = [a, l, b]"
    using s nc by (simp add: strings_Split_three)
  with v show "parseTraining s = Inr (n, l, d)" unfolding parseTraining_def Let_def by simp
qed

text \<open>
  C9. \<open>parseTraining\<close> fails with \<open>ErrInvalidArgumentCount\<close> exactly when the
  record does not have two commas (three fields); no other failure produces this error.
\<close>

theorem parseTraining_wrong_arity:
  "parseTraining s = Inl sc_ErrInvalidArgumentCount \<longleftrightarrow> count_list s CHR '','' \<noteq> 2"
proof
  assume e: "parseTraining s = Inl sc_ErrInvalidArgumentCount"
  show "count_list s CHR '','' \<noteq> 2"
  proof
    assume "count_list s CHR '','' = 2"
    then have "length (strings_Split CHR '','' s) = 3" by (simp add: length_strings_Split)
    then obtain a l b where sp: "strings_Split CHR '','' s = [a, l, b]"
      using length_3_cases by blast
    from e show False
      by (auto simp: parseTraining_fields [OF sp] split: sum.splits if_splits
          dest!: strconv_Atoi_Inl time_ParseDuration_Inl)
  qed
next
  assume "count_list s CHR '','' \<noteq> 2"
  then show "parseTraining s = Inl sc_ErrInvalidArgumentCount"
    by (simp add: parseTraining_def length_strings_Split)
qed

text \<open>
  C14. A parsed record with the walking or the running label, a positive weight and a
  positive height produces the five-line report and logs nothing: the label, the
  duration in hours, the height-scaled distance, the mean speed, and the calories,
  weight times distance for running and half of it for walking.
\<close>

theorem trainingInfo_report:
  assumes "parseTraining data = Inr (steps, label, dur)"
    and "label = label_Walking \<or> label = label_Running"
    and "0 < weight" and "0 < height"
  shows "TrainingInfo data weight height =
    (Inr (trainingReport label dur (distance steps height) (meanSpeed steps height dur)
       (if label = label_Walking then weight * distance steps height / 2
        else weight * distance steps height)), [])"
proof -
  from assms(1) obtain a b where "strconv_Atoi a = Inr steps" "0 < steps"
    "time_ParseDuration b = Inr dur" "0 < dur"
    using parseTraining_Inr_fields by blast
  then have r: "RunningSpentCalories steps weight height dur = Inr (weight * distance steps height)"
    using assms(3,4) by (simp add: RunningSpentCalories_pos)
  then have "WalkingSpentCalories steps weight height dur = Inr (weight * distance steps height / 2)"
    by (simp add: WalkingSpentCalories_Inr_iff)
  with r assms(1,2) show ?thesis by (auto simp: TrainingInfo_def trainingCalories_def)
qed

theorem trainingInfo_report_witness:
  "TrainingInfo (''1000,'' @ label_Running @ '',10m'') 70 1.75 =
    (Inr (trainingReport label_Running 600000000000 (distance 1000 1.75)
       (meanSpeed 1000 1.75 600000000000) (70 * distance 1000 1.75)), [])"
proof -
  have p: "parseTraining (''1000,'' @ label_Running @ '',10m'') = Inr (1000, label_Running, 600000000000)"
    by (simp add: parseTraining_def go_eval duration_units label_Running_def Let_def)
  show ?thesis using trainingInfo_report [OF p, of 70 "1.75"] by simp
qed

subsection \<open>Bounds, speed and the parser's range\<close>

text \<open>
  C18. A record written as the decimal steps, a comma-free label and a whole number of
  minutes parses back to those values: \<open>parseTraining\<close> inverts the format
  \<open>"%v,%s,%vm"\<close> on positive steps and durations in range.
\<close>

theorem parseTraining_roundtrip:
  assumes "0 < n" and "n \<le> int64_max" and "CHR '','' \<notin> set l"
    and "0 < m" and "m * 60000000000 < 2 ^ 63"
  shows "parseTraining (fmt_v_int n @ CHR '','' # l @ CHR '','' # fmt_v_int m @ ''m'')
         = Inr (n, l, m * 60000000000)"
proof -
  have "strings_Split CHR '','' (fmt_v_int n @ CHR '','' # l @ CHR '','' # fmt_v_int m @ ''m'')
        = [fmt_v_int n, l, fmt_v_int m @ ''m'']"
    using assms(3) by (simp add: strings_Split_three fmt_v_int_no_comma)
  moreover have "strconv_Atoi (fmt_v_int n) = Inr n"
    using assms(1,2) by (simp add: strconv_Atoi_fmt_v_int)
  moreover have "time_ParseDuration (fmt_v_int m @ ''m'') = Inr (m * 60000000000)"
    using assms(4,5) by (rule time_ParseDuration_minutes)
  ultimately show ?thesis using assms(1,4) by (simp add: parseTraining_fields)
qed

theorem parseTraining_roundtrip_witness:
  "parseTraining (fmt_v_int 3456 @ CHR '','' # label_Running @ CHR '','' # fmt_v_int 45 @ ''m'')
   = Inr (3456, label_Running, 2700000000000)"
  using parseTraining_roundtrip [of 3456 label_Running 45] by (simp add: label_Running_def)

text \<open>
  C21. The duration line of a training report prints the parsed duration in hours to
  within half a hundredth: the nanoseconds divided by \<open>3.6e12\<close>, as \<open>Duration.Hours\<close>
  computes them, rounded by \<open>%.2f\<close>.
\<close>

theorem trainingInfo_duration_precision:
  assumes "parseTraining data = Inr (steps, label, dur)"
    and "fst (TrainingInfo data weight height) = Inr out"
  shows "\<exists>q r rest. out = txt_type @ label @ [CHR 0x0A] @ txt_duration
           @ nat_digits q @ ''.'' @ two_digits r @ txt_hours @ rest
         \<and> r < 100 \<and> \<bar>real q + real r / 100 - real_of_int dur / 3600000000000\<bar> \<le> 1 / 200"
proof -
  obtain c where out: "out = trainingReport label dur (distance steps height)
      (meanSpeed steps height dur) c"
    using assms by (auto simp: TrainingInfo_parsed trainingCalories_def split: if_splits sum.splits)
  have "0 < dur" using parseTraining_Inr_fields [OF assms(1)] by blast
  then have "0 < real_of_int dur / 3600000000000" by simp
  then obtain q r where f: "fmt_f2 (real_of_int dur / 3600000000000) = nat_digits q @ ''.'' @ two_digits r"
    and b: "r < 100" "\<bar>real q + real r / 100 - real_of_int dur / 3600000000000\<bar> \<le> 1 / 200"
    using fmt_f2_pos by blast
  have "out = txt_type @ label @ [CHR 0x0A] @ txt_duration
           @ nat_digits q @ ''.'' @ two_digits r @ txt_hours
           @ (txt_distance @ fmt_f2 (distance steps height) @ txt_km)
           @ (txt_speed @ fmt_f2 (meanSpeed steps height dur) @ txt_kmh)
           @ (txt_calories @ fmt_f2 c @ [CHR 0x0A])"
    by (simp add: out trainingReport_def duration_Hours_eq f)
  with b show ?thesis by blast
qed

theorem trainingInfo_duration_precision_witness:
  "\<exists>q r rest. trainingReport label_Running 600000000000 (distance 1000 1.75)
       (meanSpeed 1000 1.75 600000000000) (70 * distance 1000 1.75)
     = txt_type @ label_Running @ [CHR 0x0A] @ txt_duration
           @ nat_digits q @ ''.'' @ two_digits r @ txt_hours @ rest
     \<and> r < 100 \<and> \<bar>real q + real r / 100 - real_of_int 600000000000 / 3600000000000\<bar> \<le> 1 / 200"
proof -
  have p: "parseTraining (''1000,'' @ label_Running @ '',10m'') = Inr (1000, label_Running, 600000000000)"
    by (simp add: parseTraining_def go_eval duration_units label_Running_def Let_def)
  have "RunningSpentCalories 1000 70 1.75 600000000000 = Inr (70 * distance 1000 1.75)"
    by (rule RunningSpentCalories_pos) simp_all
  then have t: "fst (TrainingInfo (''1000,'' @ label_Running @ '',10m'') 70 1.75) =
      Inr (trainingReport label_Running 600000000000 (distance 1000 1.75)
       (meanSpeed 1000 1.75 600000000000) (70 * distance 1000 1.75))"
    unfolding TrainingInfo_parsed [OF p] by (simp add: trainingCalories_def)
  show ?thesis by (rule trainingInfo_duration_precision [OF p t])
qed

text \<open>
  C22. What \<open>parseTraining\<close> returns is in range: the steps are a positive Go
  \<open>int\<close> and the duration a positive \<open>int64\<close> number of nanoseconds.
\<close>

theorem parseTraining_bounds:
  assumes "parseTraining s = Inr (n, l, d)"
  shows "0 < n \<and> n \<le> int64_max \<and> 0 < d \<and> d \<le> int64_max"
proof -
  from assms obtain a b where "strconv_Atoi a = Inr n" "0 < n"
    "time_ParseDuration b = Inr d" "0 < d"
    using parseTraining_Inr_fields by blast
  then show ?thesis by (auto simp: strconv_Atoi_Inr_iff dest: time_ParseDuration_range)
qed

theorem parseTraining_bounds_witness:
  "0 < (3456::int) \<and> 3456 \<le> int64_max \<and> 0 < (2700000000000::int) \<and> 2700000000000 \<le> int64_max"
proof -
  have p: "parseTraining ''3456,x,45m'' = Inr (3456, ''x'', 2700000000000)"
    by (simp add: parseTraining_def go_eval duration_units Let_def)
  show ?thesis using parseTraining_bounds [OF p] by simp
qed

end
