(* ===== verification/Daysteps.thy ===== *)
theory Daysteps
  imports SpentCalories
begin

text \<open>
  Package \<open>daysteps\<close> (src/internal/daysteps/daysteps.go): the daily record
  \<open>"<steps>,<duration>"\<close>, its parser \<open>parsePackage\<close> and the report
  \<open>DayActionInfo\<close>, which computes the distance with the fixed step length and the
  calories with \<open>spentcalories.WalkingSpentCalories\<close>. \<open>DayActionInfo\<close> returns a
  string only, the empty one on every error; the model returns it together with the
  errors it logs. The package's names that clash with \<open>spentcalories\<close> carry the
  prefix \<open>ds_\<close>.
\<close>

subsection \<open>Constants and error values\<close>

definition stepLength :: float64 where "stepLength = 0.65"
definition ds_mInKm :: float64 where "ds_mInKm = 1000"

declare stepLength_def [go_consts] ds_mInKm_def [go_consts]

definition ds_ErrInvalidArgumentCount :: go_error where
  "ds_ErrInvalidArgumentCount = ErrorsNew PkgDaysteps ''expected 2 arguments''"
definition ds_ErrZeroSteps :: go_error where
  "ds_ErrZeroSteps = ErrorsNew PkgDaysteps ''steps must be greater than zero''"
definition ds_ErrZeroDuration :: go_error where
  "ds_ErrZeroDuration = ErrorsNew PkgDaysteps ''duration must be greater than zero''"

lemmas ds_errors = ds_ErrInvalidArgumentCount_def ds_ErrZeroSteps_def ds_ErrZeroDuration_def

subsection \<open>The parser\<close>

definition parsePackage :: "go_string \<Rightarrow> (go_int \<times> duration) result" where
  "parsePackage data =
     (let dataSlice = strings_Split CHR '','' data in
      if length dataSlice \<noteq> 2 then Inl ds_ErrInvalidArgumentCount
      else case strconv_Atoi (dataSlice ! 0) of
        Inl err \<Rightarrow> Inl err
      | Inr steps \<Rightarrow>
          if steps \<le> 0 then Inl ds_ErrZeroSteps
          else case time_ParseDuration (dataSlice ! 1) of
            Inl err \<Rightarrow> Inl err
          | Inr totalTime \<Rightarrow>
              if totalTime \<le> 0 then Inl ds_ErrZeroDuration
              else Inr (steps, totalTime))"

subsection \<open>The report\<close>

text \<open>The fixed text of the three \<open>Sprintf\<close> formats, in UTF-8.\<close>

abbreviation txt_steps :: go_string where
  "txt_steps \<equiv> [CHR 0xD0, CHR 0x9A, CHR 0xD0, CHR 0xBE, CHR 0xD0, CHR 0xBB, CHR 0xD0, CHR 0xB8,
     CHR 0xD1, CHR 0x87, CHR 0xD0, CHR 0xB5, CHR 0xD1, CHR 0x81, CHR 0xD1, CHR 0x82, CHR 0xD0,
     CHR 0xB2, CHR 0xD0, CHR 0xBE] @ '' '' @ [CHR 0xD1, CHR 0x88, CHR 0xD0, CHR 0xB0, CHR 0xD0,
     CHR 0xB3, CHR 0xD0, CHR 0xBE, CHR 0xD0, CHR 0xB2] @ '': ''"

abbreviation txt_covered :: go_string where
  "txt_covered \<equiv> [CHR 0xD0, CHR 0x94, CHR 0xD0, CHR 0xB8, CHR 0xD1, CHR 0x81, CHR 0xD1, CHR 0x82,
     CHR 0xD0, CHR 0xB0, CHR 0xD0, CHR 0xBD, CHR 0xD1, CHR 0x86, CHR 0xD0, CHR 0xB8, CHR 0xD1,
     CHR 0x8F] @ '' '' @ [CHR 0xD1, CHR 0x81, CHR 0xD0, CHR 0xBE, CHR 0xD1, CHR 0x81, CHR 0xD1,
     CHR 0x82, CHR 0xD0, CHR 0xB0, CHR 0xD0, CHR 0xB2, CHR 0xD0, CHR 0xB8, CHR 0xD0, CHR 0xBB,
     CHR 0xD0, CHR 0xB0] @ '' ''"

abbreviation txt_burned :: go_string where
  "txt_burned \<equiv> [CHR 0xD0, CHR 0x92, CHR 0xD1, CHR 0x8B] @ '' '' @ [CHR 0xD1, CHR 0x81, CHR 0xD0,
     CHR 0xBE, CHR 0xD0, CHR 0xB6, CHR 0xD0, CHR 0xB3, CHR 0xD0, CHR 0xBB, CHR 0xD0, CHR 0xB8] @ '' ''"

abbreviation txt_kcal :: go_string where
  "txt_kcal \<equiv> '' '' @ [CHR 0xD0, CHR 0xBA, CHR 0xD0, CHR 0xBA, CHR 0xD0, CHR 0xB0, CHR 0xD0,
     CHR 0xBB] @ ''.'' @ [CHR 0x0A]"

text \<open>The three lines appended to \<open>result := ""\<close>.\<close>

definition dayReport :: "go_int \<Rightarrow> float64 \<Rightarrow> float64 \<Rightarrow> go_string" where
  "dayReport steps pathKilometers calories =
     '''' @ (txt_steps @ fmt_v_int steps @ ''.'' @ [CHR 0x0A])
        @ (txt_covered @ fmt_f2 pathKilometers @ txt_km)
        @ (txt_burned @ fmt_f2 calories @ txt_kcal)"

text \<open>The distance of the report, \<open>pathLength / mInKm\<close> with the fixed stride.\<close>

definition dayPathKilometers :: "go_int \<Rightarrow> float64" where
  "dayPathKilometers steps =
     (let pathLength = real_of_int steps * stepLength
      in pathLength / ds_mInKm)"

text \<open>
  \<open>DayActionInfo\<close>: every error is logged and answered with the empty string. The
  second test of \<open>steps <= 0\<close> repeats one \<open>parsePackage\<close> has made.
\<close>

definition DayActionInfo :: "go_string \<Rightarrow> float64 \<Rightarrow> float64 \<Rightarrow> go_string \<times> go_error list" where
  "DayActionInfo data weight height =
     (case parsePackage data of
        Inl err \<Rightarrow> ('''', [err])
      | Inr (steps, dur) \<Rightarrow>
          if steps \<le> 0 then ('''', [ds_ErrZeroSteps])
          else
            let pathKilometers = dayPathKilometers steps
            in case WalkingSpentCalories steps weight height dur of
                 Inl err \<Rightarrow> ('''', [err])
               | Inr calories \<Rightarrow> (dayReport steps pathKilometers calories, []))"

subsection \<open>The parser and the report on every branch\<close>

lemma ds_errors_distinct [simp]:
  "ds_ErrInvalidArgumentCount \<noteq> ds_ErrZeroSteps" "ds_ErrInvalidArgumentCount \<noteq> ds_ErrZeroDuration"
  "ds_ErrZeroSteps \<noteq> ds_ErrInvalidArgumentCount" "ds_ErrZeroDuration \<noteq> ds_ErrInvalidArgumentCount"
  "ds_ErrZeroSteps \<noteq> ds_ErrZeroDuration" "ds_ErrZeroDuration \<noteq> ds_ErrZeroSteps"
  "ds_ErrInvalidArgumentCount \<noteq> NumError f n k" "ds_ErrInvalidArgumentCount \<noteq> DurationError k' s"
  "NumError f n k \<noteq> ds_ErrInvalidArgumentCount" "DurationError k' s \<noteq> ds_ErrInvalidArgumentCount"
  "ds_ErrZeroSteps \<noteq> NumError f n k" "ds_ErrZeroSteps \<noteq> DurationError k' s"
  "NumError f n k \<noteq> ds_ErrZeroSteps" "DurationError k' s \<noteq> ds_ErrZeroSteps"
  by (simp_all add: ds_errors)

lemma parsePackage_arity:
  "length (strings_Split CHR '','' s) \<noteq> 2 \<Longrightarrow> parsePackage s = Inl ds_ErrInvalidArgumentCount"
  by (simp add: parsePackage_def)

lemma parsePackage_fields:
  "strings_Split CHR '','' s = [a, b] \<Longrightarrow>
   parsePackage s =
     (case strconv_Atoi a of
        Inl e \<Rightarrow> Inl e
      | Inr n \<Rightarrow>
          if n \<le> 0 then Inl ds_ErrZeroSteps
          else case time_ParseDuration b of
            Inl e \<Rightarrow> Inl e
          | Inr d \<Rightarrow> if d \<le> 0 then Inl ds_ErrZeroDuration else Inr (n, d))"
  by (simp add: parsePackage_def Let_def cong: sum.case_cong if_cong)

lemma length_2_cases: "length xs = 2 \<Longrightarrow> \<exists>a b. xs = [a, b]"
  by (auto simp: numeral_2_eq_2 length_Suc_conv)

lemma parsePackage_Inr_fields:
  "parsePackage s = Inr (n, d) \<Longrightarrow>
   \<exists>a b. strings_Split CHR '','' s = [a, b] \<and>
     strconv_Atoi a = Inr n \<and> 0 < n \<and> time_ParseDuration b = Inr d \<and> 0 < d"
proof -
  assume ok: "parsePackage s = Inr (n, d)"
  then have "length (strings_Split CHR '','' s) = 2"
    using parsePackage_arity by fastforce
  then obtain a b where sp: "strings_Split CHR '','' s = [a, b]"
    using length_2_cases by blast
  with ok have "strconv_Atoi a = Inr n \<and> 0 < n \<and> time_ParseDuration b = Inr d \<and> 0 < d"
    by (auto simp: parsePackage_fields split: sum.splits if_splits)
  with sp show ?thesis by blast
qed

lemma DayActionInfo_parse_error:
  "parsePackage data = Inl e \<Longrightarrow> DayActionInfo data weight height = ('''', [e])"
  by (simp add: DayActionInfo_def dayPathKilometers_def)

lemma DayActionInfo_parsed:
  "parsePackage data = Inr (steps, dur) \<Longrightarrow>
   DayActionInfo data weight height =
     (case WalkingSpentCalories steps weight height dur of
        Inl e \<Rightarrow> ('''', [e])
      | Inr c \<Rightarrow> (dayReport steps (real_of_int steps * stepLength / ds_mInKm) c, []))"
  by (auto simp: DayActionInfo_def dayPathKilometers_def Let_def dest: parsePackage_Inr_fields)

lemma DayActionInfo_calories:
  "parsePackage data = Inr (steps, dur) \<Longrightarrow> 0 < weight \<Longrightarrow> 0 < height \<Longrightarrow>
   WalkingSpentCalories steps weight height dur = Inr (weight * distance steps height / 2)"
  by (auto simp: WalkingSpentCalories_Inr_iff RunningSpentCalories_pos dest!: parsePackage_Inr_fields)

lemma takeWhile_upto: "c \<notin> set xs \<Longrightarrow> takeWhile (\<lambda>x. x \<noteq> c) (xs @ c # ys) = xs"
  by (induction xs) auto

lemma dayReport_not_Nil [simp]: "dayReport steps km c \<noteq> []"
  by (simp add: dayReport_def)

lemmas day_simps = DayActionInfo_parse_error DayActionInfo_parsed

subsection \<open>Properties\<close>

text \<open>
  C4. \<open>DayActionInfo\<close> swallows errors: it answers with the empty string exactly when
  it has logged an error, and it logs at most one.
\<close>

theorem dayActionInfo_swallows_errors:
  "(fst (DayActionInfo data weight height) = '''' \<longleftrightarrow> snd (DayActionInfo data weight height) \<noteq> [])
   \<and> length (snd (DayActionInfo data weight height)) \<le> 1"
  by (auto simp: DayActionInfo_def dayPathKilometers_def Let_def split: sum.splits prod.splits)

text \<open>
  C8. \<open>parsePackage\<close> accepts exactly the records of two comma-free fields whose
  first field \<open>strconv.Atoi\<close> reads as a positive number of steps and whose second
  \<open>time.ParseDuration\<close> reads as a positive duration.
\<close>

theorem parsePackage_accepts:
  "parsePackage s = Inr (n, d) \<longleftrightarrow>
   (\<exists>a b. s = a @ CHR '','' # b \<and> CHR '','' \<notin> set a \<and> CHR '','' \<notin> set b \<and>
      strconv_Atoi a = Inr n \<and> 0 < n \<and> time_ParseDuration b = Inr d \<and> 0 < d)"
proof
  assume "parsePackage s = Inr (n, d)"
  moreover from this have "length (strings_Split CHR '','' s) = 2"
    using parsePackage_arity by fastforce
  then obtain a b where sp: "strings_Split CHR '','' s = [a, b]"
    using length_2_cases by blast
  ultimately have v: "strconv_Atoi a = Inr n" "0 < n" "time_ParseDuration b = Inr d" "0 < d"
    by (auto simp: parsePackage_def sp split: sum.splits if_splits)
  with strings_Split_eq_two [OF sp] show "\<exists>a b. s = a @ CHR '','' # b \<and>
      CHR '','' \<notin> set a \<and> CHR '','' \<notin> set b \<and>
      strconv_Atoi a = Inr n \<and> 0 < n \<and> time_ParseDuration b = Inr d \<and> 0 < d" by blast
next
  assume "\<exists>a b. s = a @ CHR '','' # b \<and> CHR '','' \<notin> set a \<and> CHR '','' \<notin> set b \<and>
      strconv_Atoi a = Inr n \<and> 0 < n \<and> time_ParseDuration b = Inr d \<and> 0 < d"
  then obtain a b where s: "s = a @ CHR '','' # b"
    and nc: "CHR '','' \<notin> set a" "CHR '','' \<notin> set b"
    and v: "strconv_Atoi a = Inr n" "0 < n" "time_ParseDuration b = Inr d" "0 < d" by blast
  have "strings_Split CHR '','' s = [a, b]" using s nc by (simp add: strings_Split_two)
  with v show "parsePackage s = Inr (n, d)" by (simp add: parsePackage_def)
qed

text \<open>
  C10. \<open>parsePackage\<close> fails with \<open>ErrInvalidArgumentCount\<close> exactly when the
  record does not have exactly one comma (two fields).
\<close>

theorem parsePackage_wrong_arity:
  "parsePackage s = Inl ds_ErrInvalidArgumentCount \<longleftrightarrow> count_list s CHR '','' \<noteq> 1"
proof
  assume e: "parsePackage s = Inl ds_ErrInvalidArgumentCount"
  show "count_list s CHR '','' \<noteq> 1"
  proof
    assume "count_list s CHR '','' = 1"
    then have "length (strings_Split CHR '','' s) = 2" by (simp add: length_strings_Split)
    then obtain a b where sp: "strings_Split CHR '','' s = [a, b]"
      using length_2_cases by blast
    from e show False
      by (auto simp: parsePackage_fields [OF sp] split: sum.splits if_splits
          dest!: strconv_Atoi_Inl time_ParseDuration_Inl)
  qed
next
  assume "count_list s CHR '','' \<noteq> 1"
  then show "parsePackage s = Inl ds_ErrInvalidArgumentCount"
    by (simp add: parsePackage_def length_strings_Split)
qed

text \<open>
  C11. A two-field record whose steps field is a number that is not positive is
  rejected with \<open>ErrZeroSteps\<close>, before the duration is looked at.
\<close>

theorem parsePackage_zero_steps:
  assumes "CHR '','' \<notin> set a" and "CHR '','' \<notin> set b"
    and "strconv_Atoi a = Inr n" and "n \<le> 0"
  shows "parsePackage (a @ CHR '','' # b) = Inl ds_ErrZeroSteps"
  using assms by (simp add: strings_Split_two parsePackage_fields)

theorem parsePackage_zero_steps_witness:
  "parsePackage ''0,30m'' = Inl ds_ErrZeroSteps"
proof -
  have "strconv_Atoi ''0'' = Inr 0" by (simp add: go_eval)
  then show ?thesis using parsePackage_zero_steps [of "''0''" "''30m''" 0] by simp
qed

text \<open>
  C13. A record that \<open>parsePackage\<close> accepts, with a positive weight and height,
  produces the three-line daily report and logs nothing: the steps, the distance at
  a fixed stride of 0.65 m, and the walking calories.
\<close>

theorem dayActionInfo_report:
  assumes "parsePackage data = Inr (steps, dur)" and "0 < weight" and "0 < height"
  shows "DayActionInfo data weight height =
    (dayReport steps (real_of_int steps * stepLength / ds_mInKm)
       (weight * distance steps height / 2), [])"
proof -
  have "0 < steps" using parsePackage_Inr_fields [OF assms(1)] by blast
  with assms show ?thesis by (simp add: DayActionInfo_def dayPathKilometers_def DayActionInfo_calories)
qed

theorem dayActionInfo_report_witness:
  "DayActionInfo ''1000,10m'' 70 1.75 =
    (dayReport 1000 (1000 * stepLength / ds_mInKm) (70 * distance 1000 1.75 / 2), [])"
proof -
  have p: "parsePackage ''1000,10m'' = Inr (1000, 600000000000)"
    by (simp add: parsePackage_def go_eval duration_units Let_def)
  show ?thesis using dayActionInfo_report [OF p, of 70 "1.75"] by simp
qed

text \<open>
  C17. The second check \<open>steps <= 0\<close> of \<open>DayActionInfo\<close> is dead code: the function
  equals the one without it, because \<open>parsePackage\<close> has already rejected every
  record whose steps are not positive.
\<close>

theorem dayActionInfo_second_guard_unreachable:
  "DayActionInfo data weight height =
     (case parsePackage data of
        Inl e \<Rightarrow> ('''', [e])
      | Inr (steps, dur) \<Rightarrow>
          (case WalkingSpentCalories steps weight height dur of
             Inl e \<Rightarrow> ('''', [e])
           | Inr c \<Rightarrow> (dayReport steps (real_of_int steps * stepLength / ds_mInKm) c, [])))"
  by (cases "parsePackage data") (auto simp: day_simps)

text \<open>
  C19. The steps line of the daily report reads back: \<open>strconv.Atoi\<close> of the text
  between the label and the full stop is the number of steps that was parsed.
\<close>

theorem dayActionInfo_steps_readback:
  assumes "parsePackage data = Inr (steps, dur)" and "0 < weight" and "0 < height"
  shows "strconv_Atoi (takeWhile (\<lambda>c. c \<noteq> CHR ''.'')
           (drop (length txt_steps) (fst (DayActionInfo data weight height)))) = Inr steps"
proof -
  obtain a b where a: "strconv_Atoi a = Inr steps"
    using parsePackage_Inr_fields [OF assms(1)] by blast
  have "CHR ''.'' \<notin> set (fmt_v_int steps)" by (rule fmt_v_int_chars) simp_all
  then have "takeWhile (\<lambda>c. c \<noteq> CHR ''.'') (drop (length txt_steps)
               (fst (DayActionInfo data weight height))) = fmt_v_int steps"
    using assms by (simp add: DayActionInfo_parsed DayActionInfo_calories dayReport_def
        takeWhile_upto)
  moreover have "in_int64 steps" using a by (simp add: strconv_Atoi_Inr_iff)
  ultimately show ?thesis by (simp add: strconv_Atoi_fmt_v_int)
qed

theorem dayActionInfo_steps_readback_witness:
  "strconv_Atoi (takeWhile (\<lambda>c. c \<noteq> CHR ''.'')
     (drop (length txt_steps) (fst (DayActionInfo ''1000,10m'' 70 1.75)))) = Inr 1000"
proof -
  have p: "parsePackage ''1000,10m'' = Inr (1000, 600000000000)"
    by (simp add: parsePackage_def go_eval duration_units Let_def)
  have "0 < (70::real)" "0 < (1.75::real)" by simp_all
  with p show ?thesis by (rule dayActionInfo_steps_readback)
qed

text \<open>
  C20. The two numbers of the daily report are printed to within half a hundredth:
  the distance, steps times 0.65 m in kilometres, and the walking calories.
\<close>

theorem dayActionInfo_report_precision:
  assumes "parsePackage data = Inr (steps, dur)" and "0 < weight" and "0 < height"
  shows "\<exists>q1 r1 q2 r2. fst (DayActionInfo data weight height) =
      txt_steps @ fmt_v_int steps @ ''.'' @ [CHR 0x0A]
      @ txt_covered @ nat_digits q1 @ ''.'' @ two_digits r1 @ txt_km
      @ txt_burned @ nat_digits q2 @ ''.'' @ two_digits r2 @ txt_kcal
    \<and> r1 < 100 \<and> r2 < 100
    \<and> \<bar>real q1 + real r1 / 100 - real_of_int steps * 13 / 20000\<bar> \<le> 1 / 200
    \<and> \<bar>real q2 + real r2 / 100 - weight * distance steps height / 2\<bar> \<le> 1 / 200"
proof -
  have s: "0 < steps" using parsePackage_Inr_fields [OF assms(1)] by blast
  have km: "real_of_int steps * stepLength / ds_mInKm = real_of_int steps * 13 / 20000"
    by (simp add: go_consts)
  obtain q1 r1 where f1: "fmt_f2 (real_of_int steps * 13 / 20000) = nat_digits q1 @ ''.'' @ two_digits r1"
    and b1: "r1 < 100" "\<bar>real q1 + real r1 / 100 - real_of_int steps * 13 / 20000\<bar> \<le> 1 / 200"
    using fmt_f2_pos [of "real_of_int steps * 13 / 20000"] s by auto
  have "0 < weight * distance steps height / 2"
    using assms(2,3) s by (simp add: distance_pos)
  then obtain q2 r2 where f2: "fmt_f2 (weight * distance steps height / 2) = nat_digits q2 @ ''.'' @ two_digits r2"
    and b2: "r2 < 100" "\<bar>real q2 + real r2 / 100 - weight * distance steps height / 2\<bar> \<le> 1 / 200"
    using fmt_f2_pos by blast
  have "fst (DayActionInfo data weight height) =
      txt_steps @ fmt_v_int steps @ ''.'' @ [CHR 0x0A]
      @ txt_covered @ nat_digits q1 @ ''.'' @ two_digits r1 @ txt_km
      @ txt_burned @ nat_digits q2 @ ''.'' @ two_digits r2 @ txt_kcal"
    using assms by (simp add: DayActionInfo_parsed DayActionInfo_calories dayReport_def km f1 f2)
  with b1 b2 show ?thesis by blast
qed

theorem dayActionInfo_report_precision_witness:
  "\<exists>q1 r1 q2 r2. fst (DayActionInfo ''1000,10m'' 70 1.75) =
      txt_steps @ fmt_v_int 1000 @ ''.'' @ [CHR 0x0A]
      @ txt_covered @ nat_digits q1 @ ''.'' @ two_digits r1 @ txt_km
      @ txt_burned @ nat_digits q2 @ ''.'' @ two_digits r2 @ txt_kcal
    \<and> r1 < 100 \<and> r2 < 100
    \<and> \<bar>real q1 + real r1 / 100 - real_of_int 1000 * 13 / 20000\<bar> \<le> 1 / 200
    \<and> \<bar>real q2 + real r2 / 100 - 70 * distance 1000 1.75 / 2\<bar> \<le> 1 / 200"
proof -
  have p: "parsePackage ''1000,10m'' = Inr (1000, 600000000000)"
    by (simp add: parsePackage_def go_eval duration_units Let_def)
  have "0 < (70::real)" "0 < (1.75::real)" by simp_all
  with p show ?thesis by (rule dayActionInfo_report_precision)
qed

text \<open>
  C23. A two-field record whose steps field is short and not a decimal integer
  produces no report and logs exactly \<open>strconv.Atoi\<close>'s syntax error for that field.
\<close>

theorem dayActionInfo_bad_steps:
  assumes "CHR '','' \<notin> set a" and "CHR '','' \<notin> set b"
    and "\<not> int_syntax a" and "length a \<le> 18"
  shows "DayActionInfo (a @ CHR '','' # b) weight height = ('''', [NumError ''Atoi'' a ErrSyntax])"
proof -
  have "parsePackage (a @ CHR '','' # b) = Inl (NumError ''Atoi'' a ErrSyntax)"
    using assms by (simp add: strings_Split_two parsePackage_fields strconv_Atoi_syntax_error)
  then show ?thesis by (rule DayActionInfo_parse_error)
qed

theorem dayActionInfo_bad_steps_witness:
  "DayActionInfo ''bad,input'' 70 1.75 = ('''', [NumError ''Atoi'' ''bad'' ErrSyntax])"
proof -
  have "\<not> int_syntax ''bad''" by (simp add: int_syntax_def go_eval)
  then show ?thesis using dayActionInfo_bad_steps [of "''bad''" "''input''" 70 "1.75"] by simp
qed

text \<open>
  C24. A negative duration is accepted by \<open>time.ParseDuration\<close> and then rejected by
  \<open>parsePackage\<close> with \<open>ErrZeroDuration\<close>.
\<close>

theorem parsePackage_negative_duration:
  assumes "CHR '','' \<notin> set a" and "CHR '','' \<notin> set b"
    and "strconv_Atoi a = Inr n" and "0 < n"
    and "time_ParseDuration (CHR ''-'' # b) = Inr d"
  shows "parsePackage (a @ CHR '','' # CHR ''-'' # b) = Inl ds_ErrZeroDuration"
  using assms time_ParseDuration_neg [OF assms(5)]
  by (simp add: strings_Split_two parsePackage_fields)

theorem parsePackage_negative_duration_witness:
  "parsePackage ''5000,-30m'' = Inl ds_ErrZeroDuration"
proof -
  have "strconv_Atoi ''5000'' = Inr 5000" "time_ParseDuration ''-30m'' = Inr (- 1800000000000)"
    by (simp_all add: go_eval duration_units)
  then show ?thesis
    using parsePackage_negative_duration [of "''5000''" "''30m''" 5000 "- 1800000000000"] by simp
qed

text \<open>
  The daily records of the specification's examples, \<open>"5000,30m"\<close> and
  \<open>"5000,1h30m"\<close>, and two with a fractional hour. \<open>"5000,1.5h"\<close> is exact;
  \<open>"5000,0.47429364135000h"\<close> is 1707457108860 ns exactly, but the \<open>float64\<close>
  fraction term of \<open>ParseDuration\<close> yields one nanosecond less.
\<close>

lemma parsePackage_examples:
  "parsePackage ''5000,30m'' = Inr (5000, 30 * Minute)
   \<and> parsePackage ''5000,1h30m'' = Inr (5000, Hour + 30 * Minute)
   \<and> parsePackage ''5000,1.5h'' = Inr (5000, 5400000000000)
   \<and> parsePackage ''5000,0.47429364135000h'' = Inr (5000, 1707457108859)"
  by (simp add: parsePackage_def go_eval duration_units Let_def)

text \<open>
  C26. The steps field is read by \<open>strconv.Atoi\<close>, which accepts more than plain
  decimal digits: a plus sign and leading zeros are allowed and ignored.
\<close>

theorem parsePackage_lenient_steps:
  assumes "0 < n" and "n \<le> int64_max" and "0 < m" and "m * 60000000000 < 2 ^ 63"
  shows "parsePackage (CHR ''+'' # replicate k CHR ''0'' @ fmt_v_int n @ CHR '','' # fmt_v_int m @ ''m'')
         = Inr (n, m * 60000000000)"
proof -
  have "strings_Split CHR '','' (CHR ''+'' # replicate k CHR ''0'' @ fmt_v_int n @ CHR '','' # fmt_v_int m @ ''m'')
        = [CHR ''+'' # replicate k CHR ''0'' @ fmt_v_int n, fmt_v_int m @ ''m'']"
    using strings_Split_two [of "CHR '',''" "CHR ''+'' # replicate k CHR ''0'' @ fmt_v_int n"
        "fmt_v_int m @ ''m''"]
    by (simp add: fmt_v_int_no_comma)
  moreover have "strconv_Atoi (CHR ''+'' # replicate k CHR ''0'' @ fmt_v_int n) = Inr n"
    using assms(1,2) by (rule strconv_Atoi_plus_zeros)
  moreover have "time_ParseDuration (fmt_v_int m @ ''m'') = Inr (m * 60000000000)"
    using assms(3,4) by (rule time_ParseDuration_minutes)
  ultimately show ?thesis using assms(1,3) by (simp add: parsePackage_fields)
qed

theorem parsePackage_lenient_steps_witness:
  "parsePackage (CHR ''+'' # replicate 2 CHR ''0'' @ fmt_v_int 5000 @ CHR '','' # fmt_v_int 30 @ ''m'')
   = Inr (5000, 1800000000000)"
  using parsePackage_lenient_steps [of 5000 30 2] by simp

text \<open>
  C28. A steps field outside the range of a Go \<open>int\<close> is rejected by \<open>strconv.Atoi\<close>
  with \<open>ErrRange\<close>: the daily report is empty and that error is the one line logged.
\<close>

theorem dayActionInfo_steps_overflow:
  assumes "\<not> in_int64 n" and "CHR '','' \<notin> set b"
  shows "DayActionInfo (fmt_v_int n @ CHR '','' # b) weight height
         = ('''', [NumError ''Atoi'' (fmt_v_int n) ErrRange])"
proof -
  have "parsePackage (fmt_v_int n @ CHR '','' # b) = Inl (NumError ''Atoi'' (fmt_v_int n) ErrRange)"
    using assms by (simp add: strings_Split_two fmt_v_int_no_comma parsePackage_fields
        strconv_Atoi_fmt_v_int_range)
  then show ?thesis by (rule DayActionInfo_parse_error)
qed

theorem dayActionInfo_steps_overflow_witness:
  "DayActionInfo (fmt_v_int 9223372036854775808 @ CHR '','' # ''30m'') 70 1.75
   = ('''', [NumError ''Atoi'' (fmt_v_int 9223372036854775808) ErrRange])"
  using dayActionInfo_steps_overflow [of 9223372036854775808 "''30m''" 70 "1.75"] by simp

end
