(* ===== verification/Session.thy ===== *)
theory Session
  imports Daysteps
begin

text \<open>
  The two entry points share one piece of state: the standard logger, to which
  \<open>log.Println\<close> appends a line. A session is a sequence of calls of
  \<open>DayActionInfo\<close> and \<open>TrainingInfo\<close>; its state is the log so far and the replies
  the callers received, in order. The step function runs one call on the models of the
  two functions and appends what it logs and what it returns. The invariant, proved
  over every reachable session by rule induction, says which errors can reach the log
  and that the log has exactly one line per failed call that logs: every daily failure
  and every training failure of the parser, and nothing else.
\<close>

datatype call = DayCall go_string float64 float64 | TrainingCall go_string float64 float64

datatype reply = DayReply go_string | TrainingReply "go_string result"

record session =
  log_out :: "go_error list"
  replies :: "reply list"

definition session_init :: session where
  "session_init = \<lparr>log_out = [], replies = []\<rparr>"

fun session_step :: "session \<Rightarrow> call \<Rightarrow> session" where
  "session_step s (DayCall data weight height) =
     (case DayActionInfo data weight height of
        (r, l) \<Rightarrow> s\<lparr>log_out := log_out s @ l, replies := replies s @ [DayReply r]\<rparr>)"
| "session_step s (TrainingCall data weight height) =
     (case TrainingInfo data weight height of
        (r, l) \<Rightarrow> s\<lparr>log_out := log_out s @ l, replies := replies s @ [TrainingReply r]\<rparr>)"

inductive session_reachable :: "session \<Rightarrow> bool" where
  start: "session_reachable session_init"
| step: "session_reachable s \<Longrightarrow> session_reachable (session_step s c)"

text \<open>
  The errors that may be logged: the sentinel errors of both parsers, the weight and
  height errors of the calorie functions, and the errors of \<open>strconv.Atoi\<close> and
  \<open>time.ParseDuration\<close>.
\<close>

definition log_error :: "go_error \<Rightarrow> bool" where
  "log_error e =
     (case e of
        ErrorsNew p m \<Rightarrow>
          e \<in> {ds_ErrInvalidArgumentCount, ds_ErrZeroSteps, ds_ErrZeroDuration,
               sc_ErrInvalidArgumentCount, sc_ErrZeroSteps, sc_ErrZeroDuration,
               sc_ErrZeroWeight, sc_ErrZeroHeigth}
      | NumError f s k \<Rightarrow> f = ''Atoi''
      | DurationError k s \<Rightarrow> True)"

text \<open>Which replies come with a log line.\<close>

fun reply_logged :: "reply \<Rightarrow> bool" where
  "reply_logged (DayReply r) = (r = [])"
| "reply_logged (TrainingReply (Inr r)) = False"
| "reply_logged (TrainingReply (Inl e)) =
     (e \<notin> {sc_ErrZeroWeight, sc_ErrZeroHeigth, sc_ErrUnknownTraining})"

lemmas all_errors = ds_errors sc_errors sc_ErrZeroWeight_def sc_ErrZeroHeigth_def
  sc_ErrUnknownTraining_def

subsection \<open>What each call logs\<close>

lemma parsePackage_Inl_log_error: "parsePackage data = Inl e \<Longrightarrow> log_error e"
  by (auto simp: parsePackage_def Let_def log_error_def all_errors split: if_splits sum.splits
      dest!: strconv_Atoi_Inl time_ParseDuration_Inl)

lemma parseTraining_Inl_log_error:
  "parseTraining data = Inl e \<Longrightarrow> log_error e \<and> reply_logged (TrainingReply (Inl e))"
  by (auto simp: parseTraining_def Let_def log_error_def all_errors split: if_splits sum.splits
      dest!: strconv_Atoi_Inl time_ParseDuration_Inl)

lemma RunningSpentCalories_pos_Inl:
  "0 < steps \<Longrightarrow> 0 < dur \<Longrightarrow> RunningSpentCalories steps weight height dur = Inl e \<Longrightarrow>
   e = sc_ErrZeroWeight \<or> e = sc_ErrZeroHeigth"
  by (auto simp: RunningSpentCalories_def Let_def split: if_splits)

lemma DayActionInfo_log:
  "(snd (DayActionInfo data weight height) = [] \<and> fst (DayActionInfo data weight height) \<noteq> [])
   \<or> (\<exists>e. DayActionInfo data weight height = ([], [e]) \<and> log_error e)"
proof (cases "parsePackage data")
  case (Inl e)
  then show ?thesis by (simp add: DayActionInfo_parse_error parsePackage_Inl_log_error)
next
  case (Inr p)
  obtain n d where p: "p = (n, d)" by (cases p)
  with Inr have pos: "0 < n" "0 < d" using parsePackage_Inr_fields by blast+
  show ?thesis
  proof (cases "WalkingSpentCalories n weight height d")
    case (Inl e)
    then have "e = sc_ErrZeroWeight \<or> e = sc_ErrZeroHeigth"
      using pos by (auto simp: WalkingSpentCalories_Inl_iff dest: RunningSpentCalories_pos_Inl)
    then have "log_error e" by (auto simp: log_error_def all_errors)
    with Inr p Inl show ?thesis by (simp add: DayActionInfo_parsed)
  next
    case (Inr c)
    with \<open>parsePackage data = Inr p\<close> p show ?thesis by (simp add: DayActionInfo_parsed)
  qed
qed

lemma TrainingInfo_log:
  "(snd (TrainingInfo data weight height) = []
      \<and> \<not> reply_logged (TrainingReply (fst (TrainingInfo data weight height))))
   \<or> (\<exists>e. TrainingInfo data weight height = (Inl e, [e])
      \<and> log_error e \<and> reply_logged (TrainingReply (Inl e)))"
proof (cases "parseTraining data")
  case (Inl e)
  then show ?thesis using parseTraining_Inl_log_error [OF Inl] by (simp add: TrainingInfo_parse_error)
next
  case (Inr p)
  obtain n l d where p: "p = (n, l, d)" by (cases p)
  with Inr have pos: "0 < n" "0 < d" using parseTraining_Inr_fields by blast+
  have run: "RunningSpentCalories n weight height d = Inl e \<Longrightarrow>
      e \<in> {sc_ErrZeroWeight, sc_ErrZeroHeigth, sc_ErrUnknownTraining}" for e
    using RunningSpentCalories_pos_Inl [OF pos] by auto
  show ?thesis
    using Inr p run
    by (auto simp: TrainingInfo_parsed trainingCalories_def WalkingSpentCalories_Inl_iff split: sum.splits)
qed

lemma log_error_not_unknown [simp]: "\<not> log_error sc_ErrUnknownTraining"
  by (simp add: log_error_def all_errors)

subsection \<open>Properties\<close>

text \<open>
  C29. In every session reachable by calls of the two entry points, the log holds only
  parser errors and the weight and height errors of the calorie functions (never
  \<open>ErrUnknownTraining\<close>), and it has exactly one line per reply that reports a logged
  failure: an empty daily report, or a training error from the parser.
\<close>

theorem session_log_invariant:
  assumes "session_reachable s"
  shows "list_all log_error (log_out s) \<and> sc_ErrUnknownTraining \<notin> set (log_out s)
         \<and> length (log_out s) = length (filter reply_logged (replies s))"
  using assms
proof (induction rule: session_reachable.induct)
  case start
  then show ?case by (simp add: session_init_def)
next
  case (step s c)
  show ?case
  proof (cases c)
    case (DayCall data weight height)
    from DayActionInfo_log [of data weight height] step.IH show ?thesis
      by (auto simp: DayCall split: prod.split)
  next
    case (TrainingCall data weight height)
    from TrainingInfo_log [of data weight height] step.IH show ?thesis
      by (auto simp: TrainingCall split: prod.split)
  qed
qed

theorem session_log_invariant_witness:
  "list_all log_error (log_out (session_step (session_step session_init
       (DayCall ''bad,input'' 70 1.75)) (TrainingCall ''1000,Dancing,10m'' 70 1.75)))
   \<and> sc_ErrUnknownTraining \<notin> set (log_out (session_step (session_step session_init
       (DayCall ''bad,input'' 70 1.75)) (TrainingCall ''1000,Dancing,10m'' 70 1.75)))
   \<and> length (log_out (session_step (session_step session_init
       (DayCall ''bad,input'' 70 1.75)) (TrainingCall ''1000,Dancing,10m'' 70 1.75)))
     = length (filter reply_logged (replies (session_step (session_step session_init
       (DayCall ''bad,input'' 70 1.75)) (TrainingCall ''1000,Dancing,10m'' 70 1.75))))"
  by (rule session_log_invariant) (intro session_reachable.step session_reachable.start)

end
