(* ===== verification/GoDurationSpec.thy ===== *)
theory GoDurationSpec
  imports GoDuration
begin

text \<open>
  What \<open>time.ParseDuration\<close> promises for the durations the program reads: a duration
  written as a sequence of components, each a decimal number followed by a unit
  (\<open>"1h30m"\<close>), denotes the sum of the numbers times their units. The abstract
  specification is the list of components (\<open>dur_text\<close> prints it, \<open>dur_value\<close> is its
  meaning); the refinement theorem shows that the model of the library computes that
  meaning whenever it fits in an \<open>int64\<close>.
\<close>

type_synonym dur_component = "nat \<times> go_string"

definition dur_text :: "dur_component list \<Rightarrow> go_string" where
  "dur_text cs = concat (map (\<lambda>(n, u). nat_digits n @ u) cs)"

definition dur_value :: "dur_component list \<Rightarrow> nat" where
  "dur_value cs = sum_list (map (\<lambda>(n, u). case unitMap u of Some k \<Rightarrow> n * k | None \<Rightarrow> 0) cs)"

definition dur_units_ok :: "dur_component list \<Rightarrow> bool" where
  "dur_units_ok cs \<longleftrightarrow> list_all (\<lambda>(n, u). unitMap u \<noteq> None) cs"

subsection \<open>Units\<close>

lemma unitMap_Some_unit:
  "unitMap u = Some k \<Longrightarrow> u \<noteq> [] \<and> (\<forall>c \<in> set u. unit_char c) \<and> 0 < k"
  by (auto simp: unitMap_def unit_char_def is_digit_def duration_units split: if_splits)

lemma dur_text_Cons [simp]: "dur_text ((n, u) # cs) = nat_digits n @ u @ dur_text cs"
  by (simp add: dur_text_def)

lemma dur_text_Nil [simp]: "dur_text [] = []"
  by (simp add: dur_text_def)

lemma dur_value_Nil [simp]: "dur_value [] = 0"
  by (simp add: dur_value_def)

lemma dur_value_Cons [simp]: "unitMap u = Some k \<Longrightarrow> dur_value ((n, u) # cs) = n * k + dur_value cs"
  by (simp add: dur_value_def)

lemma dur_text_hd:
  "cs \<noteq> [] \<Longrightarrow> dur_text cs \<noteq> [] \<and> is_digit (hd (dur_text cs))"
proof (cases cs)
  case (Cons p cs')
  obtain n u where p: "p = (n, u)" by (cases p)
  obtain c r where "nat_digits n = c # r" by (cases "nat_digits n") (auto simp: nat_digits_not_Nil)
  moreover then have "is_digit c" by (rule nat_digits_hd_digit)
  ultimately show ?thesis using Cons p by simp
qed simp

lemma dur_text_no_comma: "dur_units_ok cs \<Longrightarrow> CHR '','' \<notin> set (dur_text cs)"
proof (induction cs)
  case (Cons p cs)
  obtain n u where p: "p = (n, u)" by (cases p)
  with Cons.prems obtain k where "unitMap u = Some k" and ok: "dur_units_ok cs"
    by (auto simp: dur_units_ok_def)
  then have "CHR '','' \<notin> set u" by (auto simp: unitMap_def split: if_splits)
  moreover have "CHR '','' \<notin> set (nat_digits n)"
    using nat_digits_all_digits [of n] by auto
  ultimately show ?case using Cons.IH [OF ok] p by simp
qed simp

subsection \<open>The loop computes the sum\<close>

lemma parseDuration_loop_dur_text:
  "dur_units_ok cs \<Longrightarrow> d + dur_value cs \<le> 2 ^ 63 \<Longrightarrow>
   parseDuration_loop orig (dur_text cs) d = Inr (d + dur_value cs)"
proof (induction cs arbitrary: d)
  case Nil
  then show ?case by (simp add: parseDuration_loop.simps)
next
  case (Cons p cs)
  obtain n u where p: "p = (n, u)" by (cases p)
  from Cons.prems(1) p obtain k where k: "unitMap u = Some k" and ok: "dur_units_ok cs"
    by (auto simp: dur_units_ok_def)
  from unitMap_Some_unit [OF k] have u: "u \<noteq> []" "\<forall>c \<in> set u. unit_char c" by simp_all
  have val: "dur_value (p # cs) = n * k + dur_value cs" using k p by simp
  with Cons.prems(2) have b: "n * k \<le> 2 ^ 63" "d + n * k + dur_value cs \<le> 2 ^ 63" by simp_all
  have rest: "dur_text cs = [] \<or> \<not> unit_char (hd (dur_text cs))"
    using dur_text_hd [of cs] by (cases "cs = []") (auto simp: unit_char_def)
  have comp: "duration_component orig (nat_digits n @ u @ dur_text cs) = Inr (n * k, dur_text cs)"
    using duration_component_digits_unit [OF nat_digits_not_Nil nat_digits_all_digits u k _ rest]
      b(1) by (simp add: nat_digits_value)
  obtain c r where cr: "nat_digits n @ u @ dur_text cs = c # r"
    by (cases "nat_digits n") (auto simp: nat_digits_not_Nil)
  have small: "(d + n * k) mod 2 ^ 64 = d + n * k" using b(2) by simp
  have "parseDuration_loop orig (dur_text cs) (d + n * k) = Inr (d + n * k + dur_value cs)"
    using Cons.IH [OF ok] b(2) by simp
  moreover have t: "dur_text (p # cs) = c # r" using cr p by simp
  ultimately show ?case
    using comp [unfolded cr] small val b(2)
    by (simp add: t parseDuration_loop.simps(2) [of orig c r] Let_def add.assoc)
qed

subsection \<open>Refinement and the iteration bound\<close>

text \<open>
  \<open>time.ParseDuration\<close> refines the abstract meaning of a duration: the text of a
  nonempty list of components with known units parses to the sum of the numbers times
  their units, whenever that sum is below \<open>2^63\<close> nanoseconds.
\<close>

lemma time_ParseDuration_dur_text:
  assumes "cs \<noteq> []" and "dur_units_ok cs" and "dur_value cs < 2 ^ 63"
  shows "time_ParseDuration (dur_text cs) = Inr (int (dur_value cs))"
proof -
  obtain n u cs' where cs: "cs = (n, u) # cs'" using assms(1) by (cases cs) auto
  then obtain k where "unitMap u = Some k" using assms(2) by (auto simp: dur_units_ok_def)
  then have "u \<noteq> []" by (simp add: unitMap_Some_unit)
  then have not0: "dur_text cs \<noteq> ''0''"
    using cs by (cases "nat_digits n") (auto simp: nat_digits_not_Nil)
  obtain c r where cr: "dur_text cs = c # r" and c: "is_digit c"
    using dur_text_hd [OF assms(1)] by (cases "dur_text cs") auto
  then have sign: "c \<noteq> CHR ''-''" "c \<noteq> CHR ''+''" by auto
  have "parseDuration_loop (dur_text cs) (dur_text cs) 0 = Inr (dur_value cs)"
    using parseDuration_loop_dur_text [OF assms(2), of 0] assms(3) by simp
  then show ?thesis
    using not0 assms(3) sign unfolding time_ParseDuration_def cr by auto
qed

end
