(* ===== verification/Spec2Isabelle.thy ===== *)
theory Spec2Isabelle
  imports Session GoDurationSpec
begin

text \<open>
  A verification development for go4sprint, a Go utility that turns step-count records
  into distance and calorie reports. The repository has two packages:
  \<^item> \<open>spentcalories\<close> (src/internal/spentcalories/spentcalories.go): the parser of a
    training record \<open>"<steps>,<label>,<duration>"\<close> (\<open>parseTraining\<close>), the calculator
    (\<open>distance\<close>, \<open>meanSpeed\<close>, \<open>RunningSpentCalories\<close>, \<open>WalkingSpentCalories\<close>) and
    the five-line training report \<open>TrainingInfo\<close>;
  \<^item> \<open>daysteps\<close> (src/internal/daysteps/daysteps.go): the parser of a daily record
    \<open>"<steps>,<duration>"\<close> (\<open>parsePackage\<close>) and the three-line daily report
    \<open>DayActionInfo\<close>, which calls \<open>spentcalories.WalkingSpentCalories\<close>.
  Both parsers call the Go library (\<open>strings.Split\<close>, \<open>strconv.Atoi\<close>,
  \<open>time.ParseDuration\<close>), both reports render with \<open>fmt.Sprintf\<close> (\<open>%v\<close>, \<open>%s\<close>,
  \<open>%.2f\<close>), and errors are logged with \<open>log.Println\<close>. Nothing is stored between
  calls: every entry point is a function of its arguments, with the log as its only
  side effect.

  \<^bold>\<open>Theories.\<close>
  \<^item> \<open>GoPrelude\<close>: the types (a Go string is a byte list, Go \<open>int\<close> and
    \<open>time.Duration\<close> are \<open>int\<close> with the int64 checks of the library written out,
    \<open>uint64\<close> is \<open>nat\<close> with the wrap \<open>mod 2^64\<close> written out, \<open>float64\<close> is
    \<open>real\<close>), decimal digits and their value, and the shared lemmas.
  \<^item> \<open>GoFloat\<close>: binary64 rounding to nearest, ties to even, computed in integer
    arithmetic (\<open>f64_round\<close>), and the one line of \<open>ParseDuration\<close> that uses
    \<open>float64\<close>, \<open>uint64(float64(f) * (float64(unit) / scale))\<close>
    (\<open>f64_fraction\<close>); the relative error of a rounding is at most \<open>2^-53\<close>, and
    the line is within one nanosecond of the exact floor.
  \<^item> \<open>GoErrors\<close>: Go's \<open>error\<close> interface as a datatype of the error values that can
    reach the program (\<open>errors.New\<close> of either package, \<open>*strconv.NumError\<close>, the
    errors of \<open>time.ParseDuration\<close>); a function that can fail returns
    \<open>go_error + 'a\<close>, the \<open>Inl\<close> side being Go's non-nil error.
  \<^item> \<open>GoStrings\<close>: \<open>strings.Split\<close> with a one-byte separator, and its round trips
    against \<open>strings.Join\<close>.
  \<^item> \<open>GoStrconv\<close>: \<open>strconv.Atoi\<close> with its fast path for short strings and the
    checked \<open>ParseInt\<close>/\<open>ParseUint\<close> path; the fast path is proved equal to the
    slow one and the accepted strings are characterised (\<open>int_syntax\<close>).
  \<^item> \<open>GoTime\<close>, \<open>GoDuration\<close>: the \<open>Duration\<close> units, \<open>Duration.Hours\<close> and
    \<open>Duration.Minutes\<close> with Go's truncating \<open>/\<close> and \<open>%\<close> (\<open>sdiv\<close>, \<open>smod\<close>),
    and \<open>time.ParseDuration\<close>: one loop iteration is \<open>duration_component\<close>, whose
    fraction term is \<open>f64_fraction\<close>; the loop
    \<open>parseDuration_loop\<close> is a \<^theory_text>\<open>function\<close> that terminates because each
    accepted component consumes its unit.
  \<^item> \<open>GoFmt\<close>: \<open>%v\<close> of an int (read back by \<open>Atoi\<close>) and \<open>%.2f\<close> (round half to
    even of the exact value; the printed number is within half a hundredth).
  \<^item> \<open>SpentCalories\<close>: the package's constants and error variables, \<open>parseTraining\<close>,
    the calculator, the report text \<open>trainingReport\<close>, the \<open>switch\<close> on the label
    (\<open>trainingCalories\<close>) and \<open>TrainingInfo\<close>, one definition per Go function with
    the source's guards in the source's order.
  \<^item> \<open>Daysteps\<close>: the constants and errors, \<open>parsePackage\<close>, the report text
    \<open>dayReport\<close>, the distance \<open>dayPathKilometers\<close> and \<open>DayActionInfo\<close>.
  \<^item> \<open>GoDurationSpec\<close>: the abstract meaning of a duration text (a list of
    components, \<open>dur_text\<close> and \<open>dur_value\<close>), the refinement of it by
    \<open>time_ParseDuration\<close>.
  \<^item> \<open>Session\<close>: the logger both packages write to, as the state of a sequence of
    calls (\<open>session_step\<close>, \<open>session_reachable\<close>); the
    specification predicates \<open>log_error\<close> and \<open>reply_logged\<close> say which errors may
    be logged and which replies come with a log line.
  \<^item> this theory: the properties that span both packages.
  Definitions that state what the code promises rather than translate it (the
  predicates above, \<open>dur_text\<close>, \<open>dur_value\<close>, \<open>f2_syntax\<close>, \<open>int_syntax\<close>,
  \<open>int_value\<close>, \<open>sc_of_ds\<close>) are specifications and have no source lines.
  The log is an output: \<open>TrainingInfo\<close> returns its Go results paired with the list of
  errors it logged, \<open>DayActionInfo\<close> its string paired with that list.

  \<^bold>\<open>Properties.\<close> The calculator (C1, C2, C3): running calories are weight times
  distance, the duration cancelling out; walking calories are half of them; the first
  failing check decides the error. The parsers (C7 to C12, C18, C22, C24 to C27):
  exactly which records are accepted, the arity, zero-step and zero-duration errors,
  the round trip of the format \<open>"%v,%s,%vm"\<close>, the range of the parsed values, the
  agreement of the two parsers on the shared fields, a negative duration rejected as
  zero, a fractional duration such as \<open>"1.5h"\<close> read to within one nanosecond of its
  exact value (C25), the signs and leading zeros \<open>Atoi\<close> tolerates, and the refinement
  of the abstract record of steps and a duration given as components, through the
  refinement of the sum of components by \<open>ParseDuration\<close> (C27). The reports (C4, C5,
  C6, C13, C14, C17, C19, C20, C21, C23, C28): which errors are logged and which are
  returned or swallowed, the report on success, the dead second steps check of
  \<open>DayActionInfo\<close>, that the printed numbers read back to within the precision of
  the format, that a malformed or out-of-range steps field is a logged \<open>Atoi\<close>
  error. The shared log (C29): in every reachable session the log holds only parser,
  weight and height errors, one line per logged failure. Across packages (C15, C16):
  the daily and the walking training report agree on calories, and disagree on
  distance except for one height.

  \<^bold>\<open>Bounds.\<close> The models use no fuel: every loop of the program and of the library it
  calls runs over the input string and is a structural recursion, or a
  \<^theory_text>\<open>function\<close> with a measure (\<open>parseDuration_loop\<close>, which terminates
  because each accepted component consumes its unit). The int64 and uint64 limits are
  the library's own: \<open>Atoi\<close> reports \<open>ErrRange\<close> outside int64, \<open>ParseDuration\<close>
  rejects sums above \<open>2^63\<close> nanoseconds after each wrapping \<open>uint64\<close> addition.
  The binary64 model has an unbounded exponent. The fraction line never meets a
  subnormal: \<open>float64(unit) / scale\<close> is at least \<open>1e-308\<close> while the scale is
  finite. It meets infinity only when more than 308 fraction digits overflow the scale,
  and then Go's result, \<open>uint64(f * 0) = 0\<close>, is also the model's, since the product
  \<open>f * unit / scale\<close> is then below \<open>2^63 * 3.6e12 / 1e308 < 1\<close>. The scale is
  rounded at every \<open>scale *= 10\<close> as Go rounds it; it stays exact for up to 22
  digits (\<open>f64_scale_step\<close>), which covers the 18 digits of C25.

  \<^bold>\<open>Not modelled.\<close> Floating-point rounding of the program's own formulas: the
  \<open>float64\<close> arithmetic of the calculator and the reports is exact real arithmetic
  here, so the equations about calories and distances are about the exact values the
  formulas denote, and NaN and infinite weights or heights do not exist. Go's results
  differ from them in the last bits: 1000 steps of 1.75 m for 10 minutes at 70 kg give
  55.12500000000001 kcal in Go and 55.125 here, and over two hours Go gives 55.125, so
  the cancellation of the duration (C1) is exact only up to rounding. Division by zero
  is 0 in HOL, so \<open>meanSpeed\<close>'s guard for a zero duration cannot be told apart from
  the division it protects; Go would return an infinity or NaN without it. The
  specification asks for these formulas to a tolerance (1e-6), not for their rounding,
  and every formula has several operations whose rounding would have to be tracked
  through \<open>Duration.Hours\<close>, \<open>Minutes\<close> and \<open>%.2f\<close>; \<open>GoFloat\<close> models
  binary64 only for the line of \<open>ParseDuration\<close> whose result is an integer, where
  rounding changes the answer (one nanosecond, \<open>parsePackage_examples\<close>).
  The \<open>%.2f\<close> verb is exact for the value it is given. The text of a log line is not
  modelled: its prefix is the wall-clock time, and the \<open>Error()\<close> text of
  \<open>*strconv.NumError\<close> quotes the input with \<open>strconv.Quote\<close>, which depends on the
  Unicode tables of \<open>unicode.IsPrint\<close>; the model keeps the logged error values and
  their order instead (theory \<open>Session\<close>). The lines of the sources the map leaves out
  are package clauses, imports and the brackets of the \<open>const\<close> and \<open>var\<close> blocks;
  the command-line entry point is not part of the sources.
\<close>

subsection \<open>The two packages side by side\<close>

text \<open>
  The daily parser's errors as the training parser reports them: the two packages
  declare their sentinel errors with the same messages, each with its own
  \<open>errors.New\<close>.
\<close>

fun sc_of_ds :: "go_error \<Rightarrow> go_error" where
  "sc_of_ds (ErrorsNew PkgDaysteps m) = ErrorsNew PkgSpentcalories m"
| "sc_of_ds e = e"

text \<open>
  C12. The two parsers agree on the fields they share: a training record is accepted
  exactly when the daily record without its label is, with the same steps and
  duration, and each daily error is the training parser's error of the same message.
\<close>

theorem parsers_agree:
  assumes "CHR '','' \<notin> set a" and "CHR '','' \<notin> set l" and "CHR '','' \<notin> set b"
  shows "parseTraining (a @ CHR '','' # l @ CHR '','' # b) =
         map_sum sc_of_ds (\<lambda>(n, d). (n, l, d)) (parsePackage (a @ CHR '','' # b))"
proof -
  have sp: "strings_Split CHR '','' (a @ CHR '','' # l @ CHR '','' # b) = [a, l, b]"
    "strings_Split CHR '','' (a @ CHR '','' # b) = [a, b]"
    using assms by (simp_all add: strings_Split_two strings_Split_three)
  show ?thesis
    by (cases "strconv_Atoi a"; cases "time_ParseDuration b")
      (auto simp: parseTraining_fields [OF sp(1)] parsePackage_def sp(2)
        sc_errors ds_errors dest!: strconv_Atoi_Inl time_ParseDuration_Inl)
qed

theorem parsers_agree_witness:
  "parseTraining ''0,x,10m'' = map_sum sc_of_ds (\<lambda>(n, d). (n, ''x'', d)) (parsePackage ''0,10m'')"
  using parsers_agree [of "''0''" "''x''" "''10m''"] by simp

text \<open>
  C15. On the same steps and duration, the daily report and the walking training
  report print the same calories, those of \<open>WalkingSpentCalories\<close>, and neither logs.
\<close>

theorem daily_and_walking_calories_agree:
  assumes "CHR '','' \<notin> set a" and "CHR '','' \<notin> set b"
    and "parsePackage (a @ CHR '','' # b) = Inr (steps, dur)"
    and "0 < weight" and "0 < height"
  shows "\<exists>c. WalkingSpentCalories steps weight height dur = Inr c
    \<and> DayActionInfo (a @ CHR '','' # b) weight height
        = (dayReport steps (real_of_int steps * stepLength / ds_mInKm) c, [])
    \<and> TrainingInfo (a @ CHR '','' # label_Walking @ CHR '','' # b) weight height
        = (Inr (trainingReport label_Walking dur (distance steps height)
             (meanSpeed steps height dur) c), [])"
proof -
  have w: "WalkingSpentCalories steps weight height dur = Inr (weight * distance steps height / 2)"
    using assms(3-5) by (rule DayActionInfo_calories)
  have nc: "CHR '','' \<notin> set label_Walking" by (simp add: label_Walking_def)
  obtain a' b' where f: "strings_Split CHR '','' (a @ CHR '','' # b) = [a', b']"
    "strconv_Atoi a' = Inr steps" "0 < steps" "time_ParseDuration b' = Inr dur" "0 < dur"
    using parsePackage_Inr_fields [OF assms(3)] by blast
  have "a' = a" "b' = b" using f(1) assms(1,2) by (simp_all add: strings_Split_two)
  with f have "parseTraining (a @ CHR '','' # label_Walking @ CHR '','' # b)
      = Inr (steps, label_Walking, dur)"
    using assms(1,2) nc by (simp add: strings_Split_three parseTraining_fields)
  then have "TrainingInfo (a @ CHR '','' # label_Walking @ CHR '','' # b) weight height
      = (Inr (trainingReport label_Walking dur (distance steps height)
           (meanSpeed steps height dur) (weight * distance steps height / 2)), [])"
    using w by (simp add: TrainingInfo_parsed trainingCalories_def)
  moreover have "DayActionInfo (a @ CHR '','' # b) weight height
      = (dayReport steps (real_of_int steps * stepLength / ds_mInKm)
           (weight * distance steps height / 2), [])"
    using assms(3) w by (simp add: DayActionInfo_parsed)
  ultimately show ?thesis using w by blast
qed

theorem daily_and_walking_calories_agree_witness:
  "\<exists>c. WalkingSpentCalories 1000 70 1.75 600000000000 = Inr c
    \<and> DayActionInfo (''1000'' @ CHR '','' # ''10m'') 70 1.75
        = (dayReport 1000 (real_of_int 1000 * stepLength / ds_mInKm) c, [])
    \<and> TrainingInfo (''1000'' @ CHR '','' # label_Walking @ CHR '','' # ''10m'') 70 1.75
        = (Inr (trainingReport label_Walking 600000000000 (distance 1000 1.75)
             (meanSpeed 1000 1.75 600000000000) c), [])"
proof -
  have p: "parsePackage (''1000'' @ CHR '','' # ''10m'') = Inr (1000, 600000000000)"
    by (simp add: parsePackage_def go_eval duration_units Let_def)
  have "CHR '','' \<notin> set ''1000''" "CHR '','' \<notin> set ''10m''" "0 < (70::real)" "0 < (1.75::real)"
    by simp_all
  then show ?thesis using daily_and_walking_calories_agree [OF _ _ p] by blast
qed

text \<open>
  C16. The two packages measure distance differently: the daily report assumes a
  fixed stride of 0.65 m, the training report a stride of 0.45 times the height. For
  any positive number of steps they agree only for a height of 13/9 m.
\<close>

theorem stride_divergence:
  assumes "0 < steps"
  shows "dayPathKilometers steps = distance steps height \<longleftrightarrow> height = 13 / 9"
  using assms by (auto simp: dayPathKilometers_def distance_eq go_consts field_simps)

theorem stride_divergence_witness:
  "dayPathKilometers 1 = distance 1 (13 / 9) \<and> dayPathKilometers 1 \<noteq> distance 1 1.75"
  using stride_divergence [of 1 "13 / 9"] stride_divergence [of 1 "1.75"] by simp

text \<open>
  C27. The daily parser refines the abstract record: the text of a positive number of
  steps, a comma and a duration written as a nonempty list of components with known
  units parses to the steps and the sum of the components' numbers times their units,
  when that sum is positive and below \<open>2^63\<close> nanoseconds.
\<close>

theorem parsePackage_refines_components:
  assumes "0 < n" and "n \<le> int64_max" and "cs \<noteq> []" and "dur_units_ok cs"
    and "0 < dur_value cs" and "dur_value cs < 2 ^ 63"
  shows "parsePackage (fmt_v_int n @ CHR '','' # dur_text cs) = Inr (n, int (dur_value cs))"
proof -
  have sp: "strings_Split CHR '','' (fmt_v_int n @ CHR '','' # dur_text cs) = [fmt_v_int n, dur_text cs]"
    using dur_text_no_comma [OF assms(4)] by (simp add: strings_Split_two fmt_v_int_no_comma)
  have "strconv_Atoi (fmt_v_int n) = Inr n" using assms(1,2) by (simp add: strconv_Atoi_fmt_v_int)
  moreover have "time_ParseDuration (dur_text cs) = Inr (int (dur_value cs))"
    using assms(3,4,6) by (rule time_ParseDuration_dur_text)
  ultimately show ?thesis using assms(1,5) by (simp add: parsePackage_def sp)
qed

theorem parsePackage_refines_components_witness:
  "parsePackage (fmt_v_int 5000 @ CHR '','' # dur_text [(1, ''h''), (30, ''m'')])
   = Inr (5000, 5400000000000)"
  using parsePackage_refines_components [of 5000 "[(1, ''h''), (30, ''m'')]"]
  by (simp add: dur_units_ok_def unitMap_def duration_units del: dur_text_Cons)

text \<open>
  C25. A daily record whose duration is one component with a decimal point,
  \<open>a.bu\<close>, is accepted, and its duration is within one nanosecond of the exact value
  \<open>(a + b / 10^|b|) * unit\<close>: \<open>ParseDuration\<close> computes the fraction in \<open>float64\<close>,
  with three roundings and a truncation. This holds for every unit, integer part below
  the range limit, fraction of at most 18 digits and duration of at least 2 ns.
\<close>

theorem parsePackage_fractional_duration:
  assumes n: "0 < n" "n \<le> int64_max"
    and a: "\<forall>c \<in> set a. is_digit c" and b: "\<forall>c \<in> set b. is_digit c"
    and ab: "a \<noteq> [] \<or> b \<noteq> []" and lb: "length b \<le> 18"
    and u: "unitMap u = Some k"
    and hi: "(digits_value 0 a + 1) * k < 2 ^ 63"
    and lo: "2 \<le> (real (digits_value 0 a) + real (digits_value 0 b) / 10 ^ length b) * real k"
  shows "\<exists>d. parsePackage (fmt_v_int n @ CHR '','' # a @ CHR ''.'' # b @ u) = Inr (n, d) \<and>
    \<bar>d - \<lfloor>(real (digits_value 0 a) + real (digits_value 0 b) / 10 ^ length b) * real k\<rfloor>\<bar> \<le> 1"
proof -
  define A F S where "A = digits_value 0 a" and "F = digits_value 0 b" and "S = (10::nat) ^ length b"
  have uk: "u \<noteq> []" "\<forall>c \<in> set u. unit_char c" "0 < k" using unitMap_Some_unit [OF u] by simp_all
  have k42: "k \<le> 2 ^ 42" using u by (rule unitMap_le)
  obtain sc where sc: "f64_val sc = 10 ^ length b" and pd0: "time_ParseDuration (a @ CHR ''.'' # b @ u)
      = Inr (int (A * k + f64_fraction F k sc))"
    using time_ParseDuration_fraction_unit [OF a b ab lb uk(1,2) u hi] by (auto simp: A_def F_def)
  define fr where "fr = f64_fraction F k sc"
  have S: "0 < S" by (simp add: S_def)
  have scS: "f64_val sc = real S" using sc by (simp add: S_def)
  have FS: "F < S" using digits_value_less [OF b, of 0] by (simp add: F_def S_def)
  have "fr \<le> k" unfolding fr_def using scS S FS k42 uk(3) by (rule f64_fraction_le)
  moreover have "A * k + k < 2 ^ 63" using hi by (simp add: A_def algebra_simps)
  ultimately have v: "A * k + fr < 2 ^ 63" by linarith
  have close: "\<bar>int fr - \<lfloor>real F * real k / real S\<rfloor>\<bar> \<le> 1"
    unfolding fr_def using scS S FS k42 by (rule f64_fraction_close)
  have "(real A + real F / real S) * real k = real F * real k / real S + real_of_int (int (A * k))"
    by (simp add: algebra_simps)
  then have fl: "\<lfloor>(real A + real F / real S) * real k\<rfloor> = \<lfloor>real F * real k / real S\<rfloor> + int (A * k)"
    by (simp only: floor_add_int)
  have E2: "2 \<le> \<lfloor>(real A + real F / real S) * real k\<rfloor>"
    using lo by (simp add: A_def F_def S_def le_floor_iff)
  have pd: "time_ParseDuration (a @ CHR ''.'' # b @ u) = Inr (int (A * k + fr))"
    using pd0 by (simp add: fr_def)
  have "CHR '','' \<notin> set u" using u by (auto simp: unitMap_def split: if_splits)
  then have "CHR '','' \<notin> set (a @ CHR ''.'' # b @ u)" using a b by auto
  then have sp: "strings_Split CHR '','' (fmt_v_int n @ CHR '','' # a @ CHR ''.'' # b @ u)
      = [fmt_v_int n, a @ CHR ''.'' # b @ u]"
    by (simp add: strings_Split_two fmt_v_int_no_comma)
  have at: "strconv_Atoi (fmt_v_int n) = Inr n" using n by (simp add: strconv_Atoi_fmt_v_int)
  have d0: "0 < int (A * k + fr)" using close fl E2 by linarith
  have rS: "(10::real) ^ length b = real S" by (simp add: S_def)
  show ?thesis
    using close fl d0 n(1)
    by (simp add: parsePackage_def sp at pd rS flip: A_def F_def)
qed

theorem parsePackage_fractional_duration_witness:
  "\<exists>d. parsePackage (fmt_v_int 5000 @ '',0.47429364135000h'') = Inr (5000, d)
      \<and> \<bar>d - 1707457108860\<bar> \<le> 1"
  using parsePackage_fractional_duration [of 5000 "''0''" "''47429364135000''" "''h''" "nat Hour"]
  by (simp add: unitMap_def duration_units is_digit_def digit_val_def)

end
